theory Spec2Isabelle
  imports Main "HOL-Library.Char_ord" "HOL-Library.List_Lexorder" "HOL-Library.Multiset"
begin

section \<open>The sprite sheet generator \<^verbatim>\<open>create_spritesheets.py\<close>\<close>

text \<open>
  The script reads frame images from
  \<^verbatim>\<open><script_dir>/animations/<source_folder>/<direction>/frame_*.png\<close> and writes one
  sheet per animation to \<^verbatim>\<open><script_dir>/spritesheets/<output_name>.png\<close>.

  What the script reads is a value of type \<open>files\<close>; what it does to the outside
  (lines printed, files saved) is a value of type \<open>effects\<close> that every function
  takes and returns updated. The script never reads back what it has printed or saved,
  and it saves only \<^verbatim>\<open>spritesheets/<name>.png\<close>, so \<open>files\<close> stays the same during a
  run.

  A function that can raise returns \<open>error + 'a\<close> beside the effects it had until then.
  The exceptions are those of \<^verbatim>\<open>os.listdir\<close>, of the lookup
  \<^verbatim>\<open>direction_frames[direction]\<close>, and of \<^verbatim>\<open>os.makedirs\<close> and \<^verbatim>\<open>save\<close>; whatever
  \<^verbatim>\<open>Image.open\<close> and \<^verbatim>\<open>paste\<close> raise is caught by the script and is the value \<open>None\<close>
  of \<open>decode\<close>. Running out of memory, a closed standard output and an interrupt from the
  keyboard are not part of the model. Paths are POSIX paths, and file names are strings of
  8-bit characters, compared character by character as Python compares code points.
\<close>

subsection \<open>Data\<close>

type_synonym path = string

text \<open>An RGBA pixel, and an image as Pillow holds one: a size and a pixel for each
  coordinate \<open>(x, y)\<close>.\<close>

type_synonym rgba = "nat \<times> nat \<times> nat \<times> nat"

record image =
  width :: nat
  height :: nat
  px :: "nat \<times> nat \<Rightarrow> rgba"

text \<open>What \<^verbatim>\<open>os.path.exists\<close> and \<^verbatim>\<open>os.listdir\<close> find at a path: nothing, a directory
  with its entry names, or something that exists and cannot be listed (a regular file,
  a directory without read permission), where \<^verbatim>\<open>os.listdir\<close> raises.\<close>

datatype entry = Folder "string list" | Unlistable

datatype error = ListdirError path | KeyError string | WriteError path

text \<open>The lines the script prints, one constructor for each \<^verbatim>\<open>print\<close> call of the
  source, with the values it formats into the line.\<close>

datatype message =
    DirectoryNotFound path
  | AnimationFolderNotFound path
  | CreatingFrom string string
  | FrameCount string nat
  | NoFramesFound string
  | CreatingSheet nat nat nat
  | ErrorLoading path
  | Saved path
  | Rule
  | Title
  | ScriptDirectory path
  | OutputDirectory path
  | BlankRule
  | Done nat nat
  | SavedTo path

record files =
  file_dir :: path
  abs_dir :: path
  tree :: "path \<rightharpoonup> entry"
  decode :: "path \<Rightarrow> image option"
  writable :: "path \<Rightarrow> bool"

text \<open>
  \<^item> \<open>file_dir\<close> is \<^verbatim>\<open>os.path.dirname(__file__)\<close>, \<open>abs_dir\<close> is
    \<^verbatim>\<open>os.path.dirname(os.path.abspath(__file__))\<close>;
  \<^item> \<open>decode p\<close> is what \<^verbatim>\<open>Image.open(p)\<close> followed by the load and the conversion to
    RGBA inside \<^verbatim>\<open>paste\<close> yields; \<open>None\<close> when any of them raises;
  \<^item> \<open>writable p\<close> tells whether \<^verbatim>\<open>os.makedirs(os.path.dirname(p), exist_ok=True)\<close>
    and \<^verbatim>\<open>save(p, "PNG")\<close> both return; otherwise one of them raises.
\<close>

record effects =
  stdout :: "message list"
  written :: "path \<rightharpoonup> image"

definition print :: "message \<Rightarrow> effects \<Rightarrow> effects" where
  "print m out = out\<lparr>stdout := stdout out @ [m]\<rparr>"

subsection \<open>Constants\<close>

definition FRAME_WIDTH :: nat where "FRAME_WIDTH = 104"
definition FRAME_HEIGHT :: nat where "FRAME_HEIGHT = 104"

definition DIRECTIONS :: "string list" where
  "DIRECTIONS = [''south'', ''south-east'', ''east'', ''north-east'',
                 ''north'', ''north-west'', ''west'', ''south-west'']"

text \<open>A Python dict keeps insertion order, so the mapping is a list of pairs.\<close>

definition ANIMATIONS :: "(string \<times> string) list" where
  "ANIMATIONS = [(''idle'', ''breathing-idle''), (''walk'', ''walk''),
                 (''run'', ''running-6-frames'')]"

subsection \<open>Library functions the script calls\<close>

definition startswith :: "string \<Rightarrow> string \<Rightarrow> bool" where
  "startswith s p = (take (length p) s = p)"

definition endswith :: "string \<Rightarrow> string \<Rightarrow> bool" where
  "endswith s p = (length p \<le> length s \<and> drop (length s - length p) s = p)"

text \<open>\<^verbatim>\<open>posixpath.join\<close> with two arguments.\<close>

definition path_join :: "path \<Rightarrow> path \<Rightarrow> path" where
  "path_join a b =
     (if startswith b ''/'' then b
      else if a = [] \<or> endswith a ''/'' then a @ b
      else a @ ''/'' @ b)"

definition exists :: "files \<Rightarrow> path \<Rightarrow> bool" where
  "exists fs p = (tree fs p \<noteq> None)"

definition listdir :: "files \<Rightarrow> path \<Rightarrow> error + string list" where
  "listdir fs p = (case tree fs p of Some (Folder names) \<Rightarrow> Inr names
                                   | _ \<Rightarrow> Inl (ListdirError p))"

text \<open>\<^verbatim>\<open>Image.new("RGBA", (w, h), (0, 0, 0, 0))\<close>.\<close>

definition Image_new :: "nat \<Rightarrow> nat \<Rightarrow> image" where
  "Image_new w h = \<lparr>width = w, height = h, px = (\<lambda>_. (0, 0, 0, 0))\<rparr>"

text \<open>\<^verbatim>\<open>sheet.paste(frame, (x0, y0))\<close> with no mask: the rectangle of the frame's own
  size at \<open>(x0, y0)\<close>, clipped to the sheet, takes the frame's pixels, alpha
  included; the rest of the sheet keeps its pixels.\<close>

definition paste :: "image \<Rightarrow> image \<Rightarrow> nat \<times> nat \<Rightarrow> image" where
  "paste sheet frame box =
     (case box of (x0, y0) \<Rightarrow>
        sheet\<lparr>px := (\<lambda>(x, y).
          if x0 \<le> x \<and> x < x0 + width frame \<and> x < width sheet \<and>
             y0 \<le> y \<and> y < y0 + height frame \<and> y < height sheet
          then px frame (x - x0, y - y0)
          else px sheet (x, y))\<rparr>)"

subsection \<open>\<^verbatim>\<open>get_frame_files\<close>\<close>

definition get_frame_files ::
  "files \<Rightarrow> path \<Rightarrow> string \<Rightarrow> effects \<Rightarrow> effects \<times> (error + path list)" where
  "get_frame_files fs animation_path direction out =
     (let dir_path = path_join animation_path direction in
      if \<not> exists fs dir_path
      then (print (DirectoryNotFound dir_path) out, Inr [])
      else (case listdir fs dir_path of
              Inl e \<Rightarrow> (out, Inl e)
            | Inr names \<Rightarrow>
                (let fnames = sort (filter (\<lambda>f. startswith f ''frame_'' \<and> endswith f ''.png'') names)
                 in (out, Inr (map (path_join dir_path) fnames)))))"

subsection \<open>\<^verbatim>\<open>create_spritesheet\<close>\<close>

text \<open>The first loop: the frames of each direction, and the largest count.\<close>

fun discover ::
  "files \<Rightarrow> path \<Rightarrow> string list \<Rightarrow> effects \<times> nat \<times> (string \<rightharpoonup> path list)
     \<Rightarrow> effects \<times> (error + nat \<times> (string \<rightharpoonup> path list))" where
  "discover fs animation_path [] (out, max_frames, direction_frames) =
     (out, Inr (max_frames, direction_frames))"
| "discover fs animation_path (direction # rest) (out, max_frames, direction_frames) =
     (case get_frame_files fs animation_path direction out of
        (out', Inl e) \<Rightarrow> (out', Inl e)
      | (out', Inr frames) \<Rightarrow>
          discover fs animation_path rest
            (print (FrameCount direction (length frames)) out',
             max max_frames (length frames),
             direction_frames(direction \<mapsto> frames)))"

text \<open>The body of the inner loop: one frame, with its \<^verbatim>\<open>try\<close> / \<^verbatim>\<open>except\<close>.\<close>

fun paste_frame :: "files \<Rightarrow> nat \<Rightarrow> nat \<times> path \<Rightarrow> effects \<times> image \<Rightarrow> effects \<times> image" where
  "paste_frame fs row (col, frame_path) (out, spritesheet) =
     (case decode fs frame_path of
        Some frame \<Rightarrow> (out, paste spritesheet frame (col * FRAME_WIDTH, row * FRAME_HEIGHT))
      | None \<Rightarrow> (print (ErrorLoading frame_path) out, spritesheet))"

text \<open>The outer loop; \<^verbatim>\<open>direction_frames[direction]\<close> raises on a missing key.\<close>

fun paste_rows ::
  "files \<Rightarrow> (string \<rightharpoonup> path list) \<Rightarrow> (nat \<times> string) list \<Rightarrow> effects \<times> image
     \<Rightarrow> effects \<times> (error + image)" where
  "paste_rows fs direction_frames [] (out, spritesheet) = (out, Inr spritesheet)"
| "paste_rows fs direction_frames ((row, direction) # rest) (out, spritesheet) =
     (case direction_frames direction of
        None \<Rightarrow> (out, Inl (KeyError direction))
      | Some frames \<Rightarrow>
          paste_rows fs direction_frames rest
            (fold (paste_frame fs row) (enumerate 0 frames) (out, spritesheet)))"

text \<open>The end of \<open>create_spritesheet\<close>: \<^verbatim>\<open>os.makedirs\<close> and \<^verbatim>\<open>save\<close>, neither of them
  inside a \<^verbatim>\<open>try\<close>, then the line printed and \<^verbatim>\<open>return True\<close>.\<close>

definition save :: "files \<Rightarrow> image \<Rightarrow> path \<Rightarrow> effects \<Rightarrow> effects \<times> (error + bool)" where
  "save fs spritesheet output_path out =
     (if writable fs output_path
      then (print (Saved output_path)
              (out\<lparr>written := (written out)(output_path \<mapsto> spritesheet)\<rparr>), Inr True)
      else (out, Inl (WriteError output_path)))"

text \<open>The value of \<^verbatim>\<open>animation_path\<close>: two calls of \<^verbatim>\<open>os.path.join\<close>.\<close>

definition animation_dir :: "files \<Rightarrow> string \<Rightarrow> path" where
  "animation_dir fs source_folder =
     path_join (path_join (file_dir fs) ''animations'') source_folder"

definition create_spritesheet ::
  "files \<Rightarrow> string \<Rightarrow> string \<Rightarrow> path \<Rightarrow> effects \<Rightarrow> effects \<times> (error + bool)" where
  "create_spritesheet fs animation_name source_folder output_path out =
     (let animation_path = animation_dir fs source_folder in
      if \<not> exists fs animation_path
      then (print (AnimationFolderNotFound animation_path) out, Inr False)
      else (case discover fs animation_path DIRECTIONS
                   (print (CreatingFrom animation_name source_folder) out, 0, Map.empty) of
              (out1, Inl e) \<Rightarrow> (out1, Inl e)
            | (out1, Inr (max_frames, direction_frames)) \<Rightarrow>
                if max_frames = 0
                then (print (NoFramesFound animation_name) out1, Inr False)
                else (let sheet_width = max_frames * FRAME_WIDTH;
                          sheet_height = length DIRECTIONS * FRAME_HEIGHT;
                          out2 = print (CreatingSheet sheet_width sheet_height max_frames) out1;
                          spritesheet = Image_new sheet_width sheet_height
                      in (case paste_rows fs direction_frames (enumerate 0 DIRECTIONS)
                                 (out2, spritesheet) of
                            (out3, Inl e) \<Rightarrow> (out3, Inl e)
                          | (out3, Inr sheet) \<Rightarrow> save fs sheet output_path out3))))"

subsection \<open>\<^verbatim>\<open>main\<close>\<close>

text \<open>The loop of \<open>main\<close> over the animation mapping; an exception of
  \<open>create_spritesheet\<close> is not caught and ends it.\<close>

fun main_loop ::
  "files \<Rightarrow> path \<Rightarrow> (string \<times> string) list \<Rightarrow> effects \<times> nat \<Rightarrow> effects \<times> (error + nat)" where
  "main_loop fs output_dir [] (out, success_count) = (out, Inr success_count)"
| "main_loop fs output_dir ((output_name, source_folder) # rest) (out, success_count) =
     (let output_path = path_join output_dir (output_name @ ''.png'') in
      case create_spritesheet fs output_name source_folder output_path out of
        (out', Inl e) \<Rightarrow> (out', Inl e)
      | (out', Inr ok) \<Rightarrow>
          main_loop fs output_dir rest (out', if ok then success_count + 1 else success_count))"

definition main :: "files \<Rightarrow> effects \<Rightarrow> effects \<times> (error + unit)" where
  "main fs out =
     (let script_dir = abs_dir fs;
          output_dir = path_join script_dir ''spritesheets'';
          out1 = print (OutputDirectory output_dir) (print (ScriptDirectory script_dir)
                   (print Rule (print Title (print Rule out))))
      in (case main_loop fs output_dir ANIMATIONS (out1, 0) of
            (out2, Inl e) \<Rightarrow> (out2, Inl e)
          | (out2, Inr success_count) \<Rightarrow>
              (print Rule (print (SavedTo output_dir)
                 (print (Done success_count (length ANIMATIONS)) (print BlankRule out2))),
               Inr ())))"

subsection \<open>Notions used to state the properties\<close>

text \<open>The effects before the script has done anything.\<close>

definition no_effects :: effects where
  "no_effects = \<lparr>stdout = [], written = Map.empty\<rparr>"

text \<open>What \<open>get_frame_files\<close> returns (or raises) for a direction; it does not depend on the
  effects so far (lemma \<open>get_frame_files_result\<close>).\<close>

definition discovered :: "files \<Rightarrow> path \<Rightarrow> string \<Rightarrow> error + path list" where
  "discovered fs animation_path direction =
     snd (get_frame_files fs animation_path direction no_effects)"

text \<open>The frames the two nested loops visit, in the order they visit them, each with its
  row and column index; and the loop body on such a triple.\<close>

definition cells ::
  "(string \<Rightarrow> path list) \<Rightarrow> (nat \<times> string) list \<Rightarrow> (nat \<times> nat \<times> path) list" where
  "cells frames rows =
     concat (map (\<lambda>(row, direction).
                    map (\<lambda>(col, p). (row, col, p)) (enumerate 0 (frames direction))) rows)"

definition paste_cell ::
  "files \<Rightarrow> nat \<times> nat \<times> path \<Rightarrow> effects \<times> image \<Rightarrow> effects \<times> image" where
  "paste_cell fs c = (case c of (row, col, p) \<Rightarrow> paste_frame fs row (col, p))"

text \<open>The largest frame count of the eight directions, the sheet as allocated, the sheet
  after both loops, and the lines the loops print.\<close>

definition frame_count :: "(string \<Rightarrow> path list) \<Rightarrow> nat" where
  "frame_count frames = Max ((\<lambda>d. length (frames d)) ` set DIRECTIONS)"

definition blank_sheet :: "(string \<Rightarrow> path list) \<Rightarrow> image" where
  "blank_sheet frames =
     Image_new (frame_count frames * FRAME_WIDTH) (length DIRECTIONS * FRAME_HEIGHT)"

definition composed :: "files \<Rightarrow> (string \<Rightarrow> path list) \<Rightarrow> image" where
  "composed fs frames =
     snd (fold (paste_cell fs) (cells frames (enumerate 0 DIRECTIONS))
            (no_effects, blank_sheet frames))"

definition load_errors :: "files \<Rightarrow> (string \<Rightarrow> path list) \<Rightarrow> message list" where
  "load_errors fs frames =
     map ErrorLoading (filter (\<lambda>p. decode fs p = None)
        (map (\<lambda>c. snd (snd c)) (cells frames (enumerate 0 DIRECTIONS))))"

text \<open>A frame that decodes covers the pixels of the rectangle of its own size at its cell
  origin.\<close>

definition covers :: "files \<Rightarrow> nat \<times> nat \<times> path \<Rightarrow> nat \<times> nat \<Rightarrow> bool" where
  "covers fs c xy =
     (case (c, xy) of ((row, col, p), (x, y)) \<Rightarrow>
        (case decode fs p of
           None \<Rightarrow> False
         | Some frame \<Rightarrow> col * FRAME_WIDTH \<le> x \<and> x < col * FRAME_WIDTH + width frame \<and>
                         row * FRAME_HEIGHT \<le> y \<and> y < row * FRAME_HEIGHT + height frame))"

text \<open>The position of an element in a list, as the specification's \<open>index_of\<close>
  (Python's \<^verbatim>\<open>list.index\<close>): the first position that holds it.\<close>

fun index_of :: "'a list \<Rightarrow> 'a \<Rightarrow> nat option" where
  "index_of [] x = None"
| "index_of (y # ys) x = (if x = y then Some 0 else map_option Suc (index_of ys x))"

fun is_summary :: "message \<Rightarrow> bool" where
  "is_summary (Done a b) = True"
| "is_summary m = False"

text \<open>A step is quiet when it saves no file and prints no summary line.\<close>

definition quiet :: "effects \<Rightarrow> effects \<Rightarrow> bool" where
  "quiet out out' =
     (written out' = written out \<and>
      (\<exists>msgs. stdout out' = stdout out @ msgs \<and> filter is_summary msgs = []))"

text \<open>Whether \<open>create_spritesheet\<close> returns \<^verbatim>\<open>True\<close>, or raises, for an entry of the animation
  mapping when \<open>main\<close> calls it with the output directory \<open>dir\<close>. Neither depends on the
  effects so far (lemma \<open>create_spritesheet_result_indep\<close>).\<close>

definition outcome :: "files \<Rightarrow> path \<Rightarrow> string \<times> string \<Rightarrow> error + bool" where
  "outcome fs dir a =
     snd (create_spritesheet fs (fst a) (snd a) (path_join dir (fst a @ ''.png'')) no_effects)"

definition succeeds :: "files \<Rightarrow> path \<Rightarrow> string \<times> string \<Rightarrow> bool" where
  "succeeds fs dir a = (outcome fs dir a = Inr True)"

definition raises :: "files \<Rightarrow> path \<Rightarrow> string \<times> string \<Rightarrow> bool" where
  "raises fs dir a = (case outcome fs dir a of Inl e \<Rightarrow> True | Inr ok \<Rightarrow> False)"

text \<open>The lines the first loop prints, and the lines \<open>create_spritesheet\<close> prints up to the
  end of the paste loops, when the frames of direction \<open>d\<close> are \<open>frames d\<close>.\<close>

definition discovery_log ::
  "files \<Rightarrow> path \<Rightarrow> (string \<Rightarrow> path list) \<Rightarrow> string list \<Rightarrow> message list" where
  "discovery_log fs animation_path frames ds =
     concat (map (\<lambda>d. (if exists fs (path_join animation_path d) then []
                         else [DirectoryNotFound (path_join animation_path d)]) @
                        [FrameCount d (length (frames d))]) ds)"

definition assembly_log :: "files \<Rightarrow> string \<Rightarrow> string \<Rightarrow> (string \<Rightarrow> path list) \<Rightarrow> message list" where
  "assembly_log fs n f frames =
     CreatingFrom n f # discovery_log fs (animation_dir fs f) frames DIRECTIONS @
     [CreatingSheet (frame_count frames * FRAME_WIDTH) (length DIRECTIONS * FRAME_HEIGHT)
        (frame_count frames)] @
     load_errors fs frames"

text \<open>The output directory of \<open>main\<close>, and the effects once \<open>main\<close> has printed its
  heading.\<close>

definition output_dir :: "files \<Rightarrow> path" where
  "output_dir fs = path_join (abs_dir fs) ''spritesheets''"

definition banner :: "files \<Rightarrow> effects \<Rightarrow> effects" where
  "banner fs out =
     print (OutputDirectory (output_dir fs)) (print (ScriptDirectory (abs_dir fs))
       (print Rule (print Title (print Rule out))))"

text \<open>A pixel is overwritten after cell \<open>(row, col)\<close> when a frame pasted later covers it,
  and covered when any frame does. The frames fit when every frame that decodes is at most
  104 by 104.\<close>

definition overwritten ::
  "files \<Rightarrow> (string \<Rightarrow> path list) \<Rightarrow> nat \<times> nat \<Rightarrow> nat \<times> nat \<Rightarrow> bool" where
  "overwritten fs frames rc xy =
     (\<exists>c\<in>set (cells frames (enumerate 0 DIRECTIONS)).
        (fst rc < fst c \<or> (fst rc = fst c \<and> snd rc < fst (snd c))) \<and> covers fs c xy)"

definition covered :: "files \<Rightarrow> (string \<Rightarrow> path list) \<Rightarrow> nat \<times> nat \<Rightarrow> bool" where
  "covered fs frames xy = (\<exists>c\<in>set (cells frames (enumerate 0 DIRECTIONS)). covers fs c xy)"

definition fits :: "files \<Rightarrow> (string \<Rightarrow> path list) \<Rightarrow> bool" where
  "fits fs frames =
     (\<forall>c\<in>set (cells frames (enumerate 0 DIRECTIONS)).
        case decode fs (snd (snd c)) of
          None \<Rightarrow> True
        | Some frame \<Rightarrow> width frame \<le> FRAME_WIDTH \<and> height frame \<le> FRAME_HEIGHT)"

subsection \<open>An example installation\<close>

text \<open>
  \<^verbatim>\<open>breathing-idle\<close> has two frames facing south: the first is 208 pixels wide, the
  second does not decode. \<^verbatim>\<open>running-6-frames\<close> has one frame of 50 by 50 facing east.
  There is no \<^verbatim>\<open>walk\<close> folder. The folder \<^verbatim>\<open>empty\<close> has no frames at all.
\<close>

definition white :: rgba where "white = (255, 255, 255, 255)"

definition demo_tree :: "(path \<times> entry) list" where
  "demo_tree =
     [(''/g/animations/breathing-idle'', Folder [''south'']),
      (''/g/animations/breathing-idle/south'',
         Folder [''frame_1.png'', ''notes.txt'', ''frame_0.png'']),
      (''/g/animations/running-6-frames'', Folder [''east'']),
      (''/g/animations/running-6-frames/east'', Folder [''frame_0.png'']),
      (''/g/animations/empty'', Folder [])]"

definition demo_images :: "(path \<times> image) list" where
  "demo_images =
     [(''/g/animations/breathing-idle/south/frame_0.png'',
         \<lparr>width = 208, height = 104, px = (\<lambda>_. white)\<rparr>),
      (''/g/animations/running-6-frames/east/frame_0.png'',
         \<lparr>width = 50, height = 50, px = (\<lambda>_. white)\<rparr>)]"

definition demo :: files where
  "demo = \<lparr>file_dir = ''/g'', abs_dir = ''/g'', tree = map_of demo_tree,
            decode = map_of demo_images, writable = (\<lambda>_. True)\<rparr>"

definition idle_frames :: "string \<Rightarrow> path list" where
  "idle_frames d =
     (if d = ''south''
      then [''/g/animations/breathing-idle/south/frame_0.png'',
            ''/g/animations/breathing-idle/south/frame_1.png'']
      else [])"

definition run_frames :: "string \<Rightarrow> path list" where
  "run_frames d =
     (if d = ''east'' then [''/g/animations/running-6-frames/east/frame_0.png''] else [])"

text \<open>The same installation with frames that all fail to decode, and with an output
  directory that cannot be written.\<close>

definition demo_undecodable :: files where
  "demo_undecodable = demo\<lparr>decode := (\<lambda>_. None)\<rparr>"

definition demo_readonly :: files where
  "demo_readonly = demo\<lparr>writable := (\<lambda>_. False)\<rparr>"

definition no_frames :: "string \<Rightarrow> path list" where
  "no_frames d = []"

text \<open>The same installation where the first frame of \<^verbatim>\<open>breathing-idle\<close> is exactly 104 by
  104 and nothing else decodes.\<close>

definition demo_exact :: files where
  "demo_exact =
     demo\<lparr>decode := (\<lambda>p. if p = ''/g/animations/breathing-idle/south/frame_0.png''
                           then Some \<lparr>width = 104, height = 104, px = (\<lambda>_. white)\<rparr>
                           else None)\<rparr>"

text \<open>The same installation where \<^verbatim>\<open>breathing-idle/north\<close> exists but cannot be listed: a
  regular file, or a directory that may not be read.\<close>

definition demo_blocked :: files where
  "demo_blocked =
     demo\<lparr>tree := (tree demo)(''/g/animations/breathing-idle/north'' \<mapsto> Unlistable)\<rparr>"

section \<open>Properties\<close>

subsection \<open>Frame discovery\<close>

lemma get_frame_files_result: "snd (get_frame_files fs ap d out) = discovered fs ap d"
  by (simp add: discovered_def get_frame_files_def Let_def split: sum.splits)

lemma get_frame_files_effects:
  "fst (get_frame_files fs ap d out) =
     out\<lparr>stdout := stdout out @
        (if exists fs (path_join ap d) then [] else [DirectoryNotFound (path_join ap d)])\<rparr>"
  by (simp add: get_frame_files_def Let_def print_def split: sum.splits)

lemma Max_insert_max:
  fixes S :: "nat set"
  assumes "finite S"
  shows "Max (insert (max m a) S) = Max (insert m (insert a S))"
proof (cases "S = {}")
  case True then show ?thesis by simp
next
  case False then show ?thesis using assms by (simp add: max.assoc)
qed

lemma discover_ok:
  assumes "\<forall>d\<in>set ds. discovered fs ap d = Inr (frames d)"
  shows "discover fs ap ds (out, m, df) =
           (out\<lparr>stdout := stdout out @ discovery_log fs ap frames ds\<rparr>,
            Inr (Max (insert m ((\<lambda>d. length (frames d)) ` set ds)),
                 (\<lambda>d. if d \<in> set ds then Some (frames d) else df d)))"
  using assms
proof (induction ds arbitrary: out m df)
  case Nil
  show ?case by (simp add: discovery_log_def)
next
  case (Cons d ds)
  obtain o1 r1 where g: "get_frame_files fs ap d out = (o1, r1)" by (cases "get_frame_files fs ap d out")
  have r1: "r1 = Inr (frames d)" using get_frame_files_result[of fs ap d out] g Cons.prems by simp
  have o1: "o1 = out\<lparr>stdout := stdout out @
        (if exists fs (path_join ap d) then [] else [DirectoryNotFound (path_join ap d)])\<rparr>"
    using get_frame_files_effects[of fs ap d out] g by simp
  let ?o2 = "print (FrameCount d (length (frames d))) o1"
  have "\<forall>d\<in>set ds. discovered fs ap d = Inr (frames d)" using Cons.prems by simp
  note ih = Cons.IH[OF this, of ?o2 "max m (length (frames d))" "df(d \<mapsto> frames d)"]
  have mx: "Max (insert (max m (length (frames d))) ((\<lambda>d. length (frames d)) ` set ds))
      = Max (insert m ((\<lambda>d. length (frames d)) ` set (d # ds)))"
    using Max_insert_max[of "(\<lambda>d. length (frames d)) ` set ds" m "length (frames d)"] by simp
  have fn: "(\<lambda>x. if x \<in> set ds then Some (frames x) else (df(d \<mapsto> frames d)) x)
      = (\<lambda>x. if x \<in> set (d # ds) then Some (frames x) else df x)"
    by (rule ext) simp
  have lg: "?o2\<lparr>stdout := stdout ?o2 @ discovery_log fs ap frames ds\<rparr>
      = out\<lparr>stdout := stdout out @ discovery_log fs ap frames (d # ds)\<rparr>"
    by (simp add: o1 print_def discovery_log_def)
  show ?case
    unfolding discover.simps g r1 prod.case sum.case ih mx fn lg ..
qed

lemma startswith_iff: "startswith s p \<longleftrightarrow> (\<exists>r. s = p @ r)"
  unfolding startswith_def
  by (metis append_eq_conv_conj append_take_drop_id)

lemma endswith_iff: "endswith s p \<longleftrightarrow> (\<exists>r. s = r @ p)"
  unfolding endswith_def
  by (metis append_eq_conv_conj append_take_drop_id diff_add_inverse2 le_add2 length_append)

lemma demo_join:
  "path_join ''/g/animations/breathing-idle'' ''south'' = ''/g/animations/breathing-idle/south''"
  "path_join ''/g/animations/breathing-idle'' ''north'' = ''/g/animations/breathing-idle/north''"
  by (simp_all add: path_join_def startswith_def endswith_def)

subsection \<open>The paste loops\<close>

lemma paste_size [simp]: "width (paste s f b) = width s" "height (paste s f b) = height s"
  by (simp_all add: paste_def split: prod.splits)

lemma paste_px:
  "px (paste s f (x0, y0)) (x, y) =
     (if x0 \<le> x \<and> x < x0 + width f \<and> x < width s \<and> y0 \<le> y \<and> y < y0 + height f \<and> y < height s
      then px f (x - x0, y - y0) else px s (x, y))"
  by (simp add: paste_def)

lemma paste_cell_decoded:
  "decode fs p = Some f \<Longrightarrow>
   paste_cell fs (row, col, p) (out, s) = (out, paste s f (col * FRAME_WIDTH, row * FRAME_HEIGHT))"
  by (simp add: paste_cell_def)

lemma paste_cell_failed:
  "decode fs p = None \<Longrightarrow>
   paste_cell fs (row, col, p) (out, s) = (print (ErrorLoading p) out, s)"
  by (simp add: paste_cell_def)

lemma paste_cell_size:
  "width (snd (paste_cell fs c s)) = width (snd s) \<and> height (snd (paste_cell fs c s)) = height (snd s)"
  by (cases c; cases s) (simp add: paste_cell_def split: option.splits)

lemma paste_cell_sheet_indep:
  "snd (paste_cell fs c (out, s)) = snd (paste_cell fs c (out', s))"
  by (cases c) (simp add: paste_cell_def split: option.splits)

lemma paste_cell_effects:
  "fst (paste_cell fs c (out, s)) =
     out\<lparr>stdout := stdout out @ (case decode fs (snd (snd c)) of None \<Rightarrow> [ErrorLoading (snd (snd c))] | Some _ \<Rightarrow> [])\<rparr>"
  by (cases c) (simp add: paste_cell_def print_def split: option.splits)

lemma fold_paste_size:
  "width (snd (fold (paste_cell fs) cs s)) = width (snd s) \<and>
   height (snd (fold (paste_cell fs) cs s)) = height (snd s)"
  by (induction cs arbitrary: s) (simp_all add: paste_cell_size)

lemma fold_paste_sheet_indep:
  "snd (fold (paste_cell fs) cs (out, s)) = snd (fold (paste_cell fs) cs (out', s))"
proof (induction cs arbitrary: out out' s)
  case Nil show ?case by simp
next
  case (Cons c cs)
  obtain o1 s1 where a: "paste_cell fs c (out, s) = (o1, s1)" by (cases "paste_cell fs c (out, s)")
  obtain o2 s2 where b: "paste_cell fs c (out', s) = (o2, s2)" by (cases "paste_cell fs c (out', s)")
  have "s1 = s2" using paste_cell_sheet_indep[of fs c out s out'] a b by simp
  then show ?case using Cons.IH[of o1 s1 o2] a b by simp
qed

lemma fold_paste_effects:
  "fst (fold (paste_cell fs) cs (out, s)) =
     out\<lparr>stdout := stdout out @
        map ErrorLoading (filter (\<lambda>p. decode fs p = None) (map (\<lambda>c. snd (snd c)) cs))\<rparr>"
proof (induction cs arbitrary: out s)
  case Nil show ?case by simp
next
  case (Cons c cs)
  obtain o1 s1 where a: "paste_cell fs c (out, s) = (o1, s1)" by (cases "paste_cell fs c (out, s)")
  have o1: "o1 = out\<lparr>stdout := stdout out @ (case decode fs (snd (snd c)) of None \<Rightarrow> [ErrorLoading (snd (snd c))] | Some _ \<Rightarrow> [])\<rparr>"
    using paste_cell_effects[of fs c out s] a by simp
  show ?case using Cons.IH[of o1 s1] a by (simp add: o1 split: option.splits)
qed

lemma paste_cell_untouched:
  "\<not> covers fs c (x, y) \<Longrightarrow> px (snd (paste_cell fs c (out, s))) (x, y) = px s (x, y)"
  by (cases c) (auto simp: paste_cell_def covers_def paste_px split: option.splits)

lemma fold_paste_untouched:
  "\<forall>c\<in>set cs. \<not> covers fs c (x, y) \<Longrightarrow>
   px (snd (fold (paste_cell fs) cs (out, s))) (x, y) = px s (x, y)"
proof (induction cs arbitrary: out s)
  case Nil show ?case by simp
next
  case (Cons c cs)
  obtain o1 s1 where a: "paste_cell fs c (out, s) = (o1, s1)" by (cases "paste_cell fs c (out, s)")
  have "px s1 (x, y) = px s (x, y)" using paste_cell_untouched[of fs c x y out s] a Cons.prems by simp
  then show ?case using Cons.IH[of o1 s1] Cons.prems a by simp
qed

lemma fold_paste_all_failed:
  "\<forall>c\<in>set cs. decode fs (snd (snd c)) = None \<Longrightarrow>
   snd (fold (paste_cell fs) cs (out, s)) = s"
proof (induction cs arbitrary: out s)
  case Nil show ?case by simp
next
  case (Cons c cs)
  obtain row col p where c: "c = (row, col, p)" by (cases c)
  then have "decode fs p = None" using Cons.prems by simp
  then show ?case using Cons.IH[of "print (ErrorLoading p) out" s] Cons.prems c
    by (simp add: paste_cell_failed)
qed

lemma paste_rows_cells:
  "\<forall>(row, d)\<in>set rows. df d = Some (frames d) \<Longrightarrow>
   paste_rows fs df rows (out, s) =
     (fst (fold (paste_cell fs) (cells frames rows) (out, s)),
      Inr (snd (fold (paste_cell fs) (cells frames rows) (out, s))))"
proof (induction rows arbitrary: out s)
  case Nil show ?case by (simp add: cells_def)
next
  case (Cons rd rows)
  obtain row d where rd: "rd = (row, d)" by (cases rd)
  have df: "df d = Some (frames d)" using Cons.prems rd by simp
  have step: "fold (paste_frame fs row) (enumerate 0 (frames d)) (out, s)
      = fold (paste_cell fs) (map (\<lambda>(col, p). (row, col, p)) (enumerate 0 (frames d))) (out, s)"
    by (simp add: fold_map comp_def paste_cell_def case_prod_unfold)
  obtain o1 s1 where a: "fold (paste_frame fs row) (enumerate 0 (frames d)) (out, s) = (o1, s1)"
    by (cases "fold (paste_frame fs row) (enumerate 0 (frames d)) (out, s)")
  have "\<forall>(row, d)\<in>set rows. df d = Some (frames d)" using Cons.prems by simp
  from Cons.IH[OF this, of o1 s1] show ?case
    using a step by (simp add: rd df cells_def)
qed

lemma create_spritesheet_missing:
  "\<not> exists fs (animation_dir fs f) \<Longrightarrow>
   create_spritesheet fs n f p out =
     (print (AnimationFolderNotFound (animation_dir fs f)) out, Inr False)"
  by (simp add: create_spritesheet_def)

lemma Max_insert_0:
  fixes S :: "nat set"
  assumes "finite S" "S \<noteq> {}"
  shows "Max (insert 0 S) = Max S"
  using assms by simp

lemma create_spritesheet_found:
  assumes ex: "exists fs (animation_dir fs f)"
    and fr: "\<forall>d\<in>set DIRECTIONS. discovered fs (animation_dir fs f) d = Inr (frames d)"
  shows "create_spritesheet fs n f p out =
     (if frame_count frames = 0
      then (out\<lparr>stdout := stdout out @
              CreatingFrom n f # discovery_log fs (animation_dir fs f) frames DIRECTIONS @
              [NoFramesFound n]\<rparr>, Inr False)
      else save fs (composed fs frames) p
             (out\<lparr>stdout := stdout out @ assembly_log fs n f frames\<rparr>))"
proof -
  let ?ap = "animation_dir fs f"
  let ?o0 = "print (CreatingFrom n f) out"
  let ?df = "\<lambda>d. if d \<in> set DIRECTIONS then Some (frames d) else None"
  let ?o1 = "?o0\<lparr>stdout := stdout ?o0 @ discovery_log fs ?ap frames DIRECTIONS\<rparr>"
  let ?o2 = "print (CreatingSheet (frame_count frames * FRAME_WIDTH)
                   (length DIRECTIONS * FRAME_HEIGHT) (frame_count frames)) ?o1"
  have d: "discover fs ?ap DIRECTIONS (?o0, 0, Map.empty) =
      (?o1, Inr (Max (insert 0 ((\<lambda>d. length (frames d)) ` set DIRECTIONS)), ?df))"
    by (rule discover_ok[OF fr])
  have mx: "Max (insert 0 ((\<lambda>d. length (frames d)) ` set DIRECTIONS)) = frame_count frames"
    unfolding frame_count_def by (rule Max_insert_0) (simp_all add: DIRECTIONS_def)
  have rows: "\<forall>(row, d)\<in>set (enumerate 0 DIRECTIONS). ?df d = Some (frames d)"
    by (auto simp: in_set_enumerate_eq)
  have pr: "paste_rows fs ?df (enumerate 0 DIRECTIONS) (?o2, blank_sheet frames) =
      (fst (fold (paste_cell fs) (cells frames (enumerate 0 DIRECTIONS)) (?o2, blank_sheet frames)),
       Inr (snd (fold (paste_cell fs) (cells frames (enumerate 0 DIRECTIONS)) (?o2, blank_sheet frames))))"
    by (rule paste_rows_cells[OF rows])
  have sh: "snd (fold (paste_cell fs) (cells frames (enumerate 0 DIRECTIONS)) (?o2, blank_sheet frames))
      = composed fs frames"
    unfolding composed_def by (rule fold_paste_sheet_indep)
  have ef: "fst (fold (paste_cell fs) (cells frames (enumerate 0 DIRECTIONS)) (?o2, blank_sheet frames))
      = ?o2\<lparr>stdout := stdout ?o2 @ load_errors fs frames\<rparr>"
    unfolding load_errors_def by (rule fold_paste_effects)
  show ?thesis
    unfolding create_spritesheet_def Let_def d prod.case sum.case mx blank_sheet_def[symmetric] pr sh ef
    using ex by (simp add: print_def assembly_log_def)
qed

subsection \<open>The outcomes of \<open>create_spritesheet\<close>\<close>

lemma in_cells_iff:
  "(r, c, p) \<in> set (cells frames (enumerate n ds)) \<longleftrightarrow>
     n \<le> r \<and> r < n + length ds \<and> c < length (frames (ds ! (r - n))) \<and>
     p = frames (ds ! (r - n)) ! c"
  by (auto simp: cells_def in_set_enumerate_eq image_iff)

lemma in_cells_DIRECTIONS:
  "(r, c, p) \<in> set (cells frames (enumerate 0 DIRECTIONS)) \<longleftrightarrow>
     r < length DIRECTIONS \<and> c < length (frames (DIRECTIONS ! r)) \<and> p = frames (DIRECTIONS ! r) ! c"
  by (simp add: in_cells_iff)

lemma cell_path_discovered:
  assumes "c \<in> set (cells frames (enumerate 0 DIRECTIONS))"
  shows "\<exists>d\<in>set DIRECTIONS. snd (snd c) \<in> set (frames d)"
proof -
  obtain r k p where c: "c = (r, k, p)" by (cases c)
  with assms have "r < length DIRECTIONS" "k < length (frames (DIRECTIONS ! r))"
    "p = frames (DIRECTIONS ! r) ! k" by (simp_all add: in_cells_DIRECTIONS)
  then show ?thesis using c by (metis nth_mem snd_conv)
qed

lemma frame_count_ge:
  "d \<in> set DIRECTIONS \<Longrightarrow> length (frames d) \<le> frame_count frames"
  unfolding frame_count_def by (rule Max_ge) simp_all

lemma frame_count_pos_iff:
  "0 < frame_count frames \<longleftrightarrow> (\<exists>d\<in>set DIRECTIONS. frames d \<noteq> [])"
proof
  assume "0 < frame_count frames"
  have "frame_count frames \<in> (\<lambda>d. length (frames d)) ` set DIRECTIONS"
    unfolding frame_count_def by (rule Max_in) (simp_all add: DIRECTIONS_def)
  then obtain d where "d \<in> set DIRECTIONS" "frame_count frames = length (frames d)" by blast
  with \<open>0 < frame_count frames\<close> show "\<exists>d\<in>set DIRECTIONS. frames d \<noteq> []" by auto
next
  assume "\<exists>d\<in>set DIRECTIONS. frames d \<noteq> []"
  then obtain d where d: "d \<in> set DIRECTIONS" "frames d \<noteq> []" by blast
  then have "0 < length (frames d)" by simp
  with frame_count_ge[OF d(1), of frames] show "0 < frame_count frames" by linarith
qed

lemma composed_size:
  "width (composed fs frames) = frame_count frames * 104 \<and> height (composed fs frames) = 832"
  using fold_paste_size[of fs "cells frames (enumerate 0 DIRECTIONS)" "(no_effects, blank_sheet frames)"]
  by (simp add: composed_def blank_sheet_def Image_new_def FRAME_WIDTH_def FRAME_HEIGHT_def DIRECTIONS_def)

lemma composed_all_failed:
  assumes "\<forall>d\<in>set DIRECTIONS. \<forall>p\<in>set (frames d). decode fs p = None"
  shows "composed fs frames = blank_sheet frames"
  unfolding composed_def
proof (rule fold_paste_all_failed, rule ballI)
  fix c assume "c \<in> set (cells frames (enumerate 0 DIRECTIONS))"
  from cell_path_discovered[OF this] assms show "decode fs (snd (snd c)) = None" by blast
qed

lemma create_spritesheet_saved:
  assumes "exists fs (animation_dir fs f)"
    and "\<forall>d\<in>set DIRECTIONS. discovered fs (animation_dir fs f) d = Inr (frames d)"
    and "0 < frame_count frames"
    and "writable fs p"
  shows "create_spritesheet fs n f p out =
     (out\<lparr>stdout := stdout out @ assembly_log fs n f frames @ [Saved p],
          written := (written out)(p \<mapsto> composed fs frames)\<rparr>, Inr True)"
  using create_spritesheet_found[OF assms(1,2), of n p out] assms(3,4)
  by (simp add: save_def print_def)

lemma create_spritesheet_unwritable:
  assumes "exists fs (animation_dir fs f)"
    and "\<forall>d\<in>set DIRECTIONS. discovered fs (animation_dir fs f) d = Inr (frames d)"
    and "0 < frame_count frames"
    and "\<not> writable fs p"
  shows "create_spritesheet fs n f p out =
     (out\<lparr>stdout := stdout out @ assembly_log fs n f frames\<rparr>, Inl (WriteError p))"
  using create_spritesheet_found[OF assms(1,2), of n p out] assms(3,4)
  by (simp add: save_def)

lemma create_spritesheet_no_frames:
  assumes "exists fs (animation_dir fs f)"
    and "\<forall>d\<in>set DIRECTIONS. discovered fs (animation_dir fs f) d = Inr (frames d)"
    and "frame_count frames = 0"
  shows "create_spritesheet fs n f p out =
     (out\<lparr>stdout := stdout out @
         CreatingFrom n f # discovery_log fs (animation_dir fs f) frames DIRECTIONS @
         [NoFramesFound n]\<rparr>, Inr False)"
  using create_spritesheet_found[OF assms(1,2), of n p out] assms(3) by simp

subsection \<open>The example installation\<close>

lemma demo_fields:
  "file_dir demo = ''/g''" "abs_dir demo = ''/g''" "tree demo = map_of demo_tree"
  "decode demo = map_of demo_images" "writable demo = (\<lambda>_. True)"
  by (simp_all add: demo_def)

lemma demo_idle_dir: "animation_dir demo ''breathing-idle'' = ''/g/animations/breathing-idle''"
  by (simp add: animation_dir_def demo_fields path_join_def startswith_def endswith_def)

lemma demo_idle_exists: "exists demo (animation_dir demo ''breathing-idle'')"
  unfolding demo_idle_dir by (simp add: exists_def demo_fields demo_tree_def)

lemma demo_idle_discovered:
  "\<forall>d\<in>set DIRECTIONS. discovered demo (animation_dir demo ''breathing-idle'') d = Inr (idle_frames d)"
  unfolding demo_idle_dir
  by (simp add: DIRECTIONS_def discovered_def get_frame_files_def demo_fields
      demo_tree_def path_join_def startswith_def endswith_def exists_def listdir_def idle_frames_def)

lemma idle_frames_nonempty: "\<exists>d\<in>set DIRECTIONS. idle_frames d \<noteq> []"
  by (simp add: DIRECTIONS_def idle_frames_def)

lemma idle_frame_count: "Max ((\<lambda>d. length (idle_frames d)) ` set DIRECTIONS) = 2"
  by (simp add: DIRECTIONS_def idle_frames_def)

subsection \<open>The size of the sheet\<close>

lemma length_DIRECTIONS: "length DIRECTIONS = 8"
  by (simp add: DIRECTIONS_def)

lemma create_spritesheet_loops:
  assumes ex: "exists fs (animation_dir fs f)"
    and fr: "\<forall>d\<in>set DIRECTIONS. discovered fs (animation_dir fs f) d = Inr (frames d)"
    and pos: "0 < frame_count frames"
  shows "create_spritesheet fs n f p out =
     (case paste_rows fs (\<lambda>d. if d \<in> set DIRECTIONS then Some (frames d) else None)
             (enumerate 0 DIRECTIONS)
             (out\<lparr>stdout := stdout out @
                CreatingFrom n f # discovery_log fs (animation_dir fs f) frames DIRECTIONS @
                [CreatingSheet (frame_count frames * 104) (8 * 104) (frame_count frames)]\<rparr>,
              blank_sheet frames) of
        (out3, Inl e) \<Rightarrow> (out3, Inl e)
      | (out3, Inr sheet) \<Rightarrow> save fs sheet p out3)"
proof -
  let ?ap = "animation_dir fs f"
  let ?o0 = "print (CreatingFrom n f) out"
  let ?o1 = "?o0\<lparr>stdout := stdout ?o0 @ discovery_log fs ?ap frames DIRECTIONS\<rparr>"
  have d: "discover fs ?ap DIRECTIONS (?o0, 0, Map.empty) =
      (?o1, Inr (Max (insert 0 ((\<lambda>d. length (frames d)) ` set DIRECTIONS)),
            (\<lambda>d. if d \<in> set DIRECTIONS then Some (frames d) else None)))"
    by (rule discover_ok[OF fr])
  have mx: "Max (insert 0 ((\<lambda>d. length (frames d)) ` set DIRECTIONS)) = frame_count frames"
    unfolding frame_count_def by (rule Max_insert_0) (simp_all add: DIRECTIONS_def)
  have o2: "print (CreatingSheet (frame_count frames * FRAME_WIDTH)
                   (length DIRECTIONS * FRAME_HEIGHT) (frame_count frames)) ?o1 =
      out\<lparr>stdout := stdout out @
                CreatingFrom n f # discovery_log fs ?ap frames DIRECTIONS @
                [CreatingSheet (frame_count frames * 104) (8 * 104) (frame_count frames)]\<rparr>"
    by (simp add: print_def FRAME_WIDTH_def FRAME_HEIGHT_def length_DIRECTIONS)
  have "create_spritesheet fs n f p out =
     (case paste_rows fs (\<lambda>d. if d \<in> set DIRECTIONS then Some (frames d) else None)
             (enumerate 0 DIRECTIONS)
             (print (CreatingSheet (frame_count frames * FRAME_WIDTH)
                   (length DIRECTIONS * FRAME_HEIGHT) (frame_count frames)) ?o1,
              blank_sheet frames) of
        (out3, Inl e) \<Rightarrow> (out3, Inl e)
      | (out3, Inr sheet) \<Rightarrow> save fs sheet p out3)"
    unfolding create_spritesheet_def Let_def d prod.case sum.case mx blank_sheet_def[symmetric]
    using ex pos by simp
  then show ?thesis unfolding o2 .
qed

lemma paste_rows_DIRECTIONS:
  "paste_rows fs (\<lambda>d. if d \<in> set DIRECTIONS then Some (frames d) else None)
      (enumerate 0 DIRECTIONS) (out, s) =
     (fst (fold (paste_cell fs) (cells frames (enumerate 0 DIRECTIONS)) (out, s)),
      Inr (snd (fold (paste_cell fs) (cells frames (enumerate 0 DIRECTIONS)) (out, s))))"
  by (rule paste_rows_cells) (auto simp: in_set_enumerate_eq)

lemma blank_sheet_facts:
  "width (blank_sheet frames) = Max ((\<lambda>d. length (frames d)) ` set DIRECTIONS) * 104"
  "height (blank_sheet frames) = 832"
  "px (blank_sheet frames) xy = (0, 0, 0, 0)"
  by (simp_all add: blank_sheet_def Image_new_def frame_count_def FRAME_WIDTH_def FRAME_HEIGHT_def
      length_DIRECTIONS)

text \<open>
  C3. For an animation whose folder exists and whose eight directions are discovered with
  at least one frame in at least one of them, the sheet that \<open>create_spritesheet\<close>
  allocates and hands to its paste loops is \<open>Image_new\<close> of width (largest frame count of
  the eight directions) times 104 and height 8 times 104 = 832, every pixel of which is
  \<open>(0, 0, 0, 0)\<close>; the loops return a sheet of the same size, and that sheet is what is
  saved when the output can be written.
\<close>

theorem sheet_allocation:
  assumes ex: "exists fs (animation_dir fs f)"
    and fr: "\<forall>d\<in>set DIRECTIONS. discovered fs (animation_dir fs f) d = Inr (frames d)"
    and ne: "\<exists>d\<in>set DIRECTIONS. frames d \<noteq> []"
  shows "frame_count frames = Max ((\<lambda>d. length (frames d)) ` set DIRECTIONS) \<and>
     blank_sheet frames = Image_new (frame_count frames * 104) (8 * 104) \<and>
     width (blank_sheet frames) = frame_count frames * 104 \<and>
     height (blank_sheet frames) = 832 \<and>
     (\<forall>x y. px (blank_sheet frames) (x, y) = (0, 0, 0, 0)) \<and>
     create_spritesheet fs n f p out =
       (case paste_rows fs (\<lambda>d. if d \<in> set DIRECTIONS then Some (frames d) else None)
               (enumerate 0 DIRECTIONS)
               (out\<lparr>stdout := stdout out @
                  CreatingFrom n f # discovery_log fs (animation_dir fs f) frames DIRECTIONS @
                  [CreatingSheet (frame_count frames * 104) (8 * 104) (frame_count frames)]\<rparr>,
                blank_sheet frames) of
          (out3, Inl e) \<Rightarrow> (out3, Inl e)
        | (out3, Inr sheet) \<Rightarrow> save fs sheet p out3) \<and>
     (\<exists>out3 sheet.
        paste_rows fs (\<lambda>d. if d \<in> set DIRECTIONS then Some (frames d) else None)
          (enumerate 0 DIRECTIONS)
          (out\<lparr>stdout := stdout out @
             CreatingFrom n f # discovery_log fs (animation_dir fs f) frames DIRECTIONS @
             [CreatingSheet (frame_count frames * 104) (8 * 104) (frame_count frames)]\<rparr>,
           blank_sheet frames) = (out3, Inr sheet) \<and>
        width sheet = frame_count frames * 104 \<and>
        height sheet = 832 \<and>
        (writable fs p \<longrightarrow> written (fst (create_spritesheet fs n f p out)) p = Some sheet))"
proof -
  have pos: "0 < frame_count frames" using ne by (simp add: frame_count_pos_iff)
  let ?df = "\<lambda>d. if d \<in> set DIRECTIONS then Some (frames d) else None"
  let ?out2 = "out\<lparr>stdout := stdout out @
             CreatingFrom n f # discovery_log fs (animation_dir fs f) frames DIRECTIONS @
             [CreatingSheet (frame_count frames * 104) (8 * 104) (frame_count frames)]\<rparr>"
  have c1: "frame_count frames = Max ((\<lambda>d. length (frames d)) ` set DIRECTIONS)"
    by (simp add: frame_count_def)
  have c2: "blank_sheet frames = Image_new (frame_count frames * 104) (8 * 104)"
    by (simp add: blank_sheet_def FRAME_WIDTH_def FRAME_HEIGHT_def length_DIRECTIONS)
  have c3: "width (blank_sheet frames) = frame_count frames * 104"
    "height (blank_sheet frames) = 832" "\<forall>x y. px (blank_sheet frames) (x, y) = (0, 0, 0, 0)"
    by (simp_all add: c2 Image_new_def)
  have cs: "create_spritesheet fs n f p out =
     (case paste_rows fs ?df (enumerate 0 DIRECTIONS) (?out2, blank_sheet frames) of
        (out3, Inl e) \<Rightarrow> (out3, Inl e)
      | (out3, Inr sheet) \<Rightarrow> save fs sheet p out3)"
    by (rule create_spritesheet_loops[OF ex fr pos])
  let ?r = "fold (paste_cell fs) (cells frames (enumerate 0 DIRECTIONS)) (?out2, blank_sheet frames)"
  have pr: "paste_rows fs ?df (enumerate 0 DIRECTIONS) (?out2, blank_sheet frames) =
      (fst ?r, Inr (snd ?r))"
    by (rule paste_rows_DIRECTIONS)
  have sz: "width (snd ?r) = frame_count frames * 104" "height (snd ?r) = 832"
    using fold_paste_size[of fs "cells frames (enumerate 0 DIRECTIONS)" "(?out2, blank_sheet frames)"]
      c3 by simp_all
  have wr: "writable fs p \<longrightarrow> written (fst (create_spritesheet fs n f p out)) p = Some (snd ?r)"
    unfolding cs pr by (simp add: save_def print_def)
  have c5: "\<exists>out3 sheet.
        paste_rows fs ?df (enumerate 0 DIRECTIONS) (?out2, blank_sheet frames) = (out3, Inr sheet) \<and>
        width sheet = frame_count frames * 104 \<and> height sheet = 832 \<and>
        (writable fs p \<longrightarrow> written (fst (create_spritesheet fs n f p out)) p = Some sheet)"
    using pr sz wr by (intro exI[of _ "fst ?r"] exI[of _ "snd ?r"]) simp
  show ?thesis using c1 c2 c3 cs c5 by blast
qed

theorem sheet_allocation_witness:
  "exists demo (animation_dir demo ''breathing-idle'') \<and>
   map (discovered demo (animation_dir demo ''breathing-idle'')) DIRECTIONS =
     map (\<lambda>d. Inr (idle_frames d)) DIRECTIONS \<and>
   idle_frames ''south'' \<noteq> [] \<and>
   writable demo ''/g/spritesheets/idle.png'' \<and>
   frame_count idle_frames = 2 \<and>
   blank_sheet idle_frames = Image_new 208 832 \<and>
   (\<exists>sheet. written (fst (create_spritesheet demo ''idle'' ''breathing-idle''
                 ''/g/spritesheets/idle.png'' no_effects)) ''/g/spritesheets/idle.png'' = Some sheet \<and>
      width sheet = 208 \<and> height sheet = 832)"
proof -
  have w: "writable demo ''/g/spritesheets/idle.png''" by (simp add: demo_fields)
  have m: "map (discovered demo (animation_dir demo ''breathing-idle'')) DIRECTIONS =
     map (\<lambda>d. Inr (idle_frames d)) DIRECTIONS"
    using demo_idle_discovered by simp
  have s: "idle_frames ''south'' \<noteq> []" by (simp add: idle_frames_def)
  have c: "frame_count idle_frames = 2" using idle_frame_count by (simp add: frame_count_def)
  note t = sheet_allocation[OF demo_idle_exists demo_idle_discovered idle_frames_nonempty,
      of "''idle''" "''/g/spritesheets/idle.png''" no_effects, unfolded c]
  have t2: "blank_sheet idle_frames = Image_new 208 832"
    using conjunct1[OF conjunct2[OF t]] by simp
  have t7: "\<exists>sheet. written (fst (create_spritesheet demo ''idle'' ''breathing-idle''
                 ''/g/spritesheets/idle.png'' no_effects)) ''/g/spritesheets/idle.png'' = Some sheet \<and>
      width sheet = 208 \<and> height sheet = 832"
    using conjunct2[OF conjunct2[OF conjunct2[OF conjunct2[OF conjunct2[OF conjunct2[OF t]]]]]] w
    by auto
  show ?thesis using demo_idle_exists m s w c t2 t7 by blast
qed

subsection \<open>What a run prints and saves, and what its result depends on\<close>

lemma quiet_refl: "quiet out out"
  by (simp add: quiet_def)

lemma quiet_trans: "quiet a b \<Longrightarrow> quiet b c \<Longrightarrow> quiet a c"
  by (auto simp: quiet_def)

lemma quiet_print: "\<not> is_summary m \<Longrightarrow> quiet out (print m out)"
  by (simp add: quiet_def print_def)

lemma quiet_get_frame_files: "quiet out (fst (get_frame_files fs ap d out))"
  by (simp add: get_frame_files_def Let_def quiet_refl quiet_print split: sum.splits)

lemma quiet_discover: "quiet out (fst (discover fs ap ds (out, m, df)))"
proof (induction ds arbitrary: out m df)
  case Nil show ?case by (simp add: quiet_refl)
next
  case (Cons d ds)
  obtain o1 r1 where g: "get_frame_files fs ap d out = (o1, r1)" by (cases "get_frame_files fs ap d out")
  have q1: "quiet out o1" using quiet_get_frame_files[of out fs ap d] g by simp
  show ?case
  proof (cases r1)
    case (Inl e) then show ?thesis using g q1 by simp
  next
    case (Inr fr)
    have "quiet o1 (print (FrameCount d (length fr)) o1)" by (rule quiet_print) simp
    with q1 have "quiet out (print (FrameCount d (length fr)) o1)" by (rule quiet_trans)
    from quiet_trans[OF this Cons.IH[of "print (FrameCount d (length fr)) o1" "max m (length fr)" "df(d \<mapsto> fr)"]]
    have "quiet out (fst (discover fs ap ds
       (print (FrameCount d (length fr)) o1, max m (length fr), df(d \<mapsto> fr))))" .
    moreover have "discover fs ap (d # ds) (out, m, df) = discover fs ap ds
       (print (FrameCount d (length fr)) o1, max m (length fr), df(d \<mapsto> fr))"
      using g Inr by simp
    ultimately show ?thesis by simp
  qed
qed

lemma quiet_fold_paste_cell: "quiet out (fst (fold (paste_cell fs) cs (out, s)))"
  unfolding fold_paste_effects by (simp add: quiet_def filter_empty_conv image_iff)

lemma quiet_fold_paste_frame:
  "quiet out (fst (fold (paste_frame fs row) xs (out, s)))"
proof -
  have "fold (paste_frame fs row) xs (out, s)
      = fold (paste_cell fs) (map (\<lambda>(col, p). (row, col, p)) xs) (out, s)"
    by (simp add: fold_map comp_def paste_cell_def case_prod_unfold)
  then show ?thesis by (simp add: quiet_fold_paste_cell)
qed

lemma quiet_paste_rows: "quiet out (fst (paste_rows fs df rows (out, s)))"
proof (induction rows arbitrary: out s)
  case Nil show ?case by (simp add: quiet_refl)
next
  case (Cons rd rows)
  obtain row d where rd: "rd = (row, d)" by (cases rd)
  show ?case
  proof (cases "df d")
    case None then show ?thesis by (simp add: rd quiet_refl)
  next
    case (Some fr)
    obtain o1 s1 where a: "fold (paste_frame fs row) (enumerate 0 fr) (out, s) = (o1, s1)"
      by (cases "fold (paste_frame fs row) (enumerate 0 fr) (out, s)")
    have "quiet out o1" using quiet_fold_paste_frame[of out fs row "enumerate 0 fr" s] a by simp
    from quiet_trans[OF this Cons.IH[of o1 s1]] show ?thesis using a Some by (simp add: rd)
  qed
qed

lemma discover_result_indep:
  "snd (discover fs ap ds (out, m, df)) = snd (discover fs ap ds (out', m, df))"
proof (induction ds arbitrary: out out' m df)
  case Nil show ?case by simp
next
  case (Cons d ds)
  obtain o1 r1 where g: "get_frame_files fs ap d out = (o1, r1)" by (cases "get_frame_files fs ap d out")
  obtain o2 r2 where g': "get_frame_files fs ap d out' = (o2, r2)" by (cases "get_frame_files fs ap d out'")
  have "r1 = r2" using get_frame_files_result[of fs ap d out] get_frame_files_result[of fs ap d out'] g g'
    by simp
  show ?case
  proof (cases r1)
    case (Inl e)
    then show ?thesis using g g' \<open>r1 = r2\<close> by simp
  next
    case (Inr fr)
    have e1: "discover fs ap (d # ds) (out, m, df) = discover fs ap ds
        (print (FrameCount d (length fr)) o1, max m (length fr), df(d \<mapsto> fr))"
      using g Inr by simp
    have e2: "discover fs ap (d # ds) (out', m, df) = discover fs ap ds
        (print (FrameCount d (length fr)) o2, max m (length fr), df(d \<mapsto> fr))"
      using g' Inr \<open>r1 = r2\<close> by simp
    show ?thesis unfolding e1 e2 by (rule Cons.IH)
  qed
qed

lemma fold_paste_frame_sheet_indep:
  "snd (fold (paste_frame fs row) xs (out, s)) = snd (fold (paste_frame fs row) xs (out', s))"
proof -
  have "\<And>e. fold (paste_frame fs row) xs (e, s)
      = fold (paste_cell fs) (map (\<lambda>(col, p). (row, col, p)) xs) (e, s)"
    by (simp add: fold_map comp_def paste_cell_def case_prod_unfold)
  then show ?thesis using fold_paste_sheet_indep by simp
qed

lemma paste_rows_result_indep:
  "snd (paste_rows fs df rows (out, s)) = snd (paste_rows fs df rows (out', s))"
proof (induction rows arbitrary: out out' s)
  case Nil show ?case by simp
next
  case (Cons rd rows)
  obtain row d where rd: "rd = (row, d)" by (cases rd)
  show ?case
  proof (cases "df d")
    case None then show ?thesis by (simp add: rd)
  next
    case (Some fr)
    obtain o1 s1 where a: "fold (paste_frame fs row) (enumerate 0 fr) (out, s) = (o1, s1)"
      by (cases "fold (paste_frame fs row) (enumerate 0 fr) (out, s)")
    obtain o2 s2 where b: "fold (paste_frame fs row) (enumerate 0 fr) (out', s) = (o2, s2)"
      by (cases "fold (paste_frame fs row) (enumerate 0 fr) (out', s)")
    have "s1 = s2" using fold_paste_frame_sheet_indep[of fs row "enumerate 0 fr" out s out'] a b by simp
    then show ?thesis using a b Some Cons.IH[of o1 s1 o2] by (simp add: rd)
  qed
qed

lemma create_spritesheet_result_indep:
  "snd (create_spritesheet fs n f p out) = snd (create_spritesheet fs n f p out')"
proof (cases "exists fs (animation_dir fs f)")
  case False then show ?thesis by (simp add: create_spritesheet_def)
next
  case True
  let ?ap = "animation_dir fs f"
  obtain o1 r1 where d: "discover fs ?ap DIRECTIONS (print (CreatingFrom n f) out, 0, Map.empty) = (o1, r1)"
    by (cases "discover fs ?ap DIRECTIONS (print (CreatingFrom n f) out, 0, Map.empty)")
  obtain o1' r1' where d': "discover fs ?ap DIRECTIONS (print (CreatingFrom n f) out', 0, Map.empty) = (o1', r1')"
    by (cases "discover fs ?ap DIRECTIONS (print (CreatingFrom n f) out', 0, Map.empty)")
  have r: "r1' = r1"
    using discover_result_indep[of fs ?ap DIRECTIONS "print (CreatingFrom n f) out" 0 Map.empty
        "print (CreatingFrom n f) out'"] d d' by simp
  show ?thesis
  proof (cases r1)
    case (Inl e) then show ?thesis using True d d' r by (simp add: create_spritesheet_def)
  next
    case (Inr md)
    obtain mx df where md: "md = (mx, df)" by (cases md)
    show ?thesis
    proof (cases "mx = 0")
      case True
      then show ?thesis using \<open>exists fs ?ap\<close> d d' r Inr md by (simp add: create_spritesheet_def)
    next
      case False
      let ?s = "Image_new (mx * FRAME_WIDTH) (length DIRECTIONS * FRAME_HEIGHT)"
      let ?m = "CreatingSheet (mx * FRAME_WIDTH) (length DIRECTIONS * FRAME_HEIGHT) mx"
      obtain o3 r3 where p: "paste_rows fs df (enumerate 0 DIRECTIONS) (print ?m o1, ?s) = (o3, r3)"
        by (cases "paste_rows fs df (enumerate 0 DIRECTIONS) (print ?m o1, ?s)")
      obtain o3' r3' where p': "paste_rows fs df (enumerate 0 DIRECTIONS) (print ?m o1', ?s) = (o3', r3')"
        by (cases "paste_rows fs df (enumerate 0 DIRECTIONS) (print ?m o1', ?s)")
      have r3: "r3' = r3"
        using paste_rows_result_indep[of fs df "enumerate 0 DIRECTIONS" "print ?m o1" ?s "print ?m o1'"] p p'
        by simp
      have a: "create_spritesheet fs n f p out = (case r3 of Inl e \<Rightarrow> (o3, Inl e) | Inr sheet \<Rightarrow> save fs sheet p o3)"
        using \<open>exists fs ?ap\<close> d Inr md False p by (simp add: create_spritesheet_def Let_def)
      have b: "create_spritesheet fs n f p out' = (case r3 of Inl e \<Rightarrow> (o3', Inl e) | Inr sheet \<Rightarrow> save fs sheet p o3')"
        using \<open>exists fs ?ap\<close> d' r Inr md False p' r3 by (simp add: create_spritesheet_def Let_def)
      show ?thesis unfolding a b by (cases r3) (simp_all add: save_def)
    qed
  qed
qed

lemma create_spritesheet_effects:
  assumes "create_spritesheet fs n f p out = (out', r)"
  shows "(\<exists>msgs. stdout out' = stdout out @ msgs \<and> filter is_summary msgs = []) \<and>
         (if r = Inr True then \<exists>sheet. written out' = (written out)(p \<mapsto> sheet)
          else written out' = written out)"
proof (cases "exists fs (animation_dir fs f)")
  case False
  then have "out' = print (AnimationFolderNotFound (animation_dir fs f)) out" "r = Inr False"
    using assms by (simp_all add: create_spritesheet_def)
  then show ?thesis by (simp add: print_def)
next
  case True
  let ?ap = "animation_dir fs f"
  let ?o0 = "print (CreatingFrom n f) out"
  obtain o1 r1 where d: "discover fs ?ap DIRECTIONS (?o0, 0, Map.empty) = (o1, r1)"
    by (cases "discover fs ?ap DIRECTIONS (?o0, 0, Map.empty)")
  have "quiet out ?o0" by (rule quiet_print) simp
  moreover have "quiet ?o0 o1" using quiet_discover[of ?o0 fs ?ap DIRECTIONS 0 Map.empty] d by simp
  ultimately have q1: "quiet out o1" by (rule quiet_trans)
  show ?thesis
  proof (cases r1)
    case (Inl e)
    then have "out' = o1" "r = Inl e" using True d assms by (simp_all add: create_spritesheet_def)
    then show ?thesis using q1 by (simp add: quiet_def)
  next
    case (Inr md)
    obtain mx df where md: "md = (mx, df)" by (cases md)
    show ?thesis
    proof (cases "mx = 0")
      case True
      then have e: "out' = print (NoFramesFound n) o1" "r = Inr False"
        using \<open>exists fs ?ap\<close> d Inr md assms by (simp_all add: create_spritesheet_def)
      have "quiet o1 out'" unfolding e by (rule quiet_print) simp
      with q1 have "quiet out out'" by (rule quiet_trans)
      then show ?thesis using e by (simp add: quiet_def)
    next
      case False
      let ?s = "Image_new (mx * FRAME_WIDTH) (length DIRECTIONS * FRAME_HEIGHT)"
      let ?m = "CreatingSheet (mx * FRAME_WIDTH) (length DIRECTIONS * FRAME_HEIGHT) mx"
      obtain o3 r3 where p: "paste_rows fs df (enumerate 0 DIRECTIONS) (print ?m o1, ?s) = (o3, r3)"
        by (cases "paste_rows fs df (enumerate 0 DIRECTIONS) (print ?m o1, ?s)")
      have "quiet o1 (print ?m o1)" by (rule quiet_print) simp
      moreover have "quiet (print ?m o1) o3"
        using quiet_paste_rows[of "print ?m o1" fs df "enumerate 0 DIRECTIONS" ?s] p by simp
      ultimately have "quiet o1 o3" by (rule quiet_trans)
      with q1 have q3: "quiet out o3" by (rule quiet_trans)
      have a: "(out', r) = (case r3 of Inl e \<Rightarrow> (o3, Inl e) | Inr sheet \<Rightarrow> save fs sheet p o3)"
        using \<open>exists fs ?ap\<close> d Inr md False p assms by (simp add: create_spritesheet_def Let_def)
      show ?thesis
      proof (cases r3)
        case (Inl e) then show ?thesis using a q3 by (simp add: quiet_def)
      next
        case (Inr sheet)
        show ?thesis
        proof (cases "writable fs p")
          case True
          then have e: "out' = print (Saved p) (o3\<lparr>written := (written o3)(p \<mapsto> sheet)\<rparr>)" "r = Inr True"
            using a Inr by (simp_all add: save_def)
          from q3 obtain msgs where m: "stdout o3 = stdout out @ msgs" "filter is_summary msgs = []"
            "written o3 = written out" by (auto simp: quiet_def)
          have s1: "stdout out' = stdout out @ (msgs @ [Saved p])" using e m by (simp add: print_def)
          have s2: "filter is_summary (msgs @ [Saved p]) = []" using m by simp
          have s3: "written out' = (written out)(p \<mapsto> sheet)" using e m by (simp add: print_def)
          have "\<exists>msgs. stdout out' = stdout out @ msgs \<and> filter is_summary msgs = []"
            using s1 s2 by (intro exI[of _ "msgs @ [Saved p]"]) simp
          moreover have "\<exists>sheet. written out' = (written out)(p \<mapsto> sheet)"
            using s3 by (intro exI[of _ sheet])
          ultimately show ?thesis using e(2) by simp
        next
          case False
          then have "out' = o3" "r = Inl (WriteError p)" using a Inr by (simp_all add: save_def)
          then show ?thesis using q3 by (simp add: quiet_def)
        qed
      qed
    qed
  qed
qed

subsection \<open>The batch loop\<close>

lemma create_spritesheet_outcome:
  "snd (create_spritesheet fs n f (path_join dir (n @ ''.png'')) out) = outcome fs dir (n, f)"
  unfolding outcome_def by (simp add: create_spritesheet_result_indep[of fs n f _ out no_effects])

lemma main_loop_step:
  "main_loop fs dir ((n, f) # rest) (out, c) =
     (case outcome fs dir (n, f) of
        Inl e \<Rightarrow> (fst (create_spritesheet fs n f (path_join dir (n @ ''.png'')) out), Inl e)
      | Inr ok \<Rightarrow> main_loop fs dir rest
          (fst (create_spritesheet fs n f (path_join dir (n @ ''.png'')) out),
           if ok then c + 1 else c))"
proof -
  obtain o1 r1 where cs: "create_spritesheet fs n f (path_join dir (n @ ''.png'')) out = (o1, r1)"
    by (cases "create_spritesheet fs n f (path_join dir (n @ ''.png'')) out")
  have "r1 = outcome fs dir (n, f)" using create_spritesheet_outcome[of fs n f dir out] cs by simp
  then show ?thesis using cs by (simp split: sum.splits)
qed

lemma main_loop_append:
  "main_loop fs dir (xs @ ys) (out, c) =
     (case main_loop fs dir xs (out, c) of
        (o1, Inl e) \<Rightarrow> (o1, Inl e)
      | (o1, Inr c1) \<Rightarrow> main_loop fs dir ys (o1, c1))"
proof (induction xs arbitrary: out c)
  case Nil show ?case by simp
next
  case (Cons a xs)
  obtain n f where a: "a = (n, f)" by (cases a)
  show ?case
    unfolding a append_Cons main_loop_step
    by (cases "outcome fs dir (n, f)") (simp_all add: Cons.IH)
qed

lemma main_loop_returns:
  "\<forall>a\<in>set anims. \<not> raises fs dir a \<Longrightarrow>
   snd (main_loop fs dir anims (out, c)) = Inr (c + length (filter (succeeds fs dir) anims))"
proof (induction anims arbitrary: out c)
  case Nil show ?case by simp
next
  case (Cons a anims)
  obtain n f where a: "a = (n, f)" by (cases a)
  from Cons.prems obtain ok where ok: "outcome fs dir (n, f) = Inr ok"
    by (cases "outcome fs dir (n, f)") (auto simp: raises_def a)
  have "\<forall>a\<in>set anims. \<not> raises fs dir a" using Cons.prems by simp
  from Cons.IH[OF this] show ?case
    unfolding a main_loop_step ok by (cases ok) (simp_all add: succeeds_def ok)
qed

lemma main_loop_quiet_stdout:
  "\<exists>msgs. stdout (fst (main_loop fs dir anims (out, c))) = stdout out @ msgs \<and>
          filter is_summary msgs = []"
proof (induction anims arbitrary: out c)
  case Nil show ?case by simp
next
  case (Cons a anims)
  obtain n f where a: "a = (n, f)" by (cases a)
  let ?o1 = "fst (create_spritesheet fs n f (path_join dir (n @ ''.png'')) out)"
  from create_spritesheet_effects[of fs n f "path_join dir (n @ ''.png'')" out ?o1
      "snd (create_spritesheet fs n f (path_join dir (n @ ''.png'')) out)"]
  obtain m1 where m1: "stdout ?o1 = stdout out @ m1" "filter is_summary m1 = []" by auto
  show ?case
  proof (cases "outcome fs dir (n, f)")
    case (Inl e)
    then show ?thesis unfolding a main_loop_step using m1 by simp
  next
    case (Inr ok)
    from Cons.IH[of ?o1 "if ok then c + 1 else c"]
    obtain m2 where m2: "stdout (fst (main_loop fs dir anims (?o1, if ok then c + 1 else c)))
        = stdout ?o1 @ m2" "filter is_summary m2 = []" by blast
    have "stdout (fst (main_loop fs dir (a # anims) (out, c))) = stdout out @ (m1 @ m2)"
      unfolding a main_loop_step Inr using m1 m2 by simp
    moreover have "filter is_summary (m1 @ m2) = []" using m1 m2 by simp
    ultimately show ?thesis by blast
  qed
qed

lemma main_loop_raises:
  assumes "\<forall>a\<in>set pre. \<not> raises fs dir a" and "outcome fs dir (n, f) = Inl e"
  shows "main_loop fs dir (pre @ (n, f) # post) (out, c) =
     (fst (create_spritesheet fs n f (path_join dir (n @ ''.png''))
             (fst (main_loop fs dir pre (out, c)))), Inl e)"
proof -
  obtain o1 r1 where p: "main_loop fs dir pre (out, c) = (o1, r1)"
    by (cases "main_loop fs dir pre (out, c)")
  from main_loop_returns[OF assms(1), of out c] p obtain c1 where "r1 = Inr c1" by simp
  then show ?thesis
    unfolding main_loop_append p main_loop_step assms(2) by simp
qed

subsection \<open>An animation without frames\<close>

lemma discovered_same_tree:
  assumes "tree fs' = tree fs"
  shows "discovered fs' ap d = discovered fs ap d"
proof -
  have a: "listdir fs' = listdir fs" using assms by (intro ext) (simp add: listdir_def)
  have b: "exists fs' = exists fs" using assms by (intro ext) (simp add: exists_def)
  show ?thesis unfolding discovered_def get_frame_files_def a b ..
qed

lemma demo_empty_dir: "animation_dir demo ''empty'' = ''/g/animations/empty''"
  by (simp add: animation_dir_def demo_fields path_join_def startswith_def endswith_def)

lemma demo_empty_exists: "exists demo (animation_dir demo ''empty'')"
  unfolding demo_empty_dir by (simp add: exists_def demo_fields demo_tree_def)

lemma demo_empty_discovered:
  "\<forall>d\<in>set DIRECTIONS. discovered demo (animation_dir demo ''empty'') d = Inr (no_frames d)"
  unfolding demo_empty_dir
  by (simp add: DIRECTIONS_def discovered_def get_frame_files_def demo_fields
      demo_tree_def path_join_def startswith_def endswith_def exists_def listdir_def no_frames_def)

lemma no_frames_count: "Max ((\<lambda>d. length (no_frames d)) ` set DIRECTIONS) = 0"
  by (simp add: no_frames_def DIRECTIONS_def)

text \<open>
  C4. For an animation whose folder exists and whose eight directions are all discovered
  with no frame (the largest frame count is zero), \<open>create_spritesheet\<close> prints the
  no-frames line and returns \<^verbatim>\<open>False\<close>; it raises nothing and saves nothing (the saved files
  are those from before the call), and the loop of \<open>main\<close> goes on with the remaining
  animations, the success count unchanged.
\<close>

theorem no_frames_found:
  assumes ex: "exists fs (animation_dir fs f)"
    and fr: "\<forall>d\<in>set DIRECTIONS. discovered fs (animation_dir fs f) d = Inr (frames d)"
    and zero: "Max ((\<lambda>d. length (frames d)) ` set DIRECTIONS) = 0"
  shows "create_spritesheet fs n f p out =
           (out\<lparr>stdout := stdout out @
              CreatingFrom n f # discovery_log fs (animation_dir fs f) frames DIRECTIONS @
              [NoFramesFound n]\<rparr>, Inr False) \<and>
         written (fst (create_spritesheet fs n f p out)) = written out \<and>
         main_loop fs dir ((n, f) # rest) (out, c) =
           main_loop fs dir rest
             (fst (create_spritesheet fs n f (path_join dir (n @ ''.png'')) out), c)"
proof -
  have z: "frame_count frames = 0" using zero by (simp add: frame_count_def)
  have a: "\<And>p. create_spritesheet fs n f p out =
           (out\<lparr>stdout := stdout out @
              CreatingFrom n f # discovery_log fs (animation_dir fs f) frames DIRECTIONS @
              [NoFramesFound n]\<rparr>, Inr False)"
    by (rule create_spritesheet_no_frames[OF ex fr z])
  have "outcome fs dir (n, f) = Inr False"
    using create_spritesheet_outcome[of fs n f dir out] a by simp
  then have "main_loop fs dir ((n, f) # rest) (out, c) =
           main_loop fs dir rest
             (fst (create_spritesheet fs n f (path_join dir (n @ ''.png'')) out), c)"
    unfolding main_loop_step by simp
  then show ?thesis using a by simp
qed

theorem no_frames_found_witness:
  "exists demo (animation_dir demo ''empty'') \<and>
   map (discovered demo (animation_dir demo ''empty'')) DIRECTIONS =
     map (\<lambda>d. Inr (no_frames d)) DIRECTIONS \<and>
   Max ((\<lambda>d. length (no_frames d)) ` set DIRECTIONS) = 0 \<and>
   snd (create_spritesheet demo ''cast'' ''empty'' ''/g/spritesheets/cast.png'' no_effects) = Inr False \<and>
   written (fst (create_spritesheet demo ''cast'' ''empty'' ''/g/spritesheets/cast.png'' no_effects))
     = written no_effects \<and>
   main_loop demo ''/g/spritesheets'' [(''cast'', ''empty'')] (no_effects, 0) =
     (fst (create_spritesheet demo ''cast'' ''empty''
             (path_join ''/g/spritesheets'' (''cast'' @ ''.png'')) no_effects), Inr 0)"
proof -
  have m: "map (discovered demo (animation_dir demo ''empty'')) DIRECTIONS =
     map (\<lambda>d. Inr (no_frames d)) DIRECTIONS"
    using demo_empty_discovered by simp
  from no_frames_found[OF demo_empty_exists demo_empty_discovered no_frames_count,
      of "''cast''" "''/g/spritesheets/cast.png''" no_effects "''/g/spritesheets''" "[]" 0]
  show ?thesis using m demo_empty_exists no_frames_count by simp
qed

subsection \<open>Frames that do not decode, and a sheet that cannot be saved\<close>

lemma animation_dir_same:
  "file_dir fs' = file_dir fs \<Longrightarrow> animation_dir fs' f = animation_dir fs f"
  by (simp add: animation_dir_def)

lemma exists_same_tree: "tree fs' = tree fs \<Longrightarrow> exists fs' p = exists fs p"
  by (simp add: exists_def)

lemma demo_undecodable_fields:
  "file_dir demo_undecodable = file_dir demo" "tree demo_undecodable = tree demo"
  "decode demo_undecodable p = None" "writable demo_undecodable p"
  by (simp_all add: demo_undecodable_def demo_fields)

lemma demo_readonly_fields:
  "file_dir demo_readonly = file_dir demo" "tree demo_readonly = tree demo"
  "abs_dir demo_readonly = ''/g''"
  "decode demo_readonly = decode demo" "\<not> writable demo_readonly p"
  by (simp_all add: demo_readonly_def demo_fields)

lemma demo_undecodable_idle:
  "exists demo_undecodable (animation_dir demo_undecodable ''breathing-idle'')"
  "\<forall>d\<in>set DIRECTIONS.
     discovered demo_undecodable (animation_dir demo_undecodable ''breathing-idle'') d =
       Inr (idle_frames d)"
  using demo_idle_exists demo_idle_discovered
  by (simp_all add: animation_dir_same[OF demo_undecodable_fields(1)]
      exists_same_tree[OF demo_undecodable_fields(2)]
      discovered_same_tree[OF demo_undecodable_fields(2)])

lemma demo_readonly_idle:
  "exists demo_readonly (animation_dir demo_readonly ''breathing-idle'')"
  "\<forall>d\<in>set DIRECTIONS.
     discovered demo_readonly (animation_dir demo_readonly ''breathing-idle'') d =
       Inr (idle_frames d)"
  using demo_idle_exists demo_idle_discovered
  by (simp_all add: animation_dir_same[OF demo_readonly_fields(1)]
      exists_same_tree[OF demo_readonly_fields(2)]
      discovered_same_tree[OF demo_readonly_fields(2)])

lemma idle_png: "path_join ''/g/spritesheets'' (''idle'' @ ''.png'') = ''/g/spritesheets/idle.png''"
  by (simp add: path_join_def startswith_def endswith_def)

text \<open>
  C9, as amended. For an animation whose folder exists, whose eight directions are
  discovered with at least one frame, and whose output path can be written,
  \<open>create_spritesheet\<close> saves the composed sheet at the output path and returns \<^verbatim>\<open>True\<close>,
  whatever the frames decode to, and the loop of \<open>main\<close> counts one more success. When
  every frame fails to decode, the sheet saved is the sheet as allocated: (largest frame
  count) times 104 wide, 832 high, every pixel \<open>(0, 0, 0, 0)\<close>.
\<close>

theorem undecodable_frames_saved:
  assumes ex: "exists fs (animation_dir fs f)"
    and fr: "\<forall>d\<in>set DIRECTIONS. discovered fs (animation_dir fs f) d = Inr (frames d)"
    and ne: "\<exists>d\<in>set DIRECTIONS. frames d \<noteq> []"
    and w: "writable fs (path_join dir (n @ ''.png''))"
  shows "create_spritesheet fs n f (path_join dir (n @ ''.png'')) out =
           (out\<lparr>stdout := stdout out @ assembly_log fs n f frames @
                               [Saved (path_join dir (n @ ''.png''))],
                written := (written out)(path_join dir (n @ ''.png'') \<mapsto> composed fs frames)\<rparr>,
            Inr True) \<and>
         main_loop fs dir ((n, f) # rest) (out, c) =
           main_loop fs dir rest
             (fst (create_spritesheet fs n f (path_join dir (n @ ''.png'')) out), c + 1) \<and>
         ((\<forall>d\<in>set DIRECTIONS. \<forall>p\<in>set (frames d). decode fs p = None) \<longrightarrow>
            written (fst (create_spritesheet fs n f (path_join dir (n @ ''.png'')) out))
              (path_join dir (n @ ''.png'')) =
              Some (Image_new (Max ((\<lambda>d. length (frames d)) ` set DIRECTIONS) * 104) (8 * 104)) \<and>
            (\<forall>x y. px (Image_new (Max ((\<lambda>d. length (frames d)) ` set DIRECTIONS) * 104) (8 * 104))
                     (x, y) = (0, 0, 0, 0)))"
proof -
  let ?p = "path_join dir (n @ ''.png'')"
  have pos: "0 < frame_count frames" using ne by (simp add: frame_count_pos_iff)
  have a: "create_spritesheet fs n f ?p out =
           (out\<lparr>stdout := stdout out @ assembly_log fs n f frames @ [Saved ?p],
                written := (written out)(?p \<mapsto> composed fs frames)\<rparr>, Inr True)"
    by (rule create_spritesheet_saved[OF ex fr pos w])
  have "outcome fs dir (n, f) = Inr True"
    using create_spritesheet_outcome[of fs n f dir out] a by simp
  then have b: "main_loop fs dir ((n, f) # rest) (out, c) =
           main_loop fs dir rest (fst (create_spritesheet fs n f ?p out), c + 1)"
    unfolding main_loop_step by simp
  have bl: "blank_sheet frames =
      Image_new (Max ((\<lambda>d. length (frames d)) ` set DIRECTIONS) * 104) (8 * 104)"
    by (simp add: blank_sheet_def frame_count_def FRAME_WIDTH_def FRAME_HEIGHT_def length_DIRECTIONS)
  have c: "(\<forall>d\<in>set DIRECTIONS. \<forall>p\<in>set (frames d). decode fs p = None) \<longrightarrow>
            written (fst (create_spritesheet fs n f ?p out)) ?p =
              Some (Image_new (Max ((\<lambda>d. length (frames d)) ` set DIRECTIONS) * 104) (8 * 104))"
    using composed_all_failed[of frames fs] by (simp add: a bl)
  have d: "\<forall>x y. px (Image_new (Max ((\<lambda>d. length (frames d)) ` set DIRECTIONS) * 104) (8 * 104))
                     (x, y) = (0, 0, 0, 0)"
    by (simp add: Image_new_def)
  show ?thesis using a b c d by blast
qed

theorem undecodable_frames_saved_witness:
  "exists demo_undecodable (animation_dir demo_undecodable ''breathing-idle'') \<and>
   map (discovered demo_undecodable (animation_dir demo_undecodable ''breathing-idle'')) DIRECTIONS =
     map (\<lambda>d. Inr (idle_frames d)) DIRECTIONS \<and>
   idle_frames ''south'' \<noteq> [] \<and>
   writable demo_undecodable (path_join ''/g/spritesheets'' (''idle'' @ ''.png'')) \<and>
   map (decode demo_undecodable) (concat (map idle_frames DIRECTIONS)) = [None, None] \<and>
   snd (create_spritesheet demo_undecodable ''idle'' ''breathing-idle''
          (path_join ''/g/spritesheets'' (''idle'' @ ''.png'')) no_effects) = Inr True \<and>
   written (fst (create_spritesheet demo_undecodable ''idle'' ''breathing-idle''
          (path_join ''/g/spritesheets'' (''idle'' @ ''.png'')) no_effects))
     (path_join ''/g/spritesheets'' (''idle'' @ ''.png'')) = Some (Image_new 208 832) \<and>
   main_loop demo_undecodable ''/g/spritesheets'' [(''idle'', ''breathing-idle'')] (no_effects, 0) =
     (fst (create_spritesheet demo_undecodable ''idle'' ''breathing-idle''
          (path_join ''/g/spritesheets'' (''idle'' @ ''.png'')) no_effects), Inr 1)"
proof -
  have m: "map (discovered demo_undecodable (animation_dir demo_undecodable ''breathing-idle'')) DIRECTIONS =
     map (\<lambda>d. Inr (idle_frames d)) DIRECTIONS"
    using demo_undecodable_idle(2) by simp
  have s: "idle_frames ''south'' \<noteq> []" by (simp add: idle_frames_def)
  have w: "writable demo_undecodable (path_join ''/g/spritesheets'' (''idle'' @ ''.png''))"
    by (rule demo_undecodable_fields)
  have f: "\<forall>d\<in>set DIRECTIONS. \<forall>p\<in>set (idle_frames d). decode demo_undecodable p = None"
    by (simp add: demo_undecodable_fields)
  have f': "map (decode demo_undecodable) (concat (map idle_frames DIRECTIONS)) = [None, None]"
    by (simp add: DIRECTIONS_def idle_frames_def demo_undecodable_fields)
  note t = undecodable_frames_saved[OF demo_undecodable_idle idle_frames_nonempty w,
      of no_effects "[]" 0, unfolded idle_frame_count]
  have t1: "snd (create_spritesheet demo_undecodable ''idle'' ''breathing-idle''
          (path_join ''/g/spritesheets'' (''idle'' @ ''.png'')) no_effects) = Inr True"
    using t by simp
  have t2: "main_loop demo_undecodable ''/g/spritesheets'' [(''idle'', ''breathing-idle'')] (no_effects, 0) =
     (fst (create_spritesheet demo_undecodable ''idle'' ''breathing-idle''
          (path_join ''/g/spritesheets'' (''idle'' @ ''.png'')) no_effects), Inr 1)"
    using conjunct1[OF conjunct2[OF t]] by simp
  have t3: "written (fst (create_spritesheet demo_undecodable ''idle'' ''breathing-idle''
          (path_join ''/g/spritesheets'' (''idle'' @ ''.png'')) no_effects))
     (path_join ''/g/spritesheets'' (''idle'' @ ''.png'')) = Some (Image_new 208 832)"
    using conjunct2[OF conjunct2[OF t]] f by simp
  show ?thesis using m s w f' demo_undecodable_idle(1) t1 t2 t3 by blast
qed

text \<open>
  The claim as stated, without the condition on the output path, fails: in the read-only
  installation the folder exists and two frames are discovered, and \<open>create_spritesheet\<close>
  raises the write error and saves nothing.
\<close>

theorem undecodable_frames_unwritable:
  "exists demo_readonly (animation_dir demo_readonly ''breathing-idle'') \<and>
   discovered demo_readonly (animation_dir demo_readonly ''breathing-idle'') ''south'' =
     Inr [''/g/animations/breathing-idle/south/frame_0.png'',
          ''/g/animations/breathing-idle/south/frame_1.png''] \<and>
   snd (create_spritesheet demo_readonly ''idle'' ''breathing-idle''
          ''/g/spritesheets/idle.png'' no_effects) = Inl (WriteError ''/g/spritesheets/idle.png'') \<and>
   written (fst (create_spritesheet demo_readonly ''idle'' ''breathing-idle''
          ''/g/spritesheets/idle.png'' no_effects)) ''/g/spritesheets/idle.png'' = None"
proof -
  have pos: "0 < frame_count idle_frames"
    using idle_frames_nonempty by (simp add: frame_count_pos_iff)
  have "south \<in> set DIRECTIONS" if "south = ''south''" for south
    using that by (simp add: DIRECTIONS_def)
  then have d: "discovered demo_readonly (animation_dir demo_readonly ''breathing-idle'') ''south'' =
     Inr (idle_frames ''south'')"
    using demo_readonly_idle(2) by blast
  have "create_spritesheet demo_readonly ''idle'' ''breathing-idle'' ''/g/spritesheets/idle.png''
          no_effects =
     (no_effects\<lparr>stdout := stdout no_effects @ assembly_log demo_readonly ''idle'' ''breathing-idle'' idle_frames\<rparr>,
      Inl (WriteError ''/g/spritesheets/idle.png''))"
    by (rule create_spritesheet_unwritable[OF demo_readonly_idle pos demo_readonly_fields(5)])
  then show ?thesis using d demo_readonly_idle(1)
    by (simp add: idle_frames_def no_effects_def)
qed

subsection \<open>The whole run\<close>

lemma main_unfold:
  "main fs out =
     (case main_loop fs (output_dir fs) ANIMATIONS (banner fs out, 0) of
        (out2, Inl e) \<Rightarrow> (out2, Inl e)
      | (out2, Inr k) \<Rightarrow>
          (out2\<lparr>stdout := stdout out2 @
              [BlankRule, Done k (length ANIMATIONS), SavedTo (output_dir fs), Rule]\<rparr>, Inr ()))"
  by (simp add: main_def Let_def output_dir_def banner_def print_def split: prod.splits sum.splits)

lemma banner_stdout:
  "stdout (banner fs out) =
     stdout out @ [Rule, Title, Rule, ScriptDirectory (abs_dir fs), OutputDirectory (output_dir fs)]"
  "written (banner fs out) = written out"
  by (simp_all add: banner_def print_def)

lemma main_completes:
  assumes "\<forall>a\<in>set ANIMATIONS. \<not> raises fs (output_dir fs) a"
  shows "snd (main fs out) = Inr () \<and>
         (\<exists>msgs. stdout (fst (main fs out)) =
            stdout out @ msgs @
            [BlankRule,
             Done (length (filter (succeeds fs (output_dir fs)) ANIMATIONS)) (length ANIMATIONS),
             SavedTo (output_dir fs), Rule])"
proof -
  let ?dir = "output_dir fs"
  obtain o2 r2 where l: "main_loop fs ?dir ANIMATIONS (banner fs out, 0) = (o2, r2)"
    by (cases "main_loop fs ?dir ANIMATIONS (banner fs out, 0)")
  have r2: "r2 = Inr (length (filter (succeeds fs ?dir) ANIMATIONS))"
    using main_loop_returns[OF assms, of "banner fs out" 0] l by simp
  from main_loop_quiet_stdout[of fs ?dir ANIMATIONS "banner fs out" 0] l
  obtain m where m: "stdout o2 = stdout (banner fs out) @ m" by auto
  have "stdout (fst (main fs out)) =
      stdout out @ ([Rule, Title, Rule, ScriptDirectory (abs_dir fs), OutputDirectory ?dir] @ m) @
      [BlankRule, Done (length (filter (succeeds fs ?dir) ANIMATIONS)) (length ANIMATIONS),
       SavedTo ?dir, Rule]"
    unfolding main_unfold l r2 by (simp add: m banner_stdout)
  moreover have "snd (main fs out) = Inr ()" unfolding main_unfold l r2 by simp
  ultimately show ?thesis by blast
qed

lemma main_raises:
  assumes "ANIMATIONS = pre @ (n, f) # post"
    and "\<forall>a\<in>set pre. \<not> raises fs (output_dir fs) a"
    and "outcome fs (output_dir fs) (n, f) = Inl e"
  shows "main fs out =
     (fst (create_spritesheet fs n f (path_join (output_dir fs) (n @ ''.png''))
             (fst (main_loop fs (output_dir fs) pre (banner fs out, 0)))), Inl e)"
  unfolding main_unfold assms(1) main_loop_raises[OF assms(2,3)] by simp

lemma main_raises_no_summary:
  assumes "snd (main fs out) = Inl e"
  shows "filter is_summary (stdout (fst (main fs out))) = filter is_summary (stdout out)"
proof -
  let ?dir = "output_dir fs"
  obtain o2 r2 where l: "main_loop fs ?dir ANIMATIONS (banner fs out, 0) = (o2, r2)"
    by (cases "main_loop fs ?dir ANIMATIONS (banner fs out, 0)")
  from main_loop_quiet_stdout[of fs ?dir ANIMATIONS "banner fs out" 0] l
  obtain m where m: "stdout o2 = stdout (banner fs out) @ m" "filter is_summary m = []" by auto
  from assms have "fst (main fs out) = o2"
    unfolding main_unfold l by (cases r2) simp_all
  then show ?thesis using m by (simp add: banner_stdout)
qed

subsection \<open>The frame files of one direction\<close>

text \<open>The first loop ends at the first direction whose listing raises.\<close>

lemma discover_raises:
  assumes "\<forall>d\<in>set pre. \<exists>fr. discovered fs ap d = Inr fr" and "discovered fs ap d = Inl e"
  shows "snd (discover fs ap (pre @ d # post) (out, m, df)) = Inl e"
  using assms(1)
proof (induction pre arbitrary: out m df)
  case Nil
  obtain o1 r1 where g: "get_frame_files fs ap d out = (o1, r1)"
    by (cases "get_frame_files fs ap d out")
  have "r1 = Inl e" using get_frame_files_result[of fs ap d out] g assms(2) by simp
  then show ?case using g by simp
next
  case (Cons a pre)
  obtain o1 r1 where g: "get_frame_files fs ap a out = (o1, r1)"
    by (cases "get_frame_files fs ap a out")
  obtain fr where "discovered fs ap a = Inr fr" using Cons.prems by auto
  then have r1: "r1 = Inr fr" using get_frame_files_result[of fs ap a out] g by simp
  have "\<forall>d\<in>set pre. \<exists>fr. discovered fs ap d = Inr fr" using Cons.prems by simp
  from Cons.IH[OF this] show ?case by (simp add: g r1)
qed

lemma demo_blocked_fields:
  "file_dir demo_blocked = ''/g''" "abs_dir demo_blocked = ''/g''"
  "tree demo_blocked =
     (map_of demo_tree)(''/g/animations/breathing-idle/north'' \<mapsto> Unlistable)"
  by (simp_all add: demo_blocked_def demo_fields)

lemma demo_blocked_idle_dir:
  "animation_dir demo_blocked ''breathing-idle'' = ''/g/animations/breathing-idle''"
  by (simp add: animation_dir_def demo_blocked_fields path_join_def startswith_def endswith_def)

lemma demo_blocked_discovered:
  "\<forall>d\<in>set [''south'', ''south-east'', ''east'', ''north-east''].
     \<exists>fr. discovered demo_blocked ''/g/animations/breathing-idle'' d = Inr fr"
  "discovered demo_blocked ''/g/animations/breathing-idle'' ''north'' =
     Inl (ListdirError ''/g/animations/breathing-idle/north'')"
  by (simp_all add: discovered_def get_frame_files_def demo_blocked_fields
      demo_tree_def path_join_def startswith_def endswith_def exists_def listdir_def)

lemma demo_blocked_discover:
  "snd (discover demo_blocked ''/g/animations/breathing-idle'' DIRECTIONS (out, 0, Map.empty)) =
     Inl (ListdirError ''/g/animations/breathing-idle/north'')"
proof -
  have d: "DIRECTIONS = [''south'', ''south-east'', ''east'', ''north-east''] @
      ''north'' # [''north-west'', ''west'', ''south-west'']"
    by (simp add: DIRECTIONS_def)
  show ?thesis unfolding d by (rule discover_raises[OF demo_blocked_discovered])
qed

text \<open>
  C7, as amended. For an animation folder \<open>ap\<close> and a direction \<open>d\<close> there are three
  cases. When nothing exists at the direction's path, \<open>get_frame_files\<close> prints the warning
  and returns the empty list, and raises nothing. When the path is a directory with entries
  \<open>names\<close>, it prints nothing and returns the paths of exactly the entries whose name starts
  with \<^verbatim>\<open>frame_\<close> and ends with \<^verbatim>\<open>.png\<close> (as a multiset: each kept entry once, nothing
  else), in ascending lexicographic order of the file names. When the path exists but
  cannot be listed (a regular file, a directory that may not be read), \<^verbatim>\<open>os.listdir\<close>
  raises, \<open>get_frame_files\<close> has no handler for it, and the call ends with that exception,
  having printed nothing.
\<close>

theorem frame_discovery:
  "(tree fs (path_join ap d) = None \<longrightarrow>
      get_frame_files fs ap d out =
        (out\<lparr>stdout := stdout out @ [DirectoryNotFound (path_join ap d)]\<rparr>, Inr [])) \<and>
   (\<forall>names. tree fs (path_join ap d) = Some (Folder names) \<longrightarrow>
      (\<exists>fnames. get_frame_files fs ap d out = (out, Inr (map (path_join (path_join ap d)) fnames)) \<and>
         sorted fnames \<and>
         mset fnames =
           filter_mset (\<lambda>f. (\<exists>r. f = ''frame_'' @ r) \<and> (\<exists>r. f = r @ ''.png'')) (mset names))) \<and>
   (tree fs (path_join ap d) = Some Unlistable \<longrightarrow>
      get_frame_files fs ap d out = (out, Inl (ListdirError (path_join ap d))))"
proof (intro conjI impI allI)
  assume "tree fs (path_join ap d) = None"
  then show "get_frame_files fs ap d out =
        (out\<lparr>stdout := stdout out @ [DirectoryNotFound (path_join ap d)]\<rparr>, Inr [])"
    by (simp add: get_frame_files_def exists_def print_def)
next
  fix names
  assume t: "tree fs (path_join ap d) = Some (Folder names)"
  let ?P = "\<lambda>f. startswith f ''frame_'' \<and> endswith f ''.png''"
  let ?fnames = "sort (filter ?P names)"
  have "get_frame_files fs ap d out = (out, Inr (map (path_join (path_join ap d)) ?fnames))"
    using t by (simp add: get_frame_files_def exists_def listdir_def)
  moreover have "sorted ?fnames" by simp
  moreover have "mset ?fnames =
      filter_mset (\<lambda>f. (\<exists>r. f = ''frame_'' @ r) \<and> (\<exists>r. f = r @ ''.png'')) (mset names)"
    by (simp add: startswith_iff endswith_iff)
  ultimately show "\<exists>fnames. get_frame_files fs ap d out = (out, Inr (map (path_join (path_join ap d)) fnames)) \<and>
         sorted fnames \<and>
         mset fnames =
           filter_mset (\<lambda>f. (\<exists>r. f = ''frame_'' @ r) \<and> (\<exists>r. f = r @ ''.png'')) (mset names)"
    by blast
next
  assume "tree fs (path_join ap d) = Some Unlistable"
  then show "get_frame_files fs ap d out = (out, Inl (ListdirError (path_join ap d)))"
    by (simp add: get_frame_files_def exists_def listdir_def)
qed

theorem frame_discovery_witness:
  "tree demo (path_join ''/g/animations/breathing-idle'' ''north'') = None \<and>
   get_frame_files demo ''/g/animations/breathing-idle'' ''north'' no_effects =
     (no_effects\<lparr>stdout := stdout no_effects @
        [DirectoryNotFound (path_join ''/g/animations/breathing-idle'' ''north'')]\<rparr>, Inr []) \<and>
   tree demo (path_join ''/g/animations/breathing-idle'' ''south'') =
     Some (Folder [''frame_1.png'', ''notes.txt'', ''frame_0.png'']) \<and>
   (\<exists>fnames. get_frame_files demo ''/g/animations/breathing-idle'' ''south'' no_effects =
        (no_effects, Inr (map (path_join (path_join ''/g/animations/breathing-idle'' ''south'')) fnames)) \<and>
      sorted fnames \<and>
      mset fnames = filter_mset (\<lambda>f. (\<exists>r. f = ''frame_'' @ r) \<and> (\<exists>r. f = r @ ''.png''))
                      (mset [''frame_1.png'', ''notes.txt'', ''frame_0.png''])) \<and>
   snd (get_frame_files demo ''/g/animations/breathing-idle'' ''south'' no_effects) =
     Inr [''/g/animations/breathing-idle/south/frame_0.png'',
          ''/g/animations/breathing-idle/south/frame_1.png''] \<and>
   tree demo_blocked (path_join ''/g/animations/breathing-idle'' ''north'') = Some Unlistable \<and>
   get_frame_files demo_blocked ''/g/animations/breathing-idle'' ''north'' (print Rule no_effects) =
     (print Rule no_effects,
      Inl (ListdirError (path_join ''/g/animations/breathing-idle'' ''north'')))"
proof -
  have n: "tree demo (path_join ''/g/animations/breathing-idle'' ''north'') = None"
    by (simp add: demo_join demo_def demo_tree_def)
  have s: "tree demo (path_join ''/g/animations/breathing-idle'' ''south'') =
     Some (Folder [''frame_1.png'', ''notes.txt'', ''frame_0.png''])"
    by (simp add: demo_join demo_def demo_tree_def)
  have e: "snd (get_frame_files demo ''/g/animations/breathing-idle'' ''south'' no_effects) =
     Inr [''/g/animations/breathing-idle/south/frame_0.png'',
          ''/g/animations/breathing-idle/south/frame_1.png'']"
    by (simp add: get_frame_files_def demo_def demo_tree_def path_join_def startswith_def
        endswith_def exists_def listdir_def)
  have b: "tree demo_blocked (path_join ''/g/animations/breathing-idle'' ''north'') = Some Unlistable"
    by (simp add: demo_join demo_blocked_def)
  show ?thesis
    using n s e b
      frame_discovery[of demo "''/g/animations/breathing-idle''" "''north''" no_effects]
      frame_discovery[of demo "''/g/animations/breathing-idle''" "''south''" no_effects]
      frame_discovery[of demo_blocked "''/g/animations/breathing-idle''" "''north''"
        "print Rule no_effects"]
    by blast
qed

text \<open>
  The claim as stated, that discovery answers for every direction label and raises no fatal
  error, fails in the installation where \<^verbatim>\<open>breathing-idle/north\<close> cannot be listed:
  \<open>get_frame_files\<close> raises for \<^verbatim>\<open>north\<close>, the exception leaves \<open>create_spritesheet\<close> for
  \<^verbatim>\<open>idle\<close>, and \<open>main\<close> ends with it.
\<close>

theorem unlistable_direction_raises:
  "tree demo_blocked ''/g/animations/breathing-idle/north'' = Some Unlistable \<and>
   get_frame_files demo_blocked ''/g/animations/breathing-idle'' ''north'' no_effects =
     (no_effects, Inl (ListdirError ''/g/animations/breathing-idle/north'')) \<and>
   snd (create_spritesheet demo_blocked ''idle'' ''breathing-idle'' ''/g/spritesheets/idle.png''
          no_effects) = Inl (ListdirError ''/g/animations/breathing-idle/north'') \<and>
   snd (main demo_blocked no_effects) = Inl (ListdirError ''/g/animations/breathing-idle/north'')"
proof -
  have t: "tree demo_blocked ''/g/animations/breathing-idle/north'' = Some Unlistable"
    by (simp add: demo_blocked_fields)
  have g: "get_frame_files demo_blocked ''/g/animations/breathing-idle'' ''north'' no_effects =
     (no_effects, Inl (ListdirError ''/g/animations/breathing-idle/north''))"
    by (simp add: get_frame_files_def demo_join exists_def listdir_def t)
  have ex: "exists demo_blocked ''/g/animations/breathing-idle''"
    by (simp add: exists_def demo_blocked_fields demo_tree_def)
  have c: "snd (create_spritesheet demo_blocked ''idle'' ''breathing-idle'' p out) =
      Inl (ListdirError ''/g/animations/breathing-idle/north'')" for p out
  proof -
    obtain o1 where d: "discover demo_blocked ''/g/animations/breathing-idle'' DIRECTIONS
        (print (CreatingFrom ''idle'' ''breathing-idle'') out, 0, Map.empty) =
        (o1, Inl (ListdirError ''/g/animations/breathing-idle/north''))"
      using demo_blocked_discover[of "print (CreatingFrom ''idle'' ''breathing-idle'') out"]
      by (cases "discover demo_blocked ''/g/animations/breathing-idle'' DIRECTIONS
        (print (CreatingFrom ''idle'' ''breathing-idle'') out, 0, Map.empty)") simp
    show ?thesis
      unfolding create_spritesheet_def demo_blocked_idle_dir Let_def d using ex by simp
  qed
  have a: "ANIMATIONS = [] @ (''idle'', ''breathing-idle'') # [(''walk'', ''walk''), (''run'', ''running-6-frames'')]"
    by (simp add: ANIMATIONS_def)
  have oc: "outcome demo_blocked (output_dir demo_blocked) (''idle'', ''breathing-idle'') =
      Inl (ListdirError ''/g/animations/breathing-idle/north'')"
    by (simp add: outcome_def c)
  have m: "snd (main demo_blocked no_effects) = Inl (ListdirError ''/g/animations/breathing-idle/north'')"
    using main_raises[OF a _ oc, of no_effects] by simp
  show ?thesis using t g c m by blast
qed

subsection \<open>A missing animation folder\<close>

lemma demo_run_dir: "animation_dir demo ''running-6-frames'' = ''/g/animations/running-6-frames''"
  by (simp add: animation_dir_def demo_fields path_join_def startswith_def endswith_def)

lemma demo_run_exists: "exists demo (animation_dir demo ''running-6-frames'')"
  unfolding demo_run_dir by (simp add: exists_def demo_fields demo_tree_def)

lemma demo_run_discovered:
  "\<forall>d\<in>set DIRECTIONS. discovered demo (animation_dir demo ''running-6-frames'') d = Inr (run_frames d)"
  unfolding demo_run_dir
  by (simp add: DIRECTIONS_def discovered_def get_frame_files_def demo_fields
      demo_tree_def path_join_def startswith_def endswith_def exists_def listdir_def run_frames_def)

lemma run_frames_nonempty: "\<exists>d\<in>set DIRECTIONS. run_frames d \<noteq> []"
  by (simp add: DIRECTIONS_def run_frames_def)

lemma demo_walk_dir: "animation_dir demo ''walk'' = ''/g/animations/walk''"
  by (simp add: animation_dir_def demo_fields path_join_def startswith_def endswith_def)

lemma demo_walk_missing: "tree demo (animation_dir demo ''walk'') = None"
  unfolding demo_walk_dir by (simp add: demo_fields demo_tree_def)

lemma demo_output_dir: "output_dir demo = ''/g/spritesheets''"
  by (simp add: output_dir_def demo_fields path_join_def startswith_def endswith_def)

lemma demo_idle_succeeds:
  "snd (create_spritesheet demo ''idle'' ''breathing-idle'' p out) = Inr True"
  using create_spritesheet_saved[OF demo_idle_exists demo_idle_discovered, of p "''idle''" out]
    idle_frames_nonempty by (simp add: frame_count_pos_iff demo_fields)

lemma demo_run_succeeds:
  "snd (create_spritesheet demo ''run'' ''running-6-frames'' p out) = Inr True"
  using create_spritesheet_saved[OF demo_run_exists demo_run_discovered, of p "''run''" out]
    run_frames_nonempty by (simp add: frame_count_pos_iff demo_fields)

lemma missing_outcome:
  "\<not> exists fs (animation_dir fs f) \<Longrightarrow> outcome fs dir (n, f) = Inr False"
  by (simp add: outcome_def create_spritesheet_missing)

text \<open>Two entries of the animation mapping never share an output path, and an entry
  saves to no path but its own.\<close>

lemma path_join_inject:
  assumes "path_join dir a = path_join dir b"
    and "\<not> startswith a ''/''" and "\<not> startswith b ''/''"
  shows "a = b"
  using assms by (simp add: path_join_def split: if_splits)

lemma main_loop_written_other:
  assumes "\<forall>a\<in>set anims. path_join dir (fst a @ ''.png'') \<noteq> q"
  shows "written (fst (main_loop fs dir anims (out, c))) q = written out q"
  using assms
proof (induction anims arbitrary: out c)
  case Nil show ?case by simp
next
  case (Cons a anims)
  obtain n f where a: "a = (n, f)" by (cases a)
  let ?p = "path_join dir (n @ ''.png'')"
  let ?o1 = "fst (create_spritesheet fs n f ?p out)"
  have ne: "?p \<noteq> q" using Cons.prems by (simp add: a)
  from create_spritesheet_effects[of fs n f ?p out ?o1 "snd (create_spritesheet fs n f ?p out)"]
  have w: "written ?o1 q = written out q" using ne by (auto split: if_splits)
  have rest: "\<forall>a\<in>set anims. path_join dir (fst a @ ''.png'') \<noteq> q" using Cons.prems by simp
  show ?case
  proof (cases "outcome fs dir (n, f)")
    case (Inl e)
    then show ?thesis unfolding a main_loop_step using w by simp
  next
    case (Inr ok)
    then show ?thesis unfolding a main_loop_step
      using Cons.IH[OF rest, of ?o1 "if ok then c + 1 else c"] w by simp
  qed
qed

lemma ANIMATIONS_names:
  "distinct (map fst ANIMATIONS)"
  "\<forall>a\<in>set ANIMATIONS. \<not> startswith (fst a @ ''.png'') ''/''"
  by (simp_all add: ANIMATIONS_def startswith_def)

lemma main_written:
  "written (fst (main fs out)) =
     written (fst (main_loop fs (output_dir fs) ANIMATIONS (banner fs out, 0)))"
  unfolding main_unfold by (simp split: prod.splits sum.splits)

lemma other_output_paths:
  assumes sp: "ANIMATIONS = pre @ (n, f) # post"
  shows "\<forall>a\<in>set (pre @ post). path_join dir (fst a @ ''.png'') \<noteq> path_join dir (n @ ''.png'')"
proof
  fix a assume a: "a \<in> set (pre @ post)"
  have d: "distinct (map fst (pre @ (n, f) # post))" using ANIMATIONS_names(1) by (simp add: sp)
  have "fst a \<noteq> n" using a d by (auto simp: image_iff)
  moreover have "\<not> startswith (fst a @ ''.png'') ''/''" "\<not> startswith (n @ ''.png'') ''/''"
    using ANIMATIONS_names(2) a by (auto simp: sp)
  ultimately show "path_join dir (fst a @ ''.png'') \<noteq> path_join dir (n @ ''.png'')"
    using path_join_inject[of dir "fst a @ ''.png''" "n @ ''.png''"] by auto
qed

text \<open>
  C5. When exactly one entry \<open>(n, f)\<close> of the animation mapping has no source folder and
  \<open>create_spritesheet\<close> returns \<^verbatim>\<open>True\<close> for every other entry, \<open>main\<close> raises nothing: it
  prints the folder-not-found line for that animation, returns normally, and its summary
  line reports (total - 1) of total. The animation is skipped: its call of
  \<open>create_spritesheet\<close>, whatever the output path and whatever was printed and saved before,
  adds the folder-not-found line, saves nothing and returns \<^verbatim>\<open>False\<close>; the loop goes on
  with the entries after it from what the entries before it left, plus that line, and with
  their count; and at the end of the run the file at the output path of that animation is
  what it was before the run. Lemma \<open>main_loop_returns\<close> gives the count in general: each
  entry adds one exactly when its own call returns \<^verbatim>\<open>True\<close>.
\<close>

theorem missing_folder_summary:
  assumes sp: "ANIMATIONS = pre @ (n, f) # post"
    and missing: "\<not> exists fs (animation_dir fs f)"
    and others: "\<forall>a\<in>set (pre @ post). \<forall>out.
        snd (create_spritesheet fs (fst a) (snd a)
               (path_join (path_join (abs_dir fs) ''spritesheets'') (fst a @ ''.png'')) out) = Inr True"
  shows "snd (main fs out) = Inr () \<and>
         (\<exists>msgs. stdout (fst (main fs out)) =
            stdout out @ msgs @
            [BlankRule, Done (length ANIMATIONS - 1) (length ANIMATIONS),
             SavedTo (path_join (abs_dir fs) ''spritesheets''), Rule]) \<and>
         AnimationFolderNotFound (animation_dir fs f) \<in> set (stdout (fst (main fs out))) \<and>
         (\<forall>p e. create_spritesheet fs n f p e =
            (e\<lparr>stdout := stdout e @ [AnimationFolderNotFound (animation_dir fs f)]\<rparr>, Inr False)) \<and>
         (\<exists>o1 c1.
            main_loop fs (path_join (abs_dir fs) ''spritesheets'') pre (banner fs out, 0) =
              (o1, Inr c1) \<and>
            main_loop fs (path_join (abs_dir fs) ''spritesheets'') ANIMATIONS (banner fs out, 0) =
              main_loop fs (path_join (abs_dir fs) ''spritesheets'') post
                (o1\<lparr>stdout := stdout o1 @ [AnimationFolderNotFound (animation_dir fs f)]\<rparr>, c1)) \<and>
         written (fst (main fs out))
           (path_join (path_join (abs_dir fs) ''spritesheets'') (n @ ''.png'')) =
         written out (path_join (path_join (abs_dir fs) ''spritesheets'') (n @ ''.png''))"
proof -
  let ?dir = "output_dir fs"
  let ?q = "path_join ?dir (n @ ''.png'')"
  have o: "\<forall>a\<in>set (pre @ post). outcome fs ?dir a = Inr True"
    using others by (simp add: outcome_def output_dir_def)
  have m: "outcome fs ?dir (n, f) = Inr False" using missing by (rule missing_outcome)
  have nr: "\<forall>a\<in>set ANIMATIONS. \<not> raises fs ?dir a"
  proof
    fix a assume "a \<in> set ANIMATIONS"
    then have "a \<in> set (pre @ post) \<or> a = (n, f)" by (auto simp: sp)
    then show "\<not> raises fs ?dir a" using o m by (auto simp: raises_def)
  qed
  have "filter (succeeds fs ?dir) pre = pre" "filter (succeeds fs ?dir) post = post"
    using o by (simp_all add: succeeds_def)
  moreover have "\<not> succeeds fs ?dir (n, f)" using m by (simp add: succeeds_def)
  ultimately have cnt: "length (filter (succeeds fs ?dir) ANIMATIONS) = length ANIMATIONS - 1"
    by (simp add: sp)
  note c = main_completes[OF nr, of out, unfolded cnt]
  have nrp: "\<forall>a\<in>set pre. \<not> raises fs ?dir a" using nr by (simp add: sp)
  obtain o1 c1 where p1: "main_loop fs ?dir pre (banner fs out, 0) = (o1, Inr c1)"
    using main_loop_returns[OF nrp, of "banner fs out" 0]
    by (cases "main_loop fs ?dir pre (banner fs out, 0)") simp
  let ?o2 = "o1\<lparr>stdout := stdout o1 @ [AnimationFolderNotFound (animation_dir fs f)]\<rparr>"
  have c4: "\<forall>p e. create_spritesheet fs n f p e =
            (e\<lparr>stdout := stdout e @ [AnimationFolderNotFound (animation_dir fs f)]\<rparr>, Inr False)"
    by (simp add: create_spritesheet_missing[OF missing] print_def)
  have l: "main_loop fs ?dir ANIMATIONS (banner fs out, 0) = main_loop fs ?dir post (?o2, c1)"
    unfolding sp main_loop_append p1 main_loop_step m by (simp add: c4)
  have c5: "\<exists>o1 c1. main_loop fs ?dir pre (banner fs out, 0) = (o1, Inr c1) \<and>
      main_loop fs ?dir ANIMATIONS (banner fs out, 0) =
        main_loop fs ?dir post
          (o1\<lparr>stdout := stdout o1 @ [AnimationFolderNotFound (animation_dir fs f)]\<rparr>, c1)"
    using p1 l by blast
  from main_loop_quiet_stdout[of fs ?dir post ?o2 c1]
  have "AnimationFolderNotFound (animation_dir fs f)
      \<in> set (stdout (fst (main_loop fs ?dir ANIMATIONS (banner fs out, 0))))"
    unfolding l by auto
  then have c3: "AnimationFolderNotFound (animation_dir fs f) \<in> set (stdout (fst (main fs out)))"
    unfolding main_unfold by (auto split: prod.splits sum.splits)
  have op: "\<forall>a\<in>set (pre @ post). path_join ?dir (fst a @ ''.png'') \<noteq> ?q"
    by (rule other_output_paths[OF sp])
  have w1: "written o1 ?q = written (banner fs out) ?q"
    using main_loop_written_other[of pre ?dir ?q fs "banner fs out" 0] op p1 by simp
  have w2: "written (fst (main_loop fs ?dir post (?o2, c1))) ?q = written ?o2 ?q"
    using main_loop_written_other[of post ?dir ?q fs ?o2 c1] op by simp
  have c6: "written (fst (main fs out)) ?q = written out ?q"
    unfolding main_written l w2 using w1 by (simp add: banner_stdout)
  show ?thesis using c c3 c4 c5 c6 by (simp add: output_dir_def)
qed

theorem missing_folder_summary_witness:
  "ANIMATIONS = [(''idle'', ''breathing-idle'')] @ (''walk'', ''walk'') # [(''run'', ''running-6-frames'')] \<and>
   tree demo (animation_dir demo ''walk'') = None \<and>
   snd (create_spritesheet demo ''idle'' ''breathing-idle'' ''/g/spritesheets/idle.png'' no_effects)
     = Inr True \<and>
   snd (create_spritesheet demo ''run'' ''running-6-frames'' ''/g/spritesheets/run.png'' no_effects)
     = Inr True \<and>
   snd (main demo no_effects) = Inr () \<and>
   (\<exists>msgs. stdout (fst (main demo no_effects)) =
      msgs @ [BlankRule, Done 2 3, SavedTo ''/g/spritesheets'', Rule]) \<and>
   AnimationFolderNotFound ''/g/animations/walk'' \<in> set (stdout (fst (main demo no_effects))) \<and>
   create_spritesheet demo ''walk'' ''walk'' ''/g/spritesheets/walk.png'' no_effects =
     (no_effects\<lparr>stdout := stdout no_effects @ [AnimationFolderNotFound ''/g/animations/walk'']\<rparr>,
      Inr False) \<and>
   written (fst (main demo no_effects)) ''/g/spritesheets/walk.png'' = None"
proof -
  have s: "ANIMATIONS = [(''idle'', ''breathing-idle'')] @ (''walk'', ''walk'') # [(''run'', ''running-6-frames'')]"
    by (simp add: ANIMATIONS_def)
  have mi: "\<not> exists demo (animation_dir demo ''walk'')"
    using demo_walk_missing by (simp add: exists_def)
  have ot: "\<forall>a\<in>set ([(''idle'', ''breathing-idle'')] @ [(''run'', ''running-6-frames'')]). \<forall>out.
        snd (create_spritesheet demo (fst a) (snd a)
               (path_join (path_join (abs_dir demo) ''spritesheets'') (fst a @ ''.png'')) out) = Inr True"
    by (simp add: demo_idle_succeeds demo_run_succeeds)
  have len: "length ANIMATIONS = 3" by (simp add: ANIMATIONS_def)
  have wp: "path_join ''/g/spritesheets'' (''walk'' @ ''.png'') = ''/g/spritesheets/walk.png''"
    by (simp add: path_join_def startswith_def endswith_def)
  note t = missing_folder_summary[OF s mi ot, of no_effects, unfolded len demo_walk_dir]
  have t2: "\<exists>msgs. stdout (fst (main demo no_effects)) =
      msgs @ [BlankRule, Done 2 3, SavedTo ''/g/spritesheets'', Rule]"
    using conjunct1[OF conjunct2[OF t]] demo_output_dir by (simp add: output_dir_def no_effects_def)
  have t4: "create_spritesheet demo ''walk'' ''walk'' ''/g/spritesheets/walk.png'' no_effects =
     (no_effects\<lparr>stdout := stdout no_effects @ [AnimationFolderNotFound ''/g/animations/walk'']\<rparr>,
      Inr False)"
    using conjunct1[OF conjunct2[OF conjunct2[OF conjunct2[OF t]]]] by blast
  have t6: "written (fst (main demo no_effects)) ''/g/spritesheets/walk.png'' = None"
    using conjunct2[OF conjunct2[OF conjunct2[OF conjunct2[OF conjunct2[OF t]]]]]
      demo_output_dir wp by (simp add: output_dir_def no_effects_def)
  show ?thesis
    using s demo_walk_missing demo_idle_succeeds demo_run_succeeds t t2 t4 t6 by blast
qed

subsection \<open>A sheet that cannot be saved ends the run\<close>

lemma demo_readonly_output_dir: "output_dir demo_readonly = ''/g/spritesheets''"
  by (simp add: output_dir_def demo_readonly_fields path_join_def startswith_def endswith_def)

lemma idle_cells:
  "cells idle_frames (enumerate 0 DIRECTIONS) =
     [(0, 0, ''/g/animations/breathing-idle/south/frame_0.png''),
      (0, 1, ''/g/animations/breathing-idle/south/frame_1.png'')]"
  by (simp add: cells_def DIRECTIONS_def idle_frames_def enumerate_eq_zip)

lemma demo_decode:
  "decode demo ''/g/animations/breathing-idle/south/frame_0.png'' =
     Some \<lparr>width = 208, height = 104, px = (\<lambda>_. white)\<rparr>"
  "decode demo ''/g/animations/breathing-idle/south/frame_1.png'' = None"
  "decode demo ''/g/animations/running-6-frames/east/frame_0.png'' =
     Some \<lparr>width = 50, height = 50, px = (\<lambda>_. white)\<rparr>"
  by (simp_all add: demo_fields demo_images_def)

lemma idle_frame_count': "frame_count idle_frames = 2"
  using idle_frame_count by (simp add: frame_count_def)

lemma demo_idle_discovery_log:
  "discovery_log demo ''/g/animations/breathing-idle'' idle_frames DIRECTIONS =
     [FrameCount ''south'' 2,
      DirectoryNotFound ''/g/animations/breathing-idle/south-east'', FrameCount ''south-east'' 0,
      DirectoryNotFound ''/g/animations/breathing-idle/east'', FrameCount ''east'' 0,
      DirectoryNotFound ''/g/animations/breathing-idle/north-east'', FrameCount ''north-east'' 0,
      DirectoryNotFound ''/g/animations/breathing-idle/north'', FrameCount ''north'' 0,
      DirectoryNotFound ''/g/animations/breathing-idle/north-west'', FrameCount ''north-west'' 0,
      DirectoryNotFound ''/g/animations/breathing-idle/west'', FrameCount ''west'' 0,
      DirectoryNotFound ''/g/animations/breathing-idle/south-west'', FrameCount ''south-west'' 0]"
  by (simp add: discovery_log_def DIRECTIONS_def idle_frames_def exists_def demo_fields demo_tree_def
      path_join_def startswith_def endswith_def)

lemma discovery_log_same_tree:
  "tree fs' = tree fs \<Longrightarrow> discovery_log fs' ap frames ds = discovery_log fs ap frames ds"
  by (simp add: discovery_log_def exists_def)

lemma load_errors_same_decode:
  "decode fs' = decode fs \<Longrightarrow> load_errors fs' frames = load_errors fs frames"
  by (simp add: load_errors_def)

lemma demo_idle_load_errors:
  "load_errors demo idle_frames = [ErrorLoading ''/g/animations/breathing-idle/south/frame_1.png'']"
  by (simp add: load_errors_def idle_cells demo_decode)

lemma demo_readonly_idle_log:
  "assembly_log demo_readonly ''idle'' ''breathing-idle'' idle_frames =
     [CreatingFrom ''idle'' ''breathing-idle'',
      FrameCount ''south'' 2,
      DirectoryNotFound ''/g/animations/breathing-idle/south-east'', FrameCount ''south-east'' 0,
      DirectoryNotFound ''/g/animations/breathing-idle/east'', FrameCount ''east'' 0,
      DirectoryNotFound ''/g/animations/breathing-idle/north-east'', FrameCount ''north-east'' 0,
      DirectoryNotFound ''/g/animations/breathing-idle/north'', FrameCount ''north'' 0,
      DirectoryNotFound ''/g/animations/breathing-idle/north-west'', FrameCount ''north-west'' 0,
      DirectoryNotFound ''/g/animations/breathing-idle/west'', FrameCount ''west'' 0,
      DirectoryNotFound ''/g/animations/breathing-idle/south-west'', FrameCount ''south-west'' 0,
      CreatingSheet 208 832 2,
      ErrorLoading ''/g/animations/breathing-idle/south/frame_1.png'']"
  unfolding assembly_log_def animation_dir_same[OF demo_readonly_fields(1)] demo_idle_dir
    discovery_log_same_tree[OF demo_readonly_fields(2)] demo_idle_discovery_log
    load_errors_same_decode[OF demo_readonly_fields(4)] demo_idle_load_errors idle_frame_count'
  by (simp add: FRAME_WIDTH_def FRAME_HEIGHT_def length_DIRECTIONS)

lemma unwritable_outcome:
  assumes "exists fs (animation_dir fs f)"
    and "\<forall>d\<in>set DIRECTIONS. discovered fs (animation_dir fs f) d = Inr (frames d)"
    and "\<exists>d\<in>set DIRECTIONS. frames d \<noteq> []"
    and "\<not> writable fs (path_join dir (n @ ''.png''))"
  shows "outcome fs dir (n, f) = Inl (WriteError (path_join dir (n @ ''.png'')))"
  using create_spritesheet_unwritable[OF assms(1,2) _ assms(4), of n no_effects] assms(3)
  by (simp add: outcome_def frame_count_pos_iff)

lemma demo_outcomes:
  "outcome demo ''/g/spritesheets'' (''idle'', ''breathing-idle'') = Inr True"
  "outcome demo ''/g/spritesheets'' (''walk'', ''walk'') = Inr False"
  "outcome demo ''/g/spritesheets'' (''run'', ''running-6-frames'') = Inr True"
  using demo_walk_missing
  by (simp_all add: outcome_def demo_idle_succeeds demo_run_succeeds create_spritesheet_missing
      exists_def)

text \<open>
  C1, as amended. A failure to write the composed sheet is not caught anywhere. When the
  entries of the animation mapping before \<open>(n, f)\<close> raise nothing, and \<open>(n, f)\<close> has its
  folder, its eight directions discovered with at least one frame, and an output path that
  cannot be written, \<open>main\<close> ends with that write error: what it has printed and saved is
  what it had printed and saved after the earlier entries, followed by the lines of this
  animation up to the end of the paste loops. So nothing is saved for this animation, the
  remaining entries are not processed, and no summary line is printed. When no entry
  raises, \<open>main\<close> returns normally and ends its output with the summary, which counts the
  entries whose call returned \<^verbatim>\<open>True\<close>.
\<close>

theorem write_failure_ends_batch:
  "(ANIMATIONS = pre @ (n, f) # post \<and>
    (\<forall>a\<in>set pre. \<not> raises fs (output_dir fs) a) \<and>
    exists fs (animation_dir fs f) \<and>
    (\<forall>d\<in>set DIRECTIONS. discovered fs (animation_dir fs f) d = Inr (frames d)) \<and>
    (\<exists>d\<in>set DIRECTIONS. frames d \<noteq> []) \<and>
    \<not> writable fs (path_join (output_dir fs) (n @ ''.png''))
    \<longrightarrow>
      snd (main fs out) = Inl (WriteError (path_join (output_dir fs) (n @ ''.png''))) \<and>
      stdout (fst (main fs out)) =
        stdout (fst (main_loop fs (output_dir fs) pre (banner fs out, 0))) @
        assembly_log fs n f frames \<and>
      written (fst (main fs out)) =
        written (fst (main_loop fs (output_dir fs) pre (banner fs out, 0))) \<and>
      filter is_summary (stdout (fst (main fs out))) = filter is_summary (stdout out)) \<and>
   ((\<forall>a\<in>set ANIMATIONS. \<not> raises fs (output_dir fs) a)
    \<longrightarrow>
      snd (main fs out) = Inr () \<and>
      (\<exists>msgs. stdout (fst (main fs out)) =
         stdout out @ msgs @
         [BlankRule,
          Done (length (filter (succeeds fs (output_dir fs)) ANIMATIONS)) (length ANIMATIONS),
          SavedTo (output_dir fs), Rule]))"
proof (intro conjI impI)
  assume a: "ANIMATIONS = pre @ (n, f) # post \<and>
    (\<forall>a\<in>set pre. \<not> raises fs (output_dir fs) a) \<and>
    exists fs (animation_dir fs f) \<and>
    (\<forall>d\<in>set DIRECTIONS. discovered fs (animation_dir fs f) d = Inr (frames d)) \<and>
    (\<exists>d\<in>set DIRECTIONS. frames d \<noteq> []) \<and>
    \<not> writable fs (path_join (output_dir fs) (n @ ''.png''))"
  let ?p = "path_join (output_dir fs) (n @ ''.png'')"
  let ?o1 = "fst (main_loop fs (output_dir fs) pre (banner fs out, 0))"
  from a have sp: "ANIMATIONS = pre @ (n, f) # post"
    and nr: "\<forall>a\<in>set pre. \<not> raises fs (output_dir fs) a"
    and ex: "exists fs (animation_dir fs f)"
    and fr: "\<forall>d\<in>set DIRECTIONS. discovered fs (animation_dir fs f) d = Inr (frames d)"
    and ne: "\<exists>d\<in>set DIRECTIONS. frames d \<noteq> []"
    and uw: "\<not> writable fs ?p" by blast+
  have pos: "0 < frame_count frames" using ne by (simp add: frame_count_pos_iff)
  have oc: "outcome fs (output_dir fs) (n, f) = Inl (WriteError ?p)"
    by (rule unwritable_outcome[OF ex fr ne uw])
  have m: "main fs out = (fst (create_spritesheet fs n f ?p ?o1), Inl (WriteError ?p))"
    by (rule main_raises[OF sp nr oc])
  have cs: "create_spritesheet fs n f ?p ?o1 =
      (?o1\<lparr>stdout := stdout ?o1 @ assembly_log fs n f frames\<rparr>, Inl (WriteError ?p))"
    by (rule create_spritesheet_unwritable[OF ex fr pos uw])
  show "snd (main fs out) = Inl (WriteError ?p)" using m by simp
  show "stdout (fst (main fs out)) = stdout ?o1 @ assembly_log fs n f frames"
    unfolding m cs by simp
  show "written (fst (main fs out)) = written ?o1" unfolding m cs by simp
  show "filter is_summary (stdout (fst (main fs out))) = filter is_summary (stdout out)"
    by (rule main_raises_no_summary[of fs out "WriteError ?p"]) (simp add: m)
next
  assume b: "\<forall>a\<in>set ANIMATIONS. \<not> raises fs (output_dir fs) a"
  from main_completes[OF b, of out]
  show "snd (main fs out) = Inr ()"
    and "\<exists>msgs. stdout (fst (main fs out)) =
         stdout out @ msgs @
         [BlankRule,
          Done (length (filter (succeeds fs (output_dir fs)) ANIMATIONS)) (length ANIMATIONS),
          SavedTo (output_dir fs), Rule]"
    by blast+
qed

theorem write_failure_ends_batch_witness:
  "ANIMATIONS = [] @ (''idle'', ''breathing-idle'') #
                 [(''walk'', ''walk''), (''run'', ''running-6-frames'')] \<and>
   exists demo_readonly (animation_dir demo_readonly ''breathing-idle'') \<and>
   map (discovered demo_readonly (animation_dir demo_readonly ''breathing-idle'')) DIRECTIONS =
     map (\<lambda>d. Inr (idle_frames d)) DIRECTIONS \<and>
   idle_frames ''south'' \<noteq> [] \<and>
   writable demo_readonly (path_join (output_dir demo_readonly) (''idle'' @ ''.png'')) = False \<and>
   snd (main demo_readonly no_effects) = Inl (WriteError ''/g/spritesheets/idle.png'') \<and>
   filter is_summary (stdout (fst (main demo_readonly no_effects))) = [] \<and>
   map (raises demo (output_dir demo)) ANIMATIONS = [False, False, False] \<and>
   snd (main demo no_effects) = Inr () \<and>
   (\<exists>msgs. stdout (fst (main demo no_effects)) =
      msgs @ [BlankRule, Done 2 3, SavedTo ''/g/spritesheets'', Rule])"
proof -
  have sp: "ANIMATIONS = [] @ (''idle'', ''breathing-idle'') #
                 [(''walk'', ''walk''), (''run'', ''running-6-frames'')]"
    by (simp add: ANIMATIONS_def)
  have m: "map (discovered demo_readonly (animation_dir demo_readonly ''breathing-idle'')) DIRECTIONS =
     map (\<lambda>d. Inr (idle_frames d)) DIRECTIONS"
    using demo_readonly_idle(2) by simp
  have s: "idle_frames ''south'' \<noteq> []" by (simp add: idle_frames_def)
  have uw: "\<not> writable demo_readonly (path_join (output_dir demo_readonly) (''idle'' @ ''.png''))"
    by (rule demo_readonly_fields)
  have nr0: "\<forall>a\<in>set []. \<not> raises demo_readonly (output_dir demo_readonly) a" by simp
  have rs: "map (raises demo (output_dir demo)) ANIMATIONS = [False, False, False]"
    by (simp add: ANIMATIONS_def raises_def demo_output_dir demo_outcomes)
  have nr: "\<forall>a\<in>set ANIMATIONS. \<not> raises demo (output_dir demo) a"
    by (simp add: ANIMATIONS_def raises_def demo_output_dir demo_outcomes)
  have cnt: "length (filter (succeeds demo ''/g/spritesheets'') ANIMATIONS) = 2"
    by (simp add: ANIMATIONS_def succeeds_def demo_outcomes)
  have len: "length ANIMATIONS = 3" by (simp add: ANIMATIONS_def)
  have p: "path_join (output_dir demo_readonly) (''idle'' @ ''.png'') = ''/g/spritesheets/idle.png''"
    by (simp add: demo_readonly_output_dir idle_png[simplified])
  have h1: "ANIMATIONS = [] @ (''idle'', ''breathing-idle'') #
                 [(''walk'', ''walk''), (''run'', ''running-6-frames'')] \<and>
    (\<forall>a\<in>set []. \<not> raises demo_readonly (output_dir demo_readonly) a) \<and>
    exists demo_readonly (animation_dir demo_readonly ''breathing-idle'') \<and>
    (\<forall>d\<in>set DIRECTIONS.
       discovered demo_readonly (animation_dir demo_readonly ''breathing-idle'') d =
         Inr (idle_frames d)) \<and>
    (\<exists>d\<in>set DIRECTIONS. idle_frames d \<noteq> []) \<and>
    \<not> writable demo_readonly (path_join (output_dir demo_readonly) (''idle'' @ ''.png''))"
    using sp nr0 demo_readonly_idle idle_frames_nonempty uw by blast
  note t1 = mp[OF conjunct1[OF write_failure_ends_batch[of "[]" "''idle''" "''breathing-idle''"
          "[(''walk'', ''walk''), (''run'', ''running-6-frames'')]" demo_readonly idle_frames
          no_effects]] h1]
  note t2 = mp[OF conjunct2[OF write_failure_ends_batch[of "[]" "''idle''" "''breathing-idle''"
          "[(''walk'', ''walk''), (''run'', ''running-6-frames'')]" demo idle_frames
          no_effects]] nr]
  have a1: "snd (main demo_readonly no_effects) = Inl (WriteError ''/g/spritesheets/idle.png'')"
    using conjunct1[OF t1] p by simp
  have a2: "filter is_summary (stdout (fst (main demo_readonly no_effects))) = []"
    using conjunct2[OF conjunct2[OF conjunct2[OF t1]]] by (simp add: no_effects_def)
  have a3: "snd (main demo no_effects) = Inr ()" using conjunct1[OF t2] by simp
  have a4: "\<exists>msgs. stdout (fst (main demo no_effects)) =
      msgs @ [BlankRule, Done 2 3, SavedTo ''/g/spritesheets'', Rule]"
    using conjunct2[OF t2] by (simp add: demo_output_dir cnt len no_effects_def)
  show ?thesis using sp demo_readonly_idle(1) m s uw rs a1 a2 a3 a4 by blast
qed

text \<open>
  The claim as stated fails in the read-only installation: the first animation has two
  frames and its sheet cannot be saved; \<open>main\<close> ends with the write error, and its output
  stops after the lines of that animation, with no line for \<^verbatim>\<open>walk\<close> or \<^verbatim>\<open>run\<close> and no
  summary.
\<close>

theorem write_failure_not_isolated:
  "discovered demo_readonly (animation_dir demo_readonly ''breathing-idle'') ''south'' =
     Inr [''/g/animations/breathing-idle/south/frame_0.png'',
          ''/g/animations/breathing-idle/south/frame_1.png''] \<and>
   writable demo_readonly ''/g/spritesheets/idle.png'' = False \<and>
   snd (main demo_readonly no_effects) = Inl (WriteError ''/g/spritesheets/idle.png'') \<and>
   stdout (fst (main demo_readonly no_effects)) =
     [Rule, Title, Rule, ScriptDirectory ''/g'', OutputDirectory ''/g/spritesheets'',
      CreatingFrom ''idle'' ''breathing-idle'',
      FrameCount ''south'' 2,
      DirectoryNotFound ''/g/animations/breathing-idle/south-east'', FrameCount ''south-east'' 0,
      DirectoryNotFound ''/g/animations/breathing-idle/east'', FrameCount ''east'' 0,
      DirectoryNotFound ''/g/animations/breathing-idle/north-east'', FrameCount ''north-east'' 0,
      DirectoryNotFound ''/g/animations/breathing-idle/north'', FrameCount ''north'' 0,
      DirectoryNotFound ''/g/animations/breathing-idle/north-west'', FrameCount ''north-west'' 0,
      DirectoryNotFound ''/g/animations/breathing-idle/west'', FrameCount ''west'' 0,
      DirectoryNotFound ''/g/animations/breathing-idle/south-west'', FrameCount ''south-west'' 0,
      CreatingSheet 208 832 2,
      ErrorLoading ''/g/animations/breathing-idle/south/frame_1.png'']"
proof -
  have "south \<in> set DIRECTIONS" if "south = ''south''" for south
    using that by (simp add: DIRECTIONS_def)
  then have d: "discovered demo_readonly (animation_dir demo_readonly ''breathing-idle'') ''south'' =
     Inr (idle_frames ''south'')"
    using demo_readonly_idle(2) by blast
  have sp: "ANIMATIONS = [] @ (''idle'', ''breathing-idle'') #
                 [(''walk'', ''walk''), (''run'', ''running-6-frames'')]"
    by (simp add: ANIMATIONS_def)
  have nr0: "\<forall>a\<in>set []. \<not> raises demo_readonly (output_dir demo_readonly) a" by simp
  have pos: "0 < frame_count idle_frames" by (simp add: idle_frame_count')
  have uw: "\<not> writable demo_readonly (path_join (output_dir demo_readonly) (''idle'' @ ''.png''))"
    by (rule demo_readonly_fields)
  have p: "path_join (output_dir demo_readonly) (''idle'' @ ''.png'') = ''/g/spritesheets/idle.png''"
    by (simp add: demo_readonly_output_dir idle_png[simplified])
  have oc: "outcome demo_readonly (output_dir demo_readonly) (''idle'', ''breathing-idle'') =
      Inl (WriteError (path_join (output_dir demo_readonly) (''idle'' @ ''.png'')))"
    by (rule unwritable_outcome[OF demo_readonly_idle idle_frames_nonempty uw])
  have m: "main demo_readonly no_effects =
      (fst (create_spritesheet demo_readonly ''idle'' ''breathing-idle''
              (path_join (output_dir demo_readonly) (''idle'' @ ''.png''))
              (fst (main_loop demo_readonly (output_dir demo_readonly) []
                      (banner demo_readonly no_effects, 0)))),
       Inl (WriteError (path_join (output_dir demo_readonly) (''idle'' @ ''.png''))))"
    by (rule main_raises[OF sp nr0 oc])
  have cs: "create_spritesheet demo_readonly ''idle'' ''breathing-idle''
              (path_join (output_dir demo_readonly) (''idle'' @ ''.png''))
              (banner demo_readonly no_effects) =
      ((banner demo_readonly no_effects)\<lparr>stdout := stdout (banner demo_readonly no_effects) @
          assembly_log demo_readonly ''idle'' ''breathing-idle'' idle_frames\<rparr>,
       Inl (WriteError (path_join (output_dir demo_readonly) (''idle'' @ ''.png''))))"
    by (rule create_spritesheet_unwritable[OF demo_readonly_idle pos uw])
  have a1: "snd (main demo_readonly no_effects) = Inl (WriteError ''/g/spritesheets/idle.png'')"
    unfolding m p by simp
  have a2: "stdout (fst (main demo_readonly no_effects)) =
      stdout (banner demo_readonly no_effects) @
      assembly_log demo_readonly ''idle'' ''breathing-idle'' idle_frames"
    unfolding m main_loop.simps fst_conv cs by simp
  show ?thesis
    using d a1 demo_readonly_fields(5)[of "''/g/spritesheets/idle.png''"]
    unfolding a2 demo_readonly_idle_log banner_stdout demo_readonly_output_dir
    by (simp add: idle_frames_def no_effects_def demo_readonly_fields)
qed

subsection \<open>The order of the paste loops\<close>

lemma index_of_SomeD: "index_of xs x = Some r \<Longrightarrow> r < length xs \<and> xs ! r = x"
proof (induction xs arbitrary: r)
  case Nil then show ?case by simp
next
  case (Cons y ys)
  show ?case
  proof (cases "x = y")
    case True then show ?thesis using Cons.prems by simp
  next
    case False
    with Cons.prems obtain r' where "index_of ys x = Some r'" "r = Suc r'" by auto
    with Cons.IH[of r'] show ?thesis by simp
  qed
qed

lemma cells_append:
  "cells frames (xs @ ys) = cells frames xs @ cells frames ys"
  by (simp add: cells_def)

lemma cells_Cons:
  "cells frames ((row, d) # rows) =
     map (\<lambda>(col, p). (row, col, p)) (enumerate 0 (frames d)) @ cells frames rows"
  by (simp add: cells_def)

lemma in_cells_enumerate_from:
  "(r, c, p) \<in> set (cells frames (enumerate n ds)) \<Longrightarrow> n \<le> r"
  by (simp add: in_cells_iff)

lemma cells_split:
  assumes "row < length ds" and "i < length (frames (ds ! row))"
  shows "\<exists>before after.
     cells frames (enumerate 0 ds) = before @ (row, i, frames (ds ! row) ! i) # after \<and>
     (\<forall>c\<in>set after. row < fst c \<or> (row = fst c \<and> i < fst (snd c))) \<and>
     (\<forall>c\<in>set before. fst c < row \<or> (fst c = row \<and> fst (snd c) < i))"
proof -
  let ?d = "ds ! row"
  let ?fr = "frames ?d"
  have ds: "ds = take row ds @ ?d # drop (Suc row) ds" using assms(1) by (rule id_take_nth_drop)
  have "enumerate 0 ds = enumerate 0 (take row ds) @ enumerate row (?d # drop (Suc row) ds)"
    using assms(1) by (subst ds) (simp add: enumerate_append_eq min_def)
  then have en: "enumerate 0 ds =
      enumerate 0 (take row ds) @ (row, ?d) # enumerate (Suc row) (drop (Suc row) ds)"
    by simp
  have fr: "?fr = take i ?fr @ ?fr ! i # drop (Suc i) ?fr" using assms(2) by (rule id_take_nth_drop)
  have "enumerate 0 ?fr = enumerate 0 (take i ?fr) @ enumerate i (?fr ! i # drop (Suc i) ?fr)"
    using assms(2) by (subst fr) (simp add: enumerate_append_eq min_def)
  then have ef: "enumerate 0 ?fr =
      enumerate 0 (take i ?fr) @ (i, ?fr ! i) # enumerate (Suc i) (drop (Suc i) ?fr)"
    by simp
  let ?before = "cells frames (enumerate 0 (take row ds)) @
      map (\<lambda>(col, p). (row, col, p)) (enumerate 0 (take i ?fr))"
  let ?after = "map (\<lambda>(col, p). (row, col, p)) (enumerate (Suc i) (drop (Suc i) ?fr)) @
      cells frames (enumerate (Suc row) (drop (Suc row) ds))"
  have eq: "cells frames (enumerate 0 ds) = ?before @ (row, i, ?fr ! i) # ?after"
    unfolding en cells_append cells_Cons ef by simp
  have a: "\<forall>c\<in>set ?after. row < fst c \<or> (row = fst c \<and> i < fst (snd c))"
  proof
    fix c assume c: "c \<in> set ?after"
    obtain r k p where rkp: "c = (r, k, p)" by (cases c)
    from c consider "c \<in> set (map (\<lambda>(col, p). (row, col, p)) (enumerate (Suc i) (drop (Suc i) ?fr)))"
      | "c \<in> set (cells frames (enumerate (Suc row) (drop (Suc row) ds)))" by auto
    then show "row < fst c \<or> (row = fst c \<and> i < fst (snd c))"
    proof cases
      case 1
      then show ?thesis by (auto simp: in_set_enumerate_eq)
    next
      case 2
      then have "Suc row \<le> r" unfolding rkp by (rule in_cells_enumerate_from)
      then show ?thesis by (simp add: rkp)
    qed
  qed
  have b: "\<forall>c\<in>set ?before. fst c < row \<or> (fst c = row \<and> fst (snd c) < i)"
  proof
    fix c assume c: "c \<in> set ?before"
    obtain r k p where rkp: "c = (r, k, p)" by (cases c)
    from c consider "c \<in> set (cells frames (enumerate 0 (take row ds)))"
      | "c \<in> set (map (\<lambda>(col, p). (row, col, p)) (enumerate 0 (take i ?fr)))" by auto
    then show "fst c < row \<or> (fst c = row \<and> fst (snd c) < i)"
    proof cases
      case 1
      then have "r < length (take row ds)" unfolding rkp by (simp add: in_cells_iff)
      then show ?thesis by (simp add: rkp)
    next
      case 2
      then show ?thesis by (auto simp: in_set_enumerate_eq)
    qed
  qed
  show ?thesis using eq a b by blast
qed

lemma fold_paste_last_writer:
  assumes cs: "cs = before @ (row, col, p) # after"
    and dec: "decode fs p = Some frame"
    and later: "\<forall>c\<in>set after. \<not> covers fs c (x, y)"
    and inx: "col * FRAME_WIDTH \<le> x" "x < col * FRAME_WIDTH + width frame" "x < width s"
    and iny: "row * FRAME_HEIGHT \<le> y" "y < row * FRAME_HEIGHT + height frame" "y < height s"
  shows "px (snd (fold (paste_cell fs) cs (out, s))) (x, y) =
           px frame (x - col * FRAME_WIDTH, y - row * FRAME_HEIGHT)"
proof -
  obtain o1 s1 where b: "fold (paste_cell fs) before (out, s) = (o1, s1)"
    by (cases "fold (paste_cell fs) before (out, s)")
  have sz: "width s1 = width s" "height s1 = height s"
    using fold_paste_size[of fs before "(out, s)"] b by simp_all
  let ?s2 = "paste s1 frame (col * FRAME_WIDTH, row * FRAME_HEIGHT)"
  have step: "paste_cell fs (row, col, p) (o1, s1) = (o1, ?s2)"
    by (rule paste_cell_decoded[OF dec])
  have "px ?s2 (x, y) = px frame (x - col * FRAME_WIDTH, y - row * FRAME_HEIGHT)"
    using inx iny sz by (simp add: paste_px)
  moreover have "px (snd (fold (paste_cell fs) after (o1, ?s2))) (x, y) = px ?s2 (x, y)"
    by (rule fold_paste_untouched[OF later])
  ultimately show ?thesis unfolding cs by (simp add: b step)
qed

subsection \<open>The pixels of the composed sheet\<close>

lemma composed_last_writer:
  assumes row: "row < length DIRECTIONS"
    and col: "col < length (frames (DIRECTIONS ! row))"
    and dec: "decode fs (frames (DIRECTIONS ! row) ! col) = Some frame"
    and now: "\<not> overwritten fs frames (row, col) (x, y)"
    and inx: "col * 104 \<le> x" "x < col * 104 + width frame" "x < frame_count frames * 104"
    and iny: "row * 104 \<le> y" "y < row * 104 + height frame" "y < 832"
  shows "px (composed fs frames) (x, y) = px frame (x - col * 104, y - row * 104)"
proof -
  let ?p = "frames (DIRECTIONS ! row) ! col"
  from cells_split[of row DIRECTIONS col frames, OF row col]
  obtain before after where
    sp: "cells frames (enumerate 0 DIRECTIONS) = before @ (row, col, ?p) # after"
    and af: "\<forall>c\<in>set after. row < fst c \<or> (row = fst c \<and> col < fst (snd c))" by blast
  have later: "\<forall>c\<in>set after. \<not> covers fs c (x, y)"
  proof
    fix c assume c: "c \<in> set after"
    then have "c \<in> set (cells frames (enumerate 0 DIRECTIONS))" unfolding sp by simp
    moreover have "row < fst c \<or> (row = fst c \<and> col < fst (snd c))" using af c by blast
    ultimately show "\<not> covers fs c (x, y)" using now unfolding overwritten_def by auto
  qed
  have w: "width (blank_sheet frames) = frame_count frames * 104" "height (blank_sheet frames) = 832"
    by (simp_all add: blank_sheet_def Image_new_def FRAME_WIDTH_def FRAME_HEIGHT_def length_DIRECTIONS)
  have "px (snd (fold (paste_cell fs) (cells frames (enumerate 0 DIRECTIONS))
                  (no_effects, blank_sheet frames))) (x, y) =
           px frame (x - col * FRAME_WIDTH, y - row * FRAME_HEIGHT)"
    by (rule fold_paste_last_writer[OF sp dec later])
       (use inx iny w in \<open>simp_all add: FRAME_WIDTH_def FRAME_HEIGHT_def\<close>)
  then show ?thesis by (simp add: composed_def FRAME_WIDTH_def FRAME_HEIGHT_def)
qed

lemma composed_uncovered:
  assumes "\<not> covered fs frames (x, y)"
  shows "px (composed fs frames) (x, y) = (0, 0, 0, 0)"
proof -
  have "\<forall>c\<in>set (cells frames (enumerate 0 DIRECTIONS)). \<not> covers fs c (x, y)"
    using assms by (simp add: covered_def)
  from fold_paste_untouched[OF this, of no_effects "blank_sheet frames"]
  show ?thesis by (simp add: composed_def blank_sheet_facts)
qed

lemma fits_covers:
  assumes "fits fs frames" and "c \<in> set (cells frames (enumerate 0 DIRECTIONS))"
    and "covers fs c (x, y)"
  shows "fst (snd c) = x div 104 \<and> fst c = y div 104"
proof -
  obtain r k p where c: "c = (r, k, p)" by (cases c)
  from assms(3) obtain frame where d: "decode fs p = Some frame"
    and x: "k * 104 \<le> x" "x < k * 104 + width frame"
    and y: "r * 104 \<le> y" "y < r * 104 + height frame"
    by (auto simp: covers_def c FRAME_WIDTH_def FRAME_HEIGHT_def split: option.splits)
  from assms(1,2) d have "width frame \<le> 104" "height frame \<le> 104"
    by (auto simp: fits_def c FRAME_WIDTH_def FRAME_HEIGHT_def split: option.splits)
  then have "k * 104 \<le> x \<and> x < (k + 1) * 104" "r * 104 \<le> y \<and> y < (r + 1) * 104"
    using x y by simp_all
  then have "x div 104 = k" "y div 104 = r"
    by (simp_all add: div_nat_eqI mult.commute)
  then show ?thesis by (simp add: c)
qed

lemma cell_in_sheet:
  assumes "row < length DIRECTIONS" and "col < length (frames (DIRECTIONS ! row))"
  shows "(col + 1) * 104 \<le> frame_count frames * 104 \<and> (row + 1) * 104 \<le> 832"
proof -
  have "length (frames (DIRECTIONS ! row)) \<le> frame_count frames"
    using assms(1) by (intro frame_count_ge nth_mem)
  then have "col + 1 \<le> frame_count frames" using assms(2) by simp
  moreover have "row + 1 \<le> 8" using assms(1) by (simp add: length_DIRECTIONS)
  ultimately show ?thesis by simp
qed

lemma failed_not_covers: "decode fs p = None \<Longrightarrow> \<not> covers fs (r, k, p) xy"
  by (cases xy) (simp add: covers_def)

lemma fits_failed_cell_uncovered:
  assumes fit: "fits fs frames"
    and row: "row < length DIRECTIONS" and col: "col < length (frames (DIRECTIONS ! row))"
    and dec: "decode fs (frames (DIRECTIONS ! row) ! col) = None"
    and x: "col * 104 \<le> x" "x < (col + 1) * 104"
    and y: "row * 104 \<le> y" "y < (row + 1) * 104"
  shows "\<not> covered fs frames (x, y)"
proof
  assume "covered fs frames (x, y)"
  then obtain c where c: "c \<in> set (cells frames (enumerate 0 DIRECTIONS))" "covers fs c (x, y)"
    by (auto simp: covered_def)
  obtain r k p where rkp: "c = (r, k, p)" by (cases c)
  have "x div 104 = col" "y div 104 = row" using x y by (simp_all add: div_nat_eqI mult.commute)
  with fits_covers[OF fit c] have "k = col" "r = row" by (simp_all add: rkp)
  with c(1) have "p = frames (DIRECTIONS ! row) ! col" by (simp add: rkp in_cells_DIRECTIONS)
  with dec c(2) show False using failed_not_covers[of fs p r k "(x, y)"] by (simp add: rkp)
qed

subsection \<open>Where a frame is placed\<close>

lemma create_spritesheet_composed:
  assumes ex: "exists fs (animation_dir fs f)"
    and fr: "\<forall>d\<in>set DIRECTIONS. discovered fs (animation_dir fs f) d = Inr (frames d)"
    and row: "row < length DIRECTIONS" and col: "col < length (frames (DIRECTIONS ! row))"
  shows "create_spritesheet fs n f p out =
           save fs (composed fs frames) p (out\<lparr>stdout := stdout out @ assembly_log fs n f frames\<rparr>)"
proof -
  have "frames (DIRECTIONS ! row) \<noteq> []" using col by auto
  then have "0 < frame_count frames" using row by (auto simp: frame_count_pos_iff)
  then show ?thesis using create_spritesheet_found[OF ex fr, of n p out] by simp
qed

text \<open>
  C2. Take an animation whose folder exists and whose eight directions are discovered, a
  direction \<open>d\<close> whose index in \<open>DIRECTIONS\<close> is \<open>row\<close>, and a position \<open>i\<close> in the frame list
  of \<open>d\<close>. The two loops visit that frame as cell \<open>(row, i)\<close> and visit no other frame as
  that cell (the loops are the fold of the loop body over \<open>cells\<close>); when the frame
  decodes, the loop body pastes it at the origin \<open>(i * 104, row * 104)\<close>; and in the sheet
  that \<open>create_spritesheet\<close> hands to \<open>save\<close>, the pixel \<open>(x, y)\<close> of the frame, within the
  104 by 104 cell, is found at \<open>(i * 104 + x, row * 104 + y)\<close> unless a frame pasted later
  covers that place. The origin is a function of \<open>i\<close> and of the index of \<open>d\<close> alone.
\<close>

theorem frame_placement:
  assumes ex: "exists fs (animation_dir fs f)"
    and fr: "\<forall>d\<in>set DIRECTIONS. discovered fs (animation_dir fs f) d = Inr (frames d)"
    and idx: "index_of DIRECTIONS d = Some row"
    and i: "i < length (frames d)"
  shows "(row, i, frames d ! i) \<in> set (cells frames (enumerate 0 DIRECTIONS)) \<and>
         (\<forall>q. (row, i, q) \<in> set (cells frames (enumerate 0 DIRECTIONS)) \<longrightarrow> q = frames d ! i) \<and>
         (\<forall>e sheet.
            paste_rows fs (\<lambda>d. if d \<in> set DIRECTIONS then Some (frames d) else None)
              (enumerate 0 DIRECTIONS) (e, sheet) =
              (fst (fold (paste_cell fs) (cells frames (enumerate 0 DIRECTIONS)) (e, sheet)),
               Inr (snd (fold (paste_cell fs) (cells frames (enumerate 0 DIRECTIONS)) (e, sheet))))) \<and>
         (\<forall>frame e sheet. decode fs (frames d ! i) = Some frame \<longrightarrow>
            paste_frame fs row (i, frames d ! i) (e, sheet) =
              (e, paste sheet frame (i * 104, row * 104))) \<and>
         create_spritesheet fs n f p out =
           save fs (composed fs frames) p
             (out\<lparr>stdout := stdout out @ assembly_log fs n f frames\<rparr>) \<and>
         (\<forall>frame x y. decode fs (frames d ! i) = Some frame \<and>
            x < width frame \<and> x < 104 \<and> y < height frame \<and> y < 104 \<and>
            \<not> overwritten fs frames (row, i) (i * 104 + x, row * 104 + y) \<longrightarrow>
            px (composed fs frames) (i * 104 + x, row * 104 + y) = px frame (x, y))"
proof -
  from index_of_SomeD[OF idx] have row: "row < length DIRECTIONS" and d: "DIRECTIONS ! row = d"
    by simp_all
  have col: "i < length (frames (DIRECTIONS ! row))" using i d by simp
  have c1: "(row, i, frames d ! i) \<in> set (cells frames (enumerate 0 DIRECTIONS))"
    using row i d by (simp add: in_cells_DIRECTIONS)
  have c2: "\<forall>q. (row, i, q) \<in> set (cells frames (enumerate 0 DIRECTIONS)) \<longrightarrow> q = frames d ! i"
    using d by (simp add: in_cells_DIRECTIONS)
  have c3: "\<forall>e sheet.
            paste_rows fs (\<lambda>d. if d \<in> set DIRECTIONS then Some (frames d) else None)
              (enumerate 0 DIRECTIONS) (e, sheet) =
              (fst (fold (paste_cell fs) (cells frames (enumerate 0 DIRECTIONS)) (e, sheet)),
               Inr (snd (fold (paste_cell fs) (cells frames (enumerate 0 DIRECTIONS)) (e, sheet))))"
    by (simp add: paste_rows_DIRECTIONS)
  have c4: "\<forall>frame e sheet. decode fs (frames d ! i) = Some frame \<longrightarrow>
            paste_frame fs row (i, frames d ! i) (e, sheet) =
              (e, paste sheet frame (i * 104, row * 104))"
    by (simp add: FRAME_WIDTH_def FRAME_HEIGHT_def)
  have c5: "create_spritesheet fs n f p out =
           save fs (composed fs frames) p
             (out\<lparr>stdout := stdout out @ assembly_log fs n f frames\<rparr>)"
    by (rule create_spritesheet_composed[where frames = frames, OF ex fr row col])
  have c6: "\<forall>frame x y. decode fs (frames d ! i) = Some frame \<and>
            x < width frame \<and> x < 104 \<and> y < height frame \<and> y < 104 \<and>
            \<not> overwritten fs frames (row, i) (i * 104 + x, row * 104 + y) \<longrightarrow>
            px (composed fs frames) (i * 104 + x, row * 104 + y) = px frame (x, y)"
  proof (intro allI impI)
    fix frame x y
    assume a: "decode fs (frames d ! i) = Some frame \<and>
            x < width frame \<and> x < 104 \<and> y < height frame \<and> y < 104 \<and>
            \<not> overwritten fs frames (row, i) (i * 104 + x, row * 104 + y)"
    from cell_in_sheet[where frames = frames, OF row col]
    have b: "i * 104 + x < frame_count frames * 104" "row * 104 + y < 832" using a by simp_all
    have dec: "decode fs (frames (DIRECTIONS ! row) ! i) = Some frame" using a d by simp
    from composed_last_writer[where frames = frames and x = "i * 104 + x" and y = "row * 104 + y",
        OF row col dec] a b
    show "px (composed fs frames) (i * 104 + x, row * 104 + y) = px frame (x, y)" by simp
  qed
  show ?thesis using c1 c2 c3 c4 c5 c6 by blast
qed

lemma idle_not_overwritten: "\<not> overwritten demo idle_frames (0, 0) (5, 7)"
  by (simp add: overwritten_def idle_cells covers_def demo_decode)

theorem frame_placement_witness:
  "exists demo (animation_dir demo ''breathing-idle'') \<and>
   map (discovered demo (animation_dir demo ''breathing-idle'')) DIRECTIONS =
     map (\<lambda>d. Inr (idle_frames d)) DIRECTIONS \<and>
   index_of DIRECTIONS ''south'' = Some 0 \<and>
   0 < length (idle_frames ''south'') \<and>
   idle_frames ''south'' ! 0 = ''/g/animations/breathing-idle/south/frame_0.png'' \<and>
   (0, 0, ''/g/animations/breathing-idle/south/frame_0.png'')
     \<in> set (cells idle_frames (enumerate 0 DIRECTIONS)) \<and>
   decode demo ''/g/animations/breathing-idle/south/frame_0.png'' =
     Some \<lparr>width = 208, height = 104, px = (\<lambda>_. white)\<rparr> \<and>
   overwritten demo idle_frames (0, 0) (0 * 104 + 5, 0 * 104 + 7) = False \<and>
   create_spritesheet demo ''idle'' ''breathing-idle'' ''/g/spritesheets/idle.png'' no_effects =
     save demo (composed demo idle_frames) ''/g/spritesheets/idle.png''
       (no_effects\<lparr>stdout := stdout no_effects @
          assembly_log demo ''idle'' ''breathing-idle'' idle_frames\<rparr>) \<and>
   px (composed demo idle_frames) (0 * 104 + 5, 0 * 104 + 7) = white"
proof -
  have m: "map (discovered demo (animation_dir demo ''breathing-idle'')) DIRECTIONS =
     map (\<lambda>d. Inr (idle_frames d)) DIRECTIONS"
    using demo_idle_discovered by simp
  have ix: "index_of DIRECTIONS ''south'' = Some 0" by (simp add: DIRECTIONS_def)
  have i: "0 < length (idle_frames ''south'')" by (simp add: idle_frames_def)
  have f0: "idle_frames ''south'' ! 0 = ''/g/animations/breathing-idle/south/frame_0.png''"
    by (simp add: idle_frames_def)
  have ov: "overwritten demo idle_frames (0, 0) (0 * 104 + 5, 0 * 104 + 7) = False"
    using idle_not_overwritten by simp
  note t = frame_placement[OF demo_idle_exists demo_idle_discovered ix i,
      of "''idle''" "''/g/spritesheets/idle.png''" no_effects, unfolded f0]
  have t1: "(0, 0, ''/g/animations/breathing-idle/south/frame_0.png'')
     \<in> set (cells idle_frames (enumerate 0 DIRECTIONS))"
    using conjunct1[OF t] .
  have t5: "create_spritesheet demo ''idle'' ''breathing-idle'' ''/g/spritesheets/idle.png'' no_effects =
     save demo (composed demo idle_frames) ''/g/spritesheets/idle.png''
       (no_effects\<lparr>stdout := stdout no_effects @
          assembly_log demo ''idle'' ''breathing-idle'' idle_frames\<rparr>)"
    using conjunct1[OF conjunct2[OF conjunct2[OF conjunct2[OF conjunct2[OF t]]]]] .
  have t6: "px (composed demo idle_frames) (0 * 104 + 5, 0 * 104 + 7) = white"
    using conjunct2[OF conjunct2[OF conjunct2[OF conjunct2[OF conjunct2[OF t]]]]]
      demo_decode(1) ov by simp
  show ?thesis using demo_idle_exists m ix i f0 t1 demo_decode(1) ov t5 t6 by blast
qed

subsection \<open>Frames that are not 104 by 104\<close>

lemma fits_outside_frame_uncovered:
  assumes fit: "fits fs frames"
    and row: "row < length DIRECTIONS" and col: "col < length (frames (DIRECTIONS ! row))"
    and dec: "decode fs (frames (DIRECTIONS ! row) ! col) = Some frame"
    and x: "col * 104 \<le> x" "x < (col + 1) * 104"
    and y: "row * 104 \<le> y" "y < (row + 1) * 104"
    and out: "\<not> (x < col * 104 + width frame \<and> y < row * 104 + height frame)"
  shows "\<not> covered fs frames (x, y)"
proof
  assume "covered fs frames (x, y)"
  then obtain c where c: "c \<in> set (cells frames (enumerate 0 DIRECTIONS))" "covers fs c (x, y)"
    by (auto simp: covered_def)
  obtain r k q where rkq: "c = (r, k, q)" by (cases c)
  have "x div 104 = col" "y div 104 = row" using x y by (simp_all add: div_nat_eqI mult.commute)
  with fits_covers[OF fit c] have "k = col" "r = row" by (simp_all add: rkq)
  with c(1) have "q = frames (DIRECTIONS ! row) ! col" by (simp add: rkq in_cells_DIRECTIONS)
  with c(2) dec \<open>k = col\<close> \<open>r = row\<close>
  have "x < col * 104 + width frame \<and> y < row * 104 + height frame"
    by (simp add: covers_def rkq FRAME_WIDTH_def FRAME_HEIGHT_def)
  with out show False by simp
qed

lemma run_cells:
  "cells run_frames (enumerate 0 DIRECTIONS) =
     [(2, 0, ''/g/animations/running-6-frames/east/frame_0.png'')]"
  by (simp add: cells_def DIRECTIONS_def run_frames_def enumerate_eq_zip)

lemma demo_run_fits: "fits demo run_frames"
  by (simp add: fits_def run_cells demo_decode FRAME_WIDTH_def FRAME_HEIGHT_def)

lemma idle_neighbour_not_overwritten: "\<not> overwritten demo idle_frames (0, 0) (150, 10)"
  by (simp add: overwritten_def idle_cells covers_def demo_decode)

lemma DIRECTIONS_nth: "DIRECTIONS ! 0 = ''south''" "DIRECTIONS ! 2 = ''east''"
  by (simp_all add: DIRECTIONS_def)

lemma run_frame_count: "frame_count run_frames = 1"
  by (simp add: frame_count_def DIRECTIONS_def run_frames_def)

text \<open>
  C10. No step compares the size of a frame with 104. For a frame that decodes and is
  visited as cell \<open>(row, col)\<close>: the loop body pastes it at \<open>(col * 104, row * 104)\<close>
  whatever its width and height; the paste overwrites the rectangle of the frame's own
  size at that origin, clipped to the sheet, and nothing else. So in the sheet handed to
  \<open>save\<close> every pixel of that rectangle holds the frame's pixel unless a frame pasted later
  covers it, also outside the 104 by 104 cell, in the cells to the right and below, when
  the frame is larger. When every frame that decodes is at most 104 by 104, the part of
  the cell outside the frame's rectangle is transparent.
\<close>

theorem frame_size_unchecked:
  assumes ex: "exists fs (animation_dir fs f)"
    and fr: "\<forall>d\<in>set DIRECTIONS. discovered fs (animation_dir fs f) d = Inr (frames d)"
    and row: "row < length DIRECTIONS"
    and col: "col < length (frames (DIRECTIONS ! row))"
    and dec: "decode fs (frames (DIRECTIONS ! row) ! col) = Some frame"
  shows "(\<forall>e sheet. paste_frame fs row (col, frames (DIRECTIONS ! row) ! col) (e, sheet) =
            (e, paste sheet frame (col * 104, row * 104))) \<and>
         (\<forall>sheet x y. px (paste sheet frame (col * 104, row * 104)) (x, y) =
            (if col * 104 \<le> x \<and> x < col * 104 + width frame \<and> x < width sheet \<and>
                row * 104 \<le> y \<and> y < row * 104 + height frame \<and> y < height sheet
             then px frame (x - col * 104, y - row * 104) else px sheet (x, y))) \<and>
         create_spritesheet fs n f p out =
           save fs (composed fs frames) p
             (out\<lparr>stdout := stdout out @ assembly_log fs n f frames\<rparr>) \<and>
         (\<forall>x y. col * 104 \<le> x \<and> x < col * 104 + width frame \<and> x < width (composed fs frames) \<and>
            row * 104 \<le> y \<and> y < row * 104 + height frame \<and> y < height (composed fs frames) \<and>
            \<not> overwritten fs frames (row, col) (x, y) \<longrightarrow>
            px (composed fs frames) (x, y) = px frame (x - col * 104, y - row * 104)) \<and>
         (fits fs frames \<longrightarrow>
            (\<forall>x y. col * 104 \<le> x \<and> x < (col + 1) * 104 \<and> row * 104 \<le> y \<and> y < (row + 1) * 104 \<and>
               \<not> (x < col * 104 + width frame \<and> y < row * 104 + height frame) \<longrightarrow>
               px (composed fs frames) (x, y) = (0, 0, 0, 0)))"
proof -
  let ?q = "frames (DIRECTIONS ! row) ! col"
  have c1: "\<forall>e sheet. paste_frame fs row (col, ?q) (e, sheet) =
            (e, paste sheet frame (col * 104, row * 104))"
    using dec by (simp add: FRAME_WIDTH_def FRAME_HEIGHT_def)
  have c2: "\<forall>sheet x y. px (paste sheet frame (col * 104, row * 104)) (x, y) =
            (if col * 104 \<le> x \<and> x < col * 104 + width frame \<and> x < width sheet \<and>
                row * 104 \<le> y \<and> y < row * 104 + height frame \<and> y < height sheet
             then px frame (x - col * 104, y - row * 104) else px sheet (x, y))"
    by (simp add: paste_px)
  have c3: "create_spritesheet fs n f p out =
           save fs (composed fs frames) p
             (out\<lparr>stdout := stdout out @ assembly_log fs n f frames\<rparr>)"
    by (rule create_spritesheet_composed[where frames = frames, OF ex fr row col])
  have c4: "\<forall>x y. col * 104 \<le> x \<and> x < col * 104 + width frame \<and> x < width (composed fs frames) \<and>
            row * 104 \<le> y \<and> y < row * 104 + height frame \<and> y < height (composed fs frames) \<and>
            \<not> overwritten fs frames (row, col) (x, y) \<longrightarrow>
            px (composed fs frames) (x, y) = px frame (x - col * 104, y - row * 104)"
    using composed_last_writer[where frames = frames, OF row col dec]
    by (simp add: composed_size)
  have c5: "fits fs frames \<longrightarrow>
            (\<forall>x y. col * 104 \<le> x \<and> x < (col + 1) * 104 \<and> row * 104 \<le> y \<and> y < (row + 1) * 104 \<and>
               \<not> (x < col * 104 + width frame \<and> y < row * 104 + height frame) \<longrightarrow>
               px (composed fs frames) (x, y) = (0, 0, 0, 0))"
  proof (intro impI allI)
    fix x y
    assume fit: "fits fs frames"
      and a: "col * 104 \<le> x \<and> x < (col + 1) * 104 \<and> row * 104 \<le> y \<and> y < (row + 1) * 104 \<and>
               \<not> (x < col * 104 + width frame \<and> y < row * 104 + height frame)"
    have "\<not> covered fs frames (x, y)"
      by (rule fits_outside_frame_uncovered[where frames = frames, OF fit row col dec])
         (use a in simp_all)
    then show "px (composed fs frames) (x, y) = (0, 0, 0, 0)" by (rule composed_uncovered)
  qed
  show ?thesis using c1 c2 c3 c4 c5 by blast
qed

theorem frame_size_unchecked_witness:
  "exists demo (animation_dir demo ''breathing-idle'') \<and>
   map (discovered demo (animation_dir demo ''breathing-idle'')) DIRECTIONS =
     map (\<lambda>d. Inr (idle_frames d)) DIRECTIONS \<and>
   0 < length DIRECTIONS \<and> 0 < length (idle_frames (DIRECTIONS ! 0)) \<and>
   decode demo (idle_frames (DIRECTIONS ! 0) ! 0) =
     Some \<lparr>width = 208, height = 104, px = (\<lambda>_. white)\<rparr> \<and>
   overwritten demo idle_frames (0, 0) (150, 10) = False \<and>
   px (composed demo idle_frames) (150, 10) = white \<and>
   exists demo (animation_dir demo ''running-6-frames'') \<and>
   map (discovered demo (animation_dir demo ''running-6-frames'')) DIRECTIONS =
     map (\<lambda>d. Inr (run_frames d)) DIRECTIONS \<and>
   2 < length DIRECTIONS \<and> 0 < length (run_frames (DIRECTIONS ! 2)) \<and>
   decode demo (run_frames (DIRECTIONS ! 2) ! 0) =
     Some \<lparr>width = 50, height = 50, px = (\<lambda>_. white)\<rparr> \<and>
   px (composed demo run_frames) (60, 268) = (0, 0, 0, 0) \<and>
   px (composed demo run_frames) (20, 228) = white"
proof -
  have m1: "map (discovered demo (animation_dir demo ''breathing-idle'')) DIRECTIONS =
     map (\<lambda>d. Inr (idle_frames d)) DIRECTIONS"
    using demo_idle_discovered by simp
  have m2: "map (discovered demo (animation_dir demo ''running-6-frames'')) DIRECTIONS =
     map (\<lambda>d. Inr (run_frames d)) DIRECTIONS"
    using demo_run_discovered by simp
  have r0: "0 < length DIRECTIONS" and r2: "2 < length DIRECTIONS"
    by (simp_all add: length_DIRECTIONS)
  have k0: "0 < length (idle_frames (DIRECTIONS ! 0))"
    by (simp add: DIRECTIONS_nth idle_frames_def)
  have k2: "0 < length (run_frames (DIRECTIONS ! 2))"
    by (simp add: DIRECTIONS_nth run_frames_def)
  have d0: "decode demo (idle_frames (DIRECTIONS ! 0) ! 0) =
     Some \<lparr>width = 208, height = 104, px = (\<lambda>_. white)\<rparr>"
    by (simp add: DIRECTIONS_nth idle_frames_def demo_decode)
  have d2: "decode demo (run_frames (DIRECTIONS ! 2) ! 0) =
     Some \<lparr>width = 50, height = 50, px = (\<lambda>_. white)\<rparr>"
    by (simp add: DIRECTIONS_nth run_frames_def demo_decode)
  have ov: "overwritten demo idle_frames (0, 0) (150, 10) = False"
    using idle_neighbour_not_overwritten by simp
  have ov2: "\<not> overwritten demo run_frames (2, 0) (20, 228)"
    by (simp add: overwritten_def run_cells)
  note t = frame_size_unchecked[OF demo_idle_exists demo_idle_discovered r0 k0 d0,
      of "''idle''" "''/g/spritesheets/idle.png''" no_effects]
  note u = frame_size_unchecked[OF demo_run_exists demo_run_discovered r2 k2 d2,
      of "''run''" "''/g/spritesheets/run.png''" no_effects]
  have t4: "px (composed demo idle_frames) (150, 10) = white"
    using conjunct1[OF conjunct2[OF conjunct2[OF conjunct2[OF t]]]] ov
    by (simp add: composed_size idle_frame_count')
  have u4: "px (composed demo run_frames) (20, 228) = white"
    using conjunct1[OF conjunct2[OF conjunct2[OF conjunct2[OF u]]]] ov2
    by (simp add: composed_size run_frame_count)
  have u5: "px (composed demo run_frames) (60, 268) = (0, 0, 0, 0)"
    using conjunct2[OF conjunct2[OF conjunct2[OF conjunct2[OF u]]]] demo_run_fits by simp
  show ?thesis
    using demo_idle_exists m1 r0 k0 d0 ov t4 demo_run_exists m2 r2 k2 d2 u5 u4 by blast
qed

subsection \<open>A frame that does not decode\<close>

lemma demo_exact_fields:
  "file_dir demo_exact = file_dir demo" "tree demo_exact = tree demo"
  "decode demo_exact ''/g/animations/breathing-idle/south/frame_0.png'' =
     Some \<lparr>width = 104, height = 104, px = (\<lambda>_. white)\<rparr>"
  "decode demo_exact ''/g/animations/breathing-idle/south/frame_1.png'' = None"
  by (simp_all add: demo_exact_def)

lemma demo_exact_idle:
  "exists demo_exact (animation_dir demo_exact ''breathing-idle'')"
  "\<forall>d\<in>set DIRECTIONS.
     discovered demo_exact (animation_dir demo_exact ''breathing-idle'') d = Inr (idle_frames d)"
  using demo_idle_exists demo_idle_discovered
  by (simp_all add: animation_dir_same[OF demo_exact_fields(1)]
      exists_same_tree[OF demo_exact_fields(2)]
      discovered_same_tree[OF demo_exact_fields(2)])

lemma demo_exact_fits: "fits demo_exact idle_frames"
  by (simp add: fits_def idle_cells demo_exact_fields FRAME_WIDTH_def FRAME_HEIGHT_def)

lemma load_errors_mem:
  assumes "row < length DIRECTIONS" and "col < length (frames (DIRECTIONS ! row))"
    and "decode fs (frames (DIRECTIONS ! row) ! col) = None"
  shows "ErrorLoading (frames (DIRECTIONS ! row) ! col) \<in> set (load_errors fs frames)"
proof -
  let ?q = "frames (DIRECTIONS ! row) ! col"
  have "(row, col, ?q) \<in> set (cells frames (enumerate 0 DIRECTIONS))"
    using assms(1,2) by (simp add: in_cells_DIRECTIONS)
  then have "?q \<in> set (map (\<lambda>c. snd (snd c)) (cells frames (enumerate 0 DIRECTIONS)))"
    by force
  then show ?thesis using assms(3) by (simp add: load_errors_def)
qed

text \<open>
  C6, as amended. For a frame that fails to decode and is visited as cell \<open>(row, col)\<close>:
  the loop body prints the error line and leaves the sheet as it was; the loops go on and
  \<open>create_spritesheet\<close> reaches \<open>save\<close> with the sheet composed from all the frames, the
  error line being among the lines printed. In that sheet every pixel that no decoded
  frame covers is transparent; so the cell of the failed frame is transparent throughout
  when every frame that decodes is at most 104 by 104.
\<close>

theorem decode_failure_skipped:
  assumes ex: "exists fs (animation_dir fs f)"
    and fr: "\<forall>d\<in>set DIRECTIONS. discovered fs (animation_dir fs f) d = Inr (frames d)"
    and row: "row < length DIRECTIONS"
    and col: "col < length (frames (DIRECTIONS ! row))"
    and dec: "decode fs (frames (DIRECTIONS ! row) ! col) = None"
  shows "(\<forall>e sheet. paste_frame fs row (col, frames (DIRECTIONS ! row) ! col) (e, sheet) =
            (print (ErrorLoading (frames (DIRECTIONS ! row) ! col)) e, sheet)) \<and>
         create_spritesheet fs n f p out =
           save fs (composed fs frames) p
             (out\<lparr>stdout := stdout out @ assembly_log fs n f frames\<rparr>) \<and>
         ErrorLoading (frames (DIRECTIONS ! row) ! col) \<in> set (assembly_log fs n f frames) \<and>
         (\<forall>x y. \<not> covered fs frames (x, y) \<longrightarrow> px (composed fs frames) (x, y) = (0, 0, 0, 0)) \<and>
         (fits fs frames \<longrightarrow>
            (\<forall>x y. col * 104 \<le> x \<and> x < (col + 1) * 104 \<and> row * 104 \<le> y \<and> y < (row + 1) * 104 \<longrightarrow>
               px (composed fs frames) (x, y) = (0, 0, 0, 0)))"
proof -
  let ?q = "frames (DIRECTIONS ! row) ! col"
  have c1: "\<forall>e sheet. paste_frame fs row (col, ?q) (e, sheet) = (print (ErrorLoading ?q) e, sheet)"
    using dec by simp
  have c2: "create_spritesheet fs n f p out =
           save fs (composed fs frames) p
             (out\<lparr>stdout := stdout out @ assembly_log fs n f frames\<rparr>)"
    by (rule create_spritesheet_composed[where frames = frames, OF ex fr row col])
  have c3: "ErrorLoading ?q \<in> set (assembly_log fs n f frames)"
    using load_errors_mem[where frames = frames, OF row col dec] by (simp add: assembly_log_def)
  have c4: "\<forall>x y. \<not> covered fs frames (x, y) \<longrightarrow> px (composed fs frames) (x, y) = (0, 0, 0, 0)"
    by (simp add: composed_uncovered)
  have c5: "fits fs frames \<longrightarrow>
            (\<forall>x y. col * 104 \<le> x \<and> x < (col + 1) * 104 \<and> row * 104 \<le> y \<and> y < (row + 1) * 104 \<longrightarrow>
               px (composed fs frames) (x, y) = (0, 0, 0, 0))"
  proof (intro impI allI)
    fix x y
    assume fit: "fits fs frames"
      and a: "col * 104 \<le> x \<and> x < (col + 1) * 104 \<and> row * 104 \<le> y \<and> y < (row + 1) * 104"
    have "\<not> covered fs frames (x, y)"
      by (rule fits_failed_cell_uncovered[where frames = frames, OF fit row col dec])
         (use a in simp_all)
    then show "px (composed fs frames) (x, y) = (0, 0, 0, 0)" by (rule composed_uncovered)
  qed
  show ?thesis using c1 c2 c3 c4 c5 by blast
qed

theorem decode_failure_skipped_witness:
  "exists demo_exact (animation_dir demo_exact ''breathing-idle'') \<and>
   map (discovered demo_exact (animation_dir demo_exact ''breathing-idle'')) DIRECTIONS =
     map (\<lambda>d. Inr (idle_frames d)) DIRECTIONS \<and>
   0 < length DIRECTIONS \<and> 1 < length (idle_frames (DIRECTIONS ! 0)) \<and>
   idle_frames (DIRECTIONS ! 0) ! 1 = ''/g/animations/breathing-idle/south/frame_1.png'' \<and>
   decode demo_exact ''/g/animations/breathing-idle/south/frame_1.png'' = None \<and>
   decode demo_exact ''/g/animations/breathing-idle/south/frame_0.png'' =
     Some \<lparr>width = 104, height = 104, px = (\<lambda>_. white)\<rparr> \<and>
   create_spritesheet demo_exact ''idle'' ''breathing-idle'' ''/g/spritesheets/idle.png'' no_effects =
     save demo_exact (composed demo_exact idle_frames) ''/g/spritesheets/idle.png''
       (no_effects\<lparr>stdout := stdout no_effects @
          assembly_log demo_exact ''idle'' ''breathing-idle'' idle_frames\<rparr>) \<and>
   ErrorLoading ''/g/animations/breathing-idle/south/frame_1.png''
     \<in> set (assembly_log demo_exact ''idle'' ''breathing-idle'' idle_frames) \<and>
   px (composed demo_exact idle_frames) (104, 0) = (0, 0, 0, 0) \<and>
   px (composed demo_exact idle_frames) (207, 103) = (0, 0, 0, 0)"
proof -
  have m: "map (discovered demo_exact (animation_dir demo_exact ''breathing-idle'')) DIRECTIONS =
     map (\<lambda>d. Inr (idle_frames d)) DIRECTIONS"
    using demo_exact_idle(2) by simp
  have r0: "0 < length DIRECTIONS" by (simp add: length_DIRECTIONS)
  have k1: "1 < length (idle_frames (DIRECTIONS ! 0))"
    by (simp add: DIRECTIONS_nth idle_frames_def)
  have q: "idle_frames (DIRECTIONS ! 0) ! 1 = ''/g/animations/breathing-idle/south/frame_1.png''"
    by (simp add: DIRECTIONS_nth idle_frames_def)
  have d: "decode demo_exact (idle_frames (DIRECTIONS ! 0) ! 1) = None"
    unfolding q by (rule demo_exact_fields)
  note t = decode_failure_skipped[OF demo_exact_idle r0 k1 d,
      of "''idle''" "''/g/spritesheets/idle.png''" no_effects, unfolded q]
  have t2: "create_spritesheet demo_exact ''idle'' ''breathing-idle'' ''/g/spritesheets/idle.png'' no_effects =
     save demo_exact (composed demo_exact idle_frames) ''/g/spritesheets/idle.png''
       (no_effects\<lparr>stdout := stdout no_effects @
          assembly_log demo_exact ''idle'' ''breathing-idle'' idle_frames\<rparr>)"
    using conjunct1[OF conjunct2[OF t]] .
  have t3: "ErrorLoading ''/g/animations/breathing-idle/south/frame_1.png''
     \<in> set (assembly_log demo_exact ''idle'' ''breathing-idle'' idle_frames)"
    using conjunct1[OF conjunct2[OF conjunct2[OF t]]] .
  have t5: "px (composed demo_exact idle_frames) (104, 0) = (0, 0, 0, 0)"
    "px (composed demo_exact idle_frames) (207, 103) = (0, 0, 0, 0)"
    using conjunct2[OF conjunct2[OF conjunct2[OF conjunct2[OF t]]]] demo_exact_fits by simp_all
  show ?thesis
    using demo_exact_idle(1) m r0 k1 q demo_exact_fields(3,4) t2 t3 t5 by blast
qed

text \<open>
  The claim as stated, that the cell of a failed frame is left transparent, fails in the
  example installation: the second frame facing south does not decode, its cell begins at
  \<open>(104, 0)\<close>, and that pixel of the saved sheet is white, from the 208 pixel wide first
  frame.
\<close>

theorem decode_failure_cell_not_blank:
  "idle_frames (DIRECTIONS ! 0) ! 1 = ''/g/animations/breathing-idle/south/frame_1.png'' \<and>
   decode demo ''/g/animations/breathing-idle/south/frame_1.png'' = None \<and>
   written (fst (create_spritesheet demo ''idle'' ''breathing-idle'' ''/g/spritesheets/idle.png''
                   no_effects)) ''/g/spritesheets/idle.png'' = Some (composed demo idle_frames) \<and>
   px (composed demo idle_frames) (1 * 104, 0 * 104) = (255, 255, 255, 255)"
proof -
  have q: "idle_frames (DIRECTIONS ! 0) ! 1 = ''/g/animations/breathing-idle/south/frame_1.png''"
    by (simp add: DIRECTIONS_nth idle_frames_def)
  have pos: "0 < frame_count idle_frames" by (simp add: idle_frame_count')
  have w: "writable demo ''/g/spritesheets/idle.png''" by (simp add: demo_fields)
  have s: "written (fst (create_spritesheet demo ''idle'' ''breathing-idle'' ''/g/spritesheets/idle.png''
                   no_effects)) ''/g/spritesheets/idle.png'' = Some (composed demo idle_frames)"
    using create_spritesheet_saved[OF demo_idle_exists demo_idle_discovered pos w, of "''idle''" no_effects]
    by simp
  have r0: "0 < length DIRECTIONS" by (simp add: length_DIRECTIONS)
  have k0: "0 < length (idle_frames (DIRECTIONS ! 0))"
    by (simp add: DIRECTIONS_nth idle_frames_def)
  have d0: "decode demo (idle_frames (DIRECTIONS ! 0) ! 0) =
     Some \<lparr>width = 208, height = 104, px = (\<lambda>_. white)\<rparr>"
    by (simp add: DIRECTIONS_nth idle_frames_def demo_decode)
  have ov: "\<not> overwritten demo idle_frames (0, 0) (104, 0)"
    by (simp add: overwritten_def idle_cells covers_def demo_decode)
  have "px (composed demo idle_frames) (104, 0) = white"
    using composed_last_writer[where frames = idle_frames and x = 104 and y = 0,
        OF r0 k0 d0 ov] by (simp add: idle_frame_count')
  then show ?thesis using q demo_decode(2) s by (simp add: white_def)
qed

subsection \<open>Running the assembly again\<close>

lemma discover_error:
  assumes "d \<in> set ds" and "discovered fs ap d = Inl e"
  shows "\<exists>e'. snd (discover fs ap ds (out, m, df)) = Inl e'"
  using assms
proof (induction ds arbitrary: out m df)
  case Nil then show ?case by simp
next
  case (Cons a ds)
  obtain o1 r1 where g: "get_frame_files fs ap a out = (o1, r1)"
    by (cases "get_frame_files fs ap a out")
  have r1: "r1 = discovered fs ap a" using get_frame_files_result[of fs ap a out] g by simp
  show ?case
  proof (cases r1)
    case (Inl e1)
    then show ?thesis using g by simp
  next
    case (Inr fr)
    then have "a \<noteq> d" using r1 Cons.prems(2) by auto
    then have "d \<in> set ds" using Cons.prems(1) by simp
    from Cons.IH[OF this Cons.prems(2),
        of "print (FrameCount a (length fr)) o1" "max m (length fr)" "df(a \<mapsto> fr)"]
    obtain e' where e': "snd (discover fs ap ds
        (print (FrameCount a (length fr)) o1, max m (length fr), df(a \<mapsto> fr))) = Inl e'"
      by blast
    have "discover fs ap (a # ds) (out, m, df) = discover fs ap ds
        (print (FrameCount a (length fr)) o1, max m (length fr), df(a \<mapsto> fr))"
      using g Inr by simp
    then show ?thesis using e' by simp
  qed
qed

lemma create_spritesheet_TrueD:
  assumes t: "snd (create_spritesheet fs n f p out) = Inr True"
  shows "exists fs (animation_dir fs f) \<and> writable fs p \<and>
         (\<exists>frames. (\<forall>d\<in>set DIRECTIONS. discovered fs (animation_dir fs f) d = Inr (frames d)) \<and>
                   0 < frame_count frames)"
proof -
  let ?ap = "animation_dir fs f"
  have ex: "exists fs ?ap"
  proof (rule ccontr)
    assume "\<not> exists fs ?ap"
    from create_spritesheet_missing[OF this, of n p out] t show False by simp
  qed
  have all: "\<forall>d\<in>set DIRECTIONS. \<exists>fr. discovered fs ?ap d = Inr fr"
  proof (rule ccontr)
    assume "\<not> (\<forall>d\<in>set DIRECTIONS. \<exists>fr. discovered fs ?ap d = Inr fr)"
    then obtain d e where d: "d \<in> set DIRECTIONS" "discovered fs ?ap d = Inl e"
      by (metis sum.exhaust)
    from discover_error[OF d, of "print (CreatingFrom n f) out" 0 Map.empty]
    obtain e' where e': "snd (discover fs ?ap DIRECTIONS (print (CreatingFrom n f) out, 0, Map.empty))
        = Inl e'" by blast
    obtain o1 where "discover fs ?ap DIRECTIONS (print (CreatingFrom n f) out, 0, Map.empty)
        = (o1, Inl e')"
      using e' by (cases "discover fs ?ap DIRECTIONS (print (CreatingFrom n f) out, 0, Map.empty)") simp
    then have "create_spritesheet fs n f p out = (o1, Inl e')"
      using ex by (simp add: create_spritesheet_def)
    with t show False by simp
  qed
  define frames where "frames = (\<lambda>d. case discovered fs ?ap d of Inr fr \<Rightarrow> fr | Inl e \<Rightarrow> [])"
  have fr: "\<forall>d\<in>set DIRECTIONS. discovered fs ?ap d = Inr (frames d)"
    using all by (auto simp: frames_def)
  note found = create_spritesheet_found[OF ex fr, of n p out]
  have pos: "0 < frame_count frames"
  proof (rule ccontr)
    assume "\<not> 0 < frame_count frames"
    with found t show False by simp
  qed
  have w: "writable fs p"
  proof (rule ccontr)
    assume "\<not> writable fs p"
    with found pos t show False by (simp add: save_def)
  qed
  show ?thesis using ex w fr pos by blast
qed

lemma composed_cong:
  assumes "\<forall>d\<in>set DIRECTIONS. \<forall>q\<in>set (frames d). decode fs q = decode fs' q"
  shows "composed fs frames = composed fs' frames"
proof -
  have "\<And>c. c \<in> set (cells frames (enumerate 0 DIRECTIONS)) \<Longrightarrow> paste_cell fs c = paste_cell fs' c"
  proof -
    fix c assume c: "c \<in> set (cells frames (enumerate 0 DIRECTIONS))"
    obtain r k q where rkq: "c = (r, k, q)" by (cases c)
    from cell_path_discovered[OF c] assms have "decode fs q = decode fs' q" by (auto simp: rkq)
    then show "paste_cell fs c = paste_cell fs' c"
      by (intro ext) (auto simp: paste_cell_def rkq)
  qed
  then have "fold (paste_cell fs) (cells frames (enumerate 0 DIRECTIONS))
        (no_effects, blank_sheet frames) =
      fold (paste_cell fs') (cells frames (enumerate 0 DIRECTIONS))
        (no_effects, blank_sheet frames)"
    by (intro fold_cong) simp_all
  then show ?thesis by (simp add: composed_def)
qed

text \<open>
  C8. The outcome of \<open>create_spritesheet\<close> and the sheet it saves do not depend on what has
  been printed or saved before: from any two effect histories the call returns or raises
  the same, and when it returns \<^verbatim>\<open>True\<close> the same sheet is at the output path after either;
  called again on the effects of its first run, it leaves the saved files as they are.
  The sheet depends only on the discovered frame files and on what they decode to: for two
  installations in which the animation folder exists, the same frame paths are discovered
  in each direction and each of these paths decodes alike, the sheets saved are equal,
  whatever the animation name, the output path and the rest of the installation.
\<close>

theorem assembly_deterministic:
  "snd (create_spritesheet fs n f p out') = snd (create_spritesheet fs n f p out) \<and>
   (snd (create_spritesheet fs n f p out) = Inr True \<longrightarrow>
      (\<exists>sheet. written (fst (create_spritesheet fs n f p out)) p = Some sheet \<and>
               written (fst (create_spritesheet fs n f p out')) p = Some sheet \<and>
               written (fst (create_spritesheet fs n f p
                               (fst (create_spritesheet fs n f p out)))) =
                 written (fst (create_spritesheet fs n f p out)))) \<and>
   (exists fs (animation_dir fs f) \<and> exists fs' (animation_dir fs' f') \<and>
    (\<forall>d\<in>set DIRECTIONS. discovered fs (animation_dir fs f) d = Inr (frames d)) \<and>
    (\<forall>d\<in>set DIRECTIONS. discovered fs' (animation_dir fs' f') d = Inr (frames d)) \<and>
    (\<forall>d\<in>set DIRECTIONS. \<forall>q\<in>set (frames d). decode fs q = decode fs' q) \<and>
    (\<exists>d\<in>set DIRECTIONS. frames d \<noteq> []) \<and> writable fs p \<and> writable fs' p'
    \<longrightarrow>
      (\<exists>sheet. written (fst (create_spritesheet fs n f p out)) p = Some sheet \<and>
               written (fst (create_spritesheet fs' n' f' p' out')) p' = Some sheet))"
proof (intro conjI impI)
  show "snd (create_spritesheet fs n f p out') = snd (create_spritesheet fs n f p out)"
    by (rule create_spritesheet_result_indep)
next
  assume t: "snd (create_spritesheet fs n f p out) = Inr True"
  from create_spritesheet_TrueD[OF t]
  obtain frames where ex: "exists fs (animation_dir fs f)" and w: "writable fs p"
    and fr: "\<forall>d\<in>set DIRECTIONS. discovered fs (animation_dir fs f) d = Inr (frames d)"
    and pos: "0 < frame_count frames" by blast
  note s = create_spritesheet_saved[OF ex fr pos w]
  have a: "written (fst (create_spritesheet fs n f p out)) p = Some (composed fs frames)"
    by (simp add: s)
  have b: "written (fst (create_spritesheet fs n f p out')) p = Some (composed fs frames)"
    by (simp add: s)
  have c: "written (fst (create_spritesheet fs n f p (fst (create_spritesheet fs n f p out)))) =
      written (fst (create_spritesheet fs n f p out))"
    by (simp add: s)
  show "\<exists>sheet. written (fst (create_spritesheet fs n f p out)) p = Some sheet \<and>
               written (fst (create_spritesheet fs n f p out')) p = Some sheet \<and>
               written (fst (create_spritesheet fs n f p
                               (fst (create_spritesheet fs n f p out)))) =
                 written (fst (create_spritesheet fs n f p out))"
    using a b c by blast
next
  assume h: "exists fs (animation_dir fs f) \<and> exists fs' (animation_dir fs' f') \<and>
    (\<forall>d\<in>set DIRECTIONS. discovered fs (animation_dir fs f) d = Inr (frames d)) \<and>
    (\<forall>d\<in>set DIRECTIONS. discovered fs' (animation_dir fs' f') d = Inr (frames d)) \<and>
    (\<forall>d\<in>set DIRECTIONS. \<forall>q\<in>set (frames d). decode fs q = decode fs' q) \<and>
    (\<exists>d\<in>set DIRECTIONS. frames d \<noteq> []) \<and> writable fs p \<and> writable fs' p'"
  then have ex: "exists fs (animation_dir fs f)" and ex': "exists fs' (animation_dir fs' f')"
    and fr: "\<forall>d\<in>set DIRECTIONS. discovered fs (animation_dir fs f) d = Inr (frames d)"
    and fr': "\<forall>d\<in>set DIRECTIONS. discovered fs' (animation_dir fs' f') d = Inr (frames d)"
    and dc: "\<forall>d\<in>set DIRECTIONS. \<forall>q\<in>set (frames d). decode fs q = decode fs' q"
    and ne: "\<exists>d\<in>set DIRECTIONS. frames d \<noteq> []"
    and w: "writable fs p" and w': "writable fs' p'" by blast+
  have pos: "0 < frame_count frames" using ne by (simp add: frame_count_pos_iff)
  have a: "written (fst (create_spritesheet fs n f p out)) p = Some (composed fs frames)"
    by (simp add: create_spritesheet_saved[OF ex fr pos w])
  have b: "written (fst (create_spritesheet fs' n' f' p' out')) p' = Some (composed fs' frames)"
    by (simp add: create_spritesheet_saved[OF ex' fr' pos w'])
  have "composed fs frames = composed fs' frames" by (rule composed_cong[OF dc])
  then show "\<exists>sheet. written (fst (create_spritesheet fs n f p out)) p = Some sheet \<and>
               written (fst (create_spritesheet fs' n' f' p' out')) p' = Some sheet"
    using a b by simp
qed

theorem assembly_deterministic_witness:
  "snd (create_spritesheet demo ''idle'' ''breathing-idle'' ''/g/spritesheets/idle.png'' no_effects)
     = Inr True \<and>
   exists demo (animation_dir demo ''breathing-idle'') \<and>
   map (discovered demo (animation_dir demo ''breathing-idle'')) DIRECTIONS =
     map (\<lambda>d. Inr (idle_frames d)) DIRECTIONS \<and>
   idle_frames ''south'' \<noteq> [] \<and>
   writable demo ''/g/spritesheets/idle.png'' \<and> writable demo ''/g/spritesheets/again.png'' \<and>
   written (fst (create_spritesheet demo ''idle'' ''breathing-idle'' ''/g/spritesheets/idle.png''
              (fst (create_spritesheet demo ''idle'' ''breathing-idle''
                      ''/g/spritesheets/idle.png'' no_effects)))) =
     written (fst (create_spritesheet demo ''idle'' ''breathing-idle''
                     ''/g/spritesheets/idle.png'' no_effects)) \<and>
   written (fst (create_spritesheet demo ''again'' ''breathing-idle'' ''/g/spritesheets/again.png''
              (fst (create_spritesheet demo ''idle'' ''breathing-idle''
                      ''/g/spritesheets/idle.png'' no_effects)))) ''/g/spritesheets/again.png'' =
     written (fst (create_spritesheet demo ''idle'' ''breathing-idle''
                     ''/g/spritesheets/idle.png'' no_effects)) ''/g/spritesheets/idle.png''"
proof -
  let ?run1 = "create_spritesheet demo ''idle'' ''breathing-idle'' ''/g/spritesheets/idle.png''
      no_effects"
  have m: "map (discovered demo (animation_dir demo ''breathing-idle'')) DIRECTIONS =
     map (\<lambda>d. Inr (idle_frames d)) DIRECTIONS"
    using demo_idle_discovered by simp
  have s: "idle_frames ''south'' \<noteq> []" by (simp add: idle_frames_def)
  have w: "writable demo ''/g/spritesheets/idle.png''" "writable demo ''/g/spritesheets/again.png''"
    by (simp_all add: demo_fields)
  have t: "snd ?run1 = Inr True" by (rule demo_idle_succeeds)
  have h: "exists demo (animation_dir demo ''breathing-idle'') \<and>
    exists demo (animation_dir demo ''breathing-idle'') \<and>
    (\<forall>d\<in>set DIRECTIONS. discovered demo (animation_dir demo ''breathing-idle'') d =
        Inr (idle_frames d)) \<and>
    (\<forall>d\<in>set DIRECTIONS. discovered demo (animation_dir demo ''breathing-idle'') d =
        Inr (idle_frames d)) \<and>
    (\<forall>d\<in>set DIRECTIONS. \<forall>q\<in>set (idle_frames d). decode demo q = decode demo q) \<and>
    (\<exists>d\<in>set DIRECTIONS. idle_frames d \<noteq> []) \<and>
    writable demo ''/g/spritesheets/idle.png'' \<and> writable demo ''/g/spritesheets/again.png''"
    using demo_idle_exists demo_idle_discovered idle_frames_nonempty w by simp
  note a = assembly_deterministic[of demo "''idle''" "''breathing-idle''"
      "''/g/spritesheets/idle.png''" "fst ?run1" no_effects demo "''breathing-idle''" idle_frames
      "''/g/spritesheets/again.png''" "''again''"]
  have a2: "written (fst (create_spritesheet demo ''idle'' ''breathing-idle''
      ''/g/spritesheets/idle.png'' (fst ?run1))) = written (fst ?run1)"
    using mp[OF conjunct1[OF conjunct2[OF a]] t] by blast
  have a3: "written (fst (create_spritesheet demo ''again'' ''breathing-idle''
      ''/g/spritesheets/again.png'' (fst ?run1))) ''/g/spritesheets/again.png'' =
      written (fst ?run1) ''/g/spritesheets/idle.png''"
    using mp[OF conjunct2[OF conjunct2[OF a]] h] by auto
  show ?thesis using t demo_idle_exists m s w a2 a3 by blast
qed

end
